(* ===== verification/Prelude.thy ===== *)
theory Prelude
  imports Main
begin

text \<open>
  The parts of the Python runtime that every component of the test suite relies on:
  exceptions as values, statements as state transformers that may raise, a small
  Hoare logic for them, and the string operations (\<open>str\<close>, \<open>int\<close>, \<open>join\<close>, \<open>split\<close>,
  \<open>strip\<close>, \<open>replace\<close>) with the laws that the components use.

  A Python string is a list of characters (\<open>string\<close>), and the character classes and case
  mappings are those of Python on ASCII text, which is all the code handles. A Python integer is an
  \<open>int\<close>, or a \<open>nat\<close> where the code only counts upwards.
\<close>

named_theorems act_simps \<open>symbolic execution of statements\<close>
named_theorems pres_rules \<open>statements that keep a state predicate\<close>
named_theorems return_rules \<open>statements that return a known value\<close>
named_theorems keep_rules \<open>statements that keep a state predicate when they succeed\<close>

section \<open>Exceptions and statements\<close>

datatype exn =
    CalledProcessError int string
  | RuntimeError string
  | AssertionError
  | AttributeError
  | IndexError
  | KeyError
  | NameError
  | NotImplementedError string
  | OSError string
  | OverflowError
  | PipelineFailure int
  | StopIteration
  | SystemExit int
  | TimeoutExpired
  | TypeError
  | UnboundLocalError
  | ValueError
  | ZeroDivisionError

text \<open>
  A statement takes the state and ends with an exception or a value, and the state it
  leaves behind in either case (Python does not roll back).
\<close>

type_synonym ('s, 'a) act = "'s \<Rightarrow> (exn + 'a) \<times> 's"

definition ret :: "'a \<Rightarrow> ('s, 'a) act" where
  "ret x s = (Inr x, s)"

definition raise :: "exn \<Rightarrow> ('s, 'a) act" where
  "raise e s = (Inl e, s)"

definition bindA :: "('s, 'a) act \<Rightarrow> ('a \<Rightarrow> ('s, 'b) act) \<Rightarrow> ('s, 'b) act" where
  "bindA m f s = (case m s of (Inl e, t) \<Rightarrow> (Inl e, t) | (Inr x, t) \<Rightarrow> f x t)"

definition seqA :: "('s, 'a) act \<Rightarrow> ('s, 'b) act \<Rightarrow> ('s, 'b) act" where
  "seqA m k = bindA m (\<lambda>_. k)"

text \<open>Reading the state, changing it, and a pure expression that may raise.\<close>

definition getA :: "('s \<Rightarrow> 'a) \<Rightarrow> ('s, 'a) act" where
  "getA f s = (Inr (f s), s)"

definition modA :: "('s \<Rightarrow> 's) \<Rightarrow> ('s, unit) act" where
  "modA f s = (Inr (), f s)"

definition liftA :: "exn + 'a \<Rightarrow> ('s, 'a) act" where
  "liftA r s = (r, s)"

definition whenA :: "bool \<Rightarrow> ('s, unit) act \<Rightarrow> ('s, unit) act" where
  "whenA b m = (if b then m else ret ())"

definition assertA :: "bool \<Rightarrow> ('s, unit) act" where
  "assertA b = (if b then ret () else raise AssertionError)"

text \<open>\<open>try: m except ... as e: h e\<close> and \<open>try: m finally: k\<close> (also a \<open>with\<close> block's exit).\<close>

definition tryA :: "('s, 'a) act \<Rightarrow> (exn \<Rightarrow> ('s, 'a) act) \<Rightarrow> ('s, 'a) act" where
  "tryA m h s = (case m s of (Inl e, t) \<Rightarrow> h e t | (Inr x, t) \<Rightarrow> (Inr x, t))"

definition finallyA :: "('s, 'a) act \<Rightarrow> ('s, unit) act \<Rightarrow> ('s, 'a) act" where
  "finallyA m k s =
     (case m s of (r, t) \<Rightarrow> (case k t of (Inl e, u) \<Rightarrow> (Inl e, u) | (Inr _, u) \<Rightarrow> (r, u)))"

text \<open>\<open>for x in xs: f x\<close> and \<open>[f x for x in xs]\<close>.\<close>

primrec forA :: "'a list \<Rightarrow> ('a \<Rightarrow> ('s, unit) act) \<Rightarrow> ('s, unit) act" where
  "forA [] f = ret ()"
| "forA (x # xs) f = seqA (f x) (forA xs f)"

primrec mapA :: "'a list \<Rightarrow> ('a \<Rightarrow> ('s, 'b) act) \<Rightarrow> ('s, 'b list) act" where
  "mapA [] f = ret []"
| "mapA (x # xs) f = bindA (f x) (\<lambda>y. bindA (mapA xs f) (\<lambda>ys. ret (y # ys)))"

text \<open>A loop that threads a value: \<open>for x in xs: acc = f(acc, x)\<close>.\<close>

primrec foldA :: "'a list \<Rightarrow> ('b \<Rightarrow> 'a \<Rightarrow> ('s, 'b) act) \<Rightarrow> 'b \<Rightarrow> ('s, 'b) act" where
  "foldA [] f acc = ret acc"
| "foldA (x # xs) f acc = bindA (f acc x) (foldA xs f)"

lemmas act_defs = ret_def raise_def bindA_def seqA_def getA_def modA_def liftA_def
  whenA_def assertA_def tryA_def finallyA_def

subsection \<open>Laws of statements\<close>

lemma bind_ret [simp, act_simps]: "bindA (ret x) f = f x"
  by (rule ext) (simp add: act_defs)

lemma bind_raise [simp, act_simps]: "bindA (raise e) f = raise e"
  by (rule ext) (simp add: act_defs)

lemma bind_ret_right [simp]: "bindA m ret = m"
  by (rule ext) (simp add: act_defs split: prod.splits sum.splits)

lemma bind_assoc: "bindA (bindA m f) g = bindA m (\<lambda>x. bindA (f x) g)"
  by (rule ext) (simp add: act_defs split: prod.splits sum.splits)

lemma seq_ret [simp, act_simps]: "seqA (ret x) k = k"
  by (simp add: seqA_def)

lemma seq_raise [simp, act_simps]: "seqA (raise e) k = raise e"
  by (simp add: seqA_def)

lemma seq_assoc: "seqA (seqA m k) l = seqA m (seqA k l)"
  by (simp add: seqA_def bind_assoc)

lemma for_append: "forA (xs @ ys) f = seqA (forA xs f) (forA ys f)"
  by (induction xs) (simp_all add: seq_assoc)

lemma when_True [simp, act_simps]: "whenA True m = m"
  and when_False [simp, act_simps]: "whenA False m = ret ()"
  by (simp_all add: whenA_def)

lemma assert_True [simp, act_simps]: "assertA True = ret ()"
  and assert_False [simp, act_simps]: "assertA False = raise AssertionError"
  by (simp_all add: assertA_def)

lemma ret_app [simp, act_simps]: "ret x s = (Inr x, s)"
  and raise_app [simp, act_simps]: "raise e s = (Inl e, s)"
  and getA_app [simp, act_simps]: "getA f s = (Inr (f s), s)"
  and modA_app [simp, act_simps]: "modA g s = (Inr (), g s)"
  and liftA_app [simp, act_simps]: "liftA r s = (r, s)"
  by (simp_all add: act_defs)

text \<open>Stepping through a sequence whose first statement has a known outcome.\<close>

lemma bind_ok [act_simps]: "m s = (Inr x, t) \<Longrightarrow> bindA m f s = f x t"
  by (simp add: bindA_def)

lemma bind_err [act_simps]: "m s = (Inl e, t) \<Longrightarrow> bindA m f s = (Inl e, t)"
  by (simp add: bindA_def)

lemma seq_ok [act_simps]: "m s = (Inr x, t) \<Longrightarrow> seqA m k s = k t"
  by (simp add: seqA_def bindA_def)

lemma seq_err [act_simps]: "m s = (Inl e, t) \<Longrightarrow> seqA m k s = (Inl e, t)"
  by (simp add: seqA_def bindA_def)

lemma bind_getA [simp, act_simps]: "bindA (getA g) f s = f (g s) s"
  by (simp add: act_defs)

lemma seq_modA [simp, act_simps]: "seqA (modA g) k s = k (g s)"
  by (simp add: act_defs)

lemma lift_Inr [act_simps]: "liftA (Inr x) = ret x"
  and lift_Inl [act_simps]: "liftA (Inl e) = raise e"
  by (auto simp: act_defs)

lemma bind_InrE:
  assumes "bindA m f s = (Inr y, u)"
  obtains x t where "m s = (Inr x, t)" and "f x t = (Inr y, u)"
  using assms by (auto simp: bindA_def split: prod.splits sum.splits)

lemma seq_InrE:
  assumes "seqA m k s = (Inr y, u)"
  obtains x t where "m s = (Inr x, t)" and "k t = (Inr y, u)"
  using assms unfolding seqA_def by (rule bind_InrE)

section \<open>A Hoare logic for statements\<close>

text \<open>
  \<open>triple P m Q R\<close>: from a state satisfying \<open>P\<close>, if \<open>m\<close> ends normally then \<open>Q\<close> holds of
  the value and the state, and if it raises then \<open>R\<close> holds of the exception and the state.
\<close>

definition triple ::
  "('s \<Rightarrow> bool) \<Rightarrow> ('s, 'a) act \<Rightarrow> ('a \<Rightarrow> 's \<Rightarrow> bool) \<Rightarrow> (exn \<Rightarrow> 's \<Rightarrow> bool) \<Rightarrow> bool" where
  "triple P m Q R \<longleftrightarrow>
     (\<forall>s. P s \<longrightarrow> (case m s of (Inl e, t) \<Rightarrow> R e t | (Inr x, t) \<Rightarrow> Q x t))"

definition pres :: "('s \<Rightarrow> bool) \<Rightarrow> ('s, 'a) act \<Rightarrow> bool" where
  "pres P m \<longleftrightarrow> triple P m (\<lambda>_. P) (\<lambda>_. P)"

lemma pres_iff: "pres P m \<longleftrightarrow> (\<forall>s. P s \<longrightarrow> P (snd (m s)))"
  by (simp add: pres_def triple_def split_beta split: sum.splits prod.splits)

lemma presD: "pres P m \<Longrightarrow> P s \<Longrightarrow> P (snd (m s))"
  by (simp add: pres_iff)

lemma presI: "(\<And>s. P s \<Longrightarrow> P (snd (m s))) \<Longrightarrow> pres P m"
  by (simp add: pres_iff)

lemma pres_result: "pres P m \<Longrightarrow> P s \<Longrightarrow> m s = (r, t) \<Longrightarrow> P t"
  using presD [of P m s] by simp

lemma tripleI:
  "(\<And>s x t. P s \<Longrightarrow> m s = (Inr x, t) \<Longrightarrow> Q x t) \<Longrightarrow>
   (\<And>s e t. P s \<Longrightarrow> m s = (Inl e, t) \<Longrightarrow> R e t) \<Longrightarrow> triple P m Q R"
  by (auto simp: triple_def split: prod.splits sum.splits)

lemma triple_okD: "triple P m Q R \<Longrightarrow> P s \<Longrightarrow> m s = (Inr x, t) \<Longrightarrow> Q x t"
  unfolding triple_def by fastforce

lemma triple_errD: "triple P m Q R \<Longrightarrow> P s \<Longrightarrow> m s = (Inl e, t) \<Longrightarrow> R e t"
  unfolding triple_def by fastforce

lemma triple_bind:
  assumes "triple P m A R" and "\<And>x. triple (A x) (f x) Q R"
  shows "triple P (bindA m f) Q R"
  using assms unfolding triple_def bindA_def
  by (fastforce split: prod.splits sum.splits)

lemma triple_seq:
  assumes "triple P m (\<lambda>_. A) R" and "triple A k Q R"
  shows "triple P (seqA m k) Q R"
  unfolding seqA_def by (rule triple_bind [OF assms(1)]) (rule assms(2))

lemma triple_conseq:
  assumes "triple P' m Q' R'" and "\<And>s. P s \<Longrightarrow> P' s"
    and "\<And>x s. Q' x s \<Longrightarrow> Q x s" and "\<And>e s. R' e s \<Longrightarrow> R e s"
  shows "triple P m Q R"
  using assms unfolding triple_def by (fastforce split: prod.splits sum.splits)

lemma triple_for:
  assumes "\<And>x. x \<in> set xs \<Longrightarrow> triple I (f x) (\<lambda>_. I) R"
  shows "triple I (forA xs f) (\<lambda>_. I) R"
  using assms
proof (induction xs)
  case Nil
  then show ?case by (simp add: triple_def)
next
  case (Cons x xs)
  then show ?case by (auto intro!: triple_seq [where A = I])
qed

lemma pres_ret [pres_rules]: "pres P (ret x)"
  and pres_raise [pres_rules]: "pres P (raise e)"
  and pres_getA [pres_rules]: "pres P (getA f)"
  and pres_liftA [pres_rules]: "pres P (liftA r)"
  and pres_assertA [pres_rules]: "pres P (assertA b)"
  by (simp_all add: pres_iff act_defs)

lemma pres_bind [pres_rules]:
  "pres P m \<Longrightarrow> (\<And>x. pres P (f x)) \<Longrightarrow> pres P (bindA m f)"
  unfolding pres_def by (rule triple_bind)

lemma pres_seq [pres_rules]: "pres P m \<Longrightarrow> pres P k \<Longrightarrow> pres P (seqA m k)"
  unfolding seqA_def by (rule pres_bind)

lemma pres_for [pres_rules]:
  "(\<And>x. x \<in> set xs \<Longrightarrow> pres P (f x)) \<Longrightarrow> pres P (forA xs f)"
  unfolding pres_def by (rule triple_for)

lemma pres_mapA [pres_rules]:
  "(\<And>x. x \<in> set xs \<Longrightarrow> pres P (f x)) \<Longrightarrow> pres P (mapA xs f)"
  by (induction xs) (auto intro!: pres_rules)

lemma pres_foldA [pres_rules]:
  "(\<And>acc x. x \<in> set xs \<Longrightarrow> pres P (f acc x)) \<Longrightarrow> pres P (foldA xs f acc)"
  by (induction xs arbitrary: acc) (auto intro!: pres_rules)

lemma pres_when [pres_rules]: "(b \<Longrightarrow> pres P m) \<Longrightarrow> pres P (whenA b m)"
  by (cases b) (simp_all add: pres_ret)

lemma pres_if [pres_rules]:
  "(b \<Longrightarrow> pres P m) \<Longrightarrow> (\<not> b \<Longrightarrow> pres P k) \<Longrightarrow> pres P (if b then m else k)"
  by simp

lemma pres_case_option [pres_rules]:
  "(z = None \<Longrightarrow> pres P m) \<Longrightarrow> (\<And>x. z = Some x \<Longrightarrow> pres P (f x)) \<Longrightarrow>
   pres P (case z of None \<Rightarrow> m | Some x \<Rightarrow> f x)"
  by (cases z) simp_all

lemma pres_case_list [pres_rules]:
  "(z = [] \<Longrightarrow> pres P m) \<Longrightarrow> (\<And>x xs. z = x # xs \<Longrightarrow> pres P (f x xs)) \<Longrightarrow>
   pres P (case z of [] \<Rightarrow> m | x # xs \<Rightarrow> f x xs)"
  by (cases z) simp_all

lemma pres_case_prod [pres_rules]:
  "(\<And>x y. pres P (f x y)) \<Longrightarrow> pres P (case z of (x, y) \<Rightarrow> f x y)"
  by (cases z) simp

lemma pres_let [pres_rules]: "(\<And>x. pres P (f x)) \<Longrightarrow> pres P (let x = v in f x)"
  by simp

lemma pres_try [pres_rules]:
  "pres P m \<Longrightarrow> (\<And>e. pres P (h e)) \<Longrightarrow> pres P (tryA m h)"
  unfolding pres_iff tryA_def by (fastforce split: prod.splits sum.splits)

lemma pres_finally [pres_rules]:
  "pres P m \<Longrightarrow> pres P k \<Longrightarrow> pres P (finallyA m k)"
  unfolding pres_iff finallyA_def by (fastforce split: prod.splits sum.splits)

lemma pres_modA: "(\<And>s. P s \<Longrightarrow> P (g s)) \<Longrightarrow> pres P (modA g)"
  by (simp add: pres_iff)

text \<open>\<open>keeps I m\<close>: \<open>I\<close> holds again if \<open>m\<close> succeeds; nothing is said about the state it raises in.\<close>

text \<open>\<open>returns P m x\<close>: from a state satisfying \<open>P\<close>, \<open>m\<close> ends normally with \<open>x\<close>, and \<open>P\<close> still holds.\<close>

definition returns :: "('s \<Rightarrow> bool) \<Rightarrow> ('s, 'a) act \<Rightarrow> 'a \<Rightarrow> bool" where
  "returns P m x \<longleftrightarrow> (\<forall>s. P s \<longrightarrow> (\<exists>t. m s = (Inr x, t) \<and> P t))"

lemma returnsD: "returns P m x \<Longrightarrow> P s \<Longrightarrow> \<exists>t. m s = (Inr x, t) \<and> P t"
  by (simp add: returns_def)

lemma returns_ret [return_rules]: "returns P (ret x) x"
  and returns_get [return_rules]: "(\<And>s. P s \<Longrightarrow> g s = x) \<Longrightarrow> returns P (getA g) x"
  and returns_lift [return_rules]: "r = Inr x \<Longrightarrow> returns P (liftA r) x"
  and returns_mod [return_rules]: "(\<And>s. P s \<Longrightarrow> P (f s)) \<Longrightarrow> returns P (modA f) ()"
  by (auto simp: returns_def act_defs)

lemma returns_bind [return_rules]: "returns P m x \<Longrightarrow> returns P (f x) y \<Longrightarrow> returns P (bindA m f) y"
  unfolding returns_def by (metis bind_ok)

lemma returns_bind_get: "(\<And>s. P s \<Longrightarrow> returns P (f (g s)) y) \<Longrightarrow> returns P (bindA (getA g) f) y"
  by (simp add: returns_def)

lemma returns_bind_lift: "r = Inr x \<Longrightarrow> returns P (f x) y \<Longrightarrow> returns P (bindA (liftA r) f) y"
  by (simp add: returns_def lift_Inr)

lemma returns_seq [return_rules]: "returns P m x \<Longrightarrow> returns P k y \<Longrightarrow> returns P (seqA m k) y"
  unfolding seqA_def by (rule returns_bind)

lemma returns_try: "returns P m x \<Longrightarrow> returns P (tryA m h) x"
  unfolding returns_def tryA_def by fastforce

lemma returns_for: "(\<And>x. x \<in> set xs \<Longrightarrow> returns P (f x) ()) \<Longrightarrow> returns P (forA xs f) ()"
  by (induction xs) (auto intro: returns_ret returns_seq)

lemma returns_map: "(\<And>x. x \<in> set xs \<Longrightarrow> returns P (f x) (g x)) \<Longrightarrow> returns P (mapA xs f) (map g xs)"
  by (induction xs) (auto intro!: returns_ret returns_bind)

definition keeps :: "('s \<Rightarrow> bool) \<Rightarrow> ('s, 'a) act \<Rightarrow> bool" where
  "keeps I m \<longleftrightarrow> triple I m (\<lambda>_. I) (\<lambda>_ _. True)"

lemma keepsI: "(\<And>s x t. I s \<Longrightarrow> m s = (Inr x, t) \<Longrightarrow> I t) \<Longrightarrow> keeps I m"
  unfolding keeps_def by (rule tripleI) simp_all

lemma keepsD: "keeps I m \<Longrightarrow> I s \<Longrightarrow> m s = (Inr x, t) \<Longrightarrow> I t"
  unfolding keeps_def by (rule triple_okD)

lemma keeps_bind_get [keep_rules]:
  "(\<And>s. I s \<Longrightarrow> keeps I (f (g s))) \<Longrightarrow> keeps I (bindA (getA g) f)"
  by (rule keepsI) (auto dest: keepsD)

lemma keeps_ret [keep_rules]: "keeps I (ret x)"
  and keeps_raise [keep_rules]: "keeps I (raise e)"
  and keeps_getA [keep_rules]: "keeps I (getA f)"
  and keeps_liftA [keep_rules]: "keeps I (liftA r)"
  and keeps_assertA [keep_rules]: "keeps I (assertA b)"
  by (auto intro!: keepsI simp: assertA_def split: if_splits)

lemma keeps_bind [keep_rules]:
  "keeps I m \<Longrightarrow> (\<And>x. keeps I (f x)) \<Longrightarrow> keeps I (bindA m f)"
  unfolding keeps_def by (rule triple_bind)

lemma keeps_seq [keep_rules]: "keeps I m \<Longrightarrow> keeps I k \<Longrightarrow> keeps I (seqA m k)"
  unfolding seqA_def by (rule keeps_bind)

lemma keeps_for [keep_rules]:
  "(\<And>x. x \<in> set xs \<Longrightarrow> keeps I (f x)) \<Longrightarrow> keeps I (forA xs f)"
  unfolding keeps_def by (rule triple_for)

lemma keeps_when [keep_rules]: "(b \<Longrightarrow> keeps I m) \<Longrightarrow> keeps I (whenA b m)"
  by (cases b) (simp_all add: keeps_ret)

lemma keeps_if [keep_rules]:
  "(b \<Longrightarrow> keeps I m) \<Longrightarrow> (\<not> b \<Longrightarrow> keeps I k) \<Longrightarrow> keeps I (if b then m else k)"
  by simp

lemma keeps_case_option [keep_rules]:
  "(z = None \<Longrightarrow> keeps I m) \<Longrightarrow> (\<And>x. z = Some x \<Longrightarrow> keeps I (f x)) \<Longrightarrow>
   keeps I (case z of None \<Rightarrow> m | Some x \<Rightarrow> f x)"
  by (cases z) simp_all

lemma keeps_case_sum [keep_rules]:
  "(\<And>x. z = Inl x \<Longrightarrow> keeps I (f x)) \<Longrightarrow> (\<And>x. z = Inr x \<Longrightarrow> keeps I (g x)) \<Longrightarrow>
   keeps I (case z of Inl x \<Rightarrow> f x | Inr x \<Rightarrow> g x)"
  by (cases z) simp_all

lemma keeps_case_list [keep_rules]:
  "(z = [] \<Longrightarrow> keeps I m) \<Longrightarrow> (\<And>x xs. z = x # xs \<Longrightarrow> keeps I (f x xs)) \<Longrightarrow>
   keeps I (case z of [] \<Rightarrow> m | x # xs \<Rightarrow> f x xs)"
  by (cases z) simp_all

lemma keeps_case_prod [keep_rules]:
  "(\<And>x y. z = (x, y) \<Longrightarrow> keeps I (f x y)) \<Longrightarrow> keeps I (case z of (x, y) \<Rightarrow> f x y)"
  by (cases z) simp

lemma keeps_let [keep_rules]: "(\<And>x. x = v \<Longrightarrow> keeps I (f x)) \<Longrightarrow> keeps I (let x = v in f x)"
  by simp

section \<open>Statements within a relation of states\<close>

text \<open>
  A reflexive and transitive relation between the state before and the state after is kept by a
  whole statement when its parts keep it, however they end. The components instantiate the
  relation with what a group of operations leaves alone.
\<close>

locale step_rel =
  fixes R :: "'s \<Rightarrow> 's \<Rightarrow> bool"
  assumes step_refl: "R s s" and step_trans: "R s t \<Longrightarrow> R t u \<Longrightarrow> R s u"
begin

definition within :: "('s, 'a) act \<Rightarrow> bool" where
  "within m \<longleftrightarrow> (\<forall>s. R s (snd (m s)))"

lemma withinI: "(\<And>s r t. m s = (r, t) \<Longrightarrow> R s t) \<Longrightarrow> within m"
  unfolding within_def by (metis prod.collapse)

lemma withinD: "within m \<Longrightarrow> m s = (r, t) \<Longrightarrow> R s t"
  unfolding within_def by (metis snd_conv)

lemma within_basic:
  "within (ret x)" "within (raise e)" "within (getA f)" "within (liftA r)" "within (assertA b)"
  by (auto simp: within_def assertA_def step_refl)

lemma within_mod: "(\<And>s. R s (g s)) \<Longrightarrow> within (modA g)"
  by (simp add: within_def)

lemma within_bind:
  assumes "within m" and "\<And>x. within (f x)"
  shows "within (bindA m f)"
proof (rule withinI)
  fix s r u assume run: "bindA m f s = (r, u)"
  obtain q t where m: "m s = (q, t)" by (cases "m s")
  have "R s t" using withinD [OF assms(1) m] .
  moreover have "R t u"
  proof (cases q)
    case (Inl e)
    then show ?thesis using run m by (simp add: bindA_def step_refl)
  next
    case (Inr x)
    then show ?thesis using run m withinD [OF assms(2)] by (simp add: bindA_def)
  qed
  ultimately show "R s u" by (rule step_trans)
qed

lemma within_try:
  assumes "within m" and "\<And>e. within (h e)"
  shows "within (tryA m h)"
proof (rule withinI)
  fix s r u assume run: "tryA m h s = (r, u)"
  obtain q t where m: "m s = (q, t)" by (cases "m s")
  have "R s t" using withinD [OF assms(1) m] .
  moreover have "R t u"
  proof (cases q)
    case (Inl e)
    then show ?thesis using run m withinD [OF assms(2)] by (simp add: tryA_def)
  next
    case (Inr x)
    then show ?thesis using run m by (simp add: tryA_def step_refl)
  qed
  ultimately show "R s u" by (rule step_trans)
qed

lemma within_finally: "within m \<Longrightarrow> within k \<Longrightarrow> within (finallyA m k)"
proof (rule withinI)
  fix s r u assume m: "within m" and k: "within k" and run: "finallyA m k s = (r, u)"
  obtain q t where 1: "m s = (q, t)" by (cases "m s")
  obtain p v where 2: "k t = (p, v)" by (cases "k t")
  have "u = v" using run 1 2 by (simp add: finallyA_def split: sum.splits)
  then show "R s u" using step_trans [OF withinD [OF m 1] withinD [OF k 2]] by simp
qed

lemma within_seq: "within m \<Longrightarrow> within k \<Longrightarrow> within (seqA m k)"
  unfolding seqA_def by (rule within_bind)

lemma within_when: "(b \<Longrightarrow> within u) \<Longrightarrow> within (whenA b u)"
  by (cases b) (simp_all add: within_basic)

lemma within_for: "(\<And>x. within (h x)) \<Longrightarrow> within (forA xs h)"
  by (induction xs) (simp_all add: within_basic within_seq)

lemma within_map: "(\<And>x. within (f x)) \<Longrightarrow> within (mapA xs f)"
  by (induction xs) (simp_all add: within_basic within_bind)

lemma within_fold: "(\<And>acc x. within (f acc x)) \<Longrightarrow> within (foldA xs f acc)"
  by (induction xs arbitrary: acc) (simp_all add: within_basic within_bind)

lemma within_if: "(b \<Longrightarrow> within m) \<Longrightarrow> (\<not> b \<Longrightarrow> within k) \<Longrightarrow> within (if b then m else k)"
  by simp

lemma within_option: "within m \<Longrightarrow> (\<And>x. within (f x)) \<Longrightarrow> within (case z of None \<Rightarrow> m | Some x \<Rightarrow> f x)"
  by (cases z) simp_all

lemma within_sum:
  "(\<And>x. within (f x)) \<Longrightarrow> (\<And>x. within (g x)) \<Longrightarrow> within (case z of Inl x \<Rightarrow> f x | Inr x \<Rightarrow> g x)"
  by (cases z) simp_all

lemma within_list: "within m \<Longrightarrow> (\<And>x xs. within (f x xs)) \<Longrightarrow> within (case z of [] \<Rightarrow> m | x # xs \<Rightarrow> f x xs)"
  by (cases z) simp_all

lemma within_prod: "(\<And>x y. within (f x y)) \<Longrightarrow> within (case z of (x, y) \<Rightarrow> f x y)"
  by (cases z) simp

lemma within_let: "(\<And>x. within (f x)) \<Longrightarrow> within (let x = v in f x)"
  by simp

lemmas within_rules = within_basic within_bind within_seq within_try within_finally within_when
  within_for within_map within_fold within_if within_option within_sum within_list within_prod within_let

text \<open>A member of a loop that ended runs between two states of the relation.\<close>

lemma for_member:
  assumes "\<And>x. within (f x)" and "forA xs f s = (Inr u, t)" and "x \<in> set xs"
  shows "\<exists>p q. R s p \<and> f x p = (Inr (), q) \<and> R q t"
  using assms(2,3)
proof (induction xs arbitrary: s)
  case (Cons y ys)
  obtain p where 1: "f y s = (Inr (), p)" and 2: "forA ys f p = (Inr u, t)"
    using Cons.prems(1) unfolding forA.simps by (rule seq_InrE) simp
  have "R p t" using withinD [OF within_for [of f ys] 2] assms(1) by blast
  have sp: "R s p" using withinD [OF assms(1) 1] .
  show ?case
  proof (cases "x = y")
    case True
    then show ?thesis using 1 \<open>R p t\<close> step_refl by blast
  next
    case False
    then show ?thesis using Cons.IH [OF 2] Cons.prems(2) step_trans [OF sp] by auto
  qed
qed simp

lemma map_member:
  assumes "\<And>x. within (f x)" and "mapA xs f s = (Inr ys, t)" and "i < length xs"
  shows "\<exists>p q. R s p \<and> f (xs ! i) p = (Inr (ys ! i), q) \<and> R q t"
  using assms(2,3)
proof (induction xs arbitrary: s ys i)
  case (Cons x xs)
  obtain y p where 1: "f x s = (Inr y, p)"
    and r: "bindA (mapA xs f) (\<lambda>zs. ret (y # zs)) p = (Inr ys, t)"
    using Cons.prems(1) unfolding mapA.simps by (rule bind_InrE)
  obtain zs q where 2: "mapA xs f p = (Inr zs, q)" and r': "ret (y # zs) q = (Inr ys, t)"
    using r by (rule bind_InrE)
  have ys: "ys = y # zs" "q = t" using r' by simp_all
  have "R p t" using withinD [OF within_map [of f xs] 2] assms(1) ys by blast
  have sp: "R s p" using withinD [OF assms(1) 1] .
  show ?case
  proof (cases i)
    case 0
    then show ?thesis using 1 ys \<open>R p t\<close> step_refl by auto
  next
    case (Suc j)
    then show ?thesis using Cons.IH [of p zs j] 2 Cons.prems(2) ys step_trans [OF sp] by auto
  qed
qed simp

lemma within_pres: "within m \<Longrightarrow> (\<And>s t. R s t \<Longrightarrow> P s \<Longrightarrow> P t) \<Longrightarrow> pres P m"
  unfolding within_def by (auto intro!: presI)

lemma within_keeps: "within m \<Longrightarrow> (\<And>s t. R s t \<Longrightarrow> P s \<Longrightarrow> P t) \<Longrightarrow> keeps P m"
  by (rule keepsI) (metis withinD)

end

section \<open>Strings\<close>

abbreviation NL :: string where
  "NL \<equiv> [CHR 0x0A]"

abbreviation QUOTE :: char where
  "QUOTE \<equiv> CHR 0x27"

abbreviation DQUOTE :: char where
  "DQUOTE \<equiv> CHR 0x22"

definition is_digit :: "char \<Rightarrow> bool" where
  "is_digit c \<longleftrightarrow> 48 \<le> (of_char c :: nat) \<and> (of_char c :: nat) \<le> 57"

definition is_space :: "char \<Rightarrow> bool" where
  "is_space c \<longleftrightarrow> (of_char c :: nat) \<in> {9, 10, 11, 12, 13, 28, 29, 30, 31, 32}"

text \<open>\<open>sep.join(xs)\<close>, \<open>s.split(c)\<close>, \<open>s.strip()\<close>, \<open>s.replace(c, r)\<close> for a one-character \<open>c\<close>,
  \<open>s.startswith(p)\<close> and \<open>s.splitlines()\<close> for text whose line ends are newlines.\<close>

fun join :: "string \<Rightarrow> string list \<Rightarrow> string" where
  "join sep [] = []"
| "join sep [x] = x"
| "join sep (x # y # ys) = x @ sep @ join sep (y # ys)"

fun split_on :: "char \<Rightarrow> string \<Rightarrow> string list" where
  "split_on c [] = [[]]"
| "split_on c (x # xs) =
     (if x = c then [] # split_on c xs
      else (case split_on c xs of [] \<Rightarrow> [[x]] | y # ys \<Rightarrow> (x # y) # ys))"

definition lstrip :: "string \<Rightarrow> string" where
  "lstrip s = dropWhile is_space s"

definition strip :: "string \<Rightarrow> string" where
  "strip s = rev (lstrip (rev (lstrip s)))"

definition replace_char :: "char \<Rightarrow> string \<Rightarrow> string \<Rightarrow> string" where
  "replace_char c r s = concat (map (\<lambda>x. if x = c then r else [x]) s)"

definition startswith :: "string \<Rightarrow> string \<Rightarrow> bool" where
  "startswith s p \<longleftrightarrow> take (length p) s = p"

definition splitlines :: "string \<Rightarrow> string list" where
  "splitlines s =
     (let ls = split_on (CHR 0x0A) s in if last ls = [] then butlast ls else ls)"

definition upper_char :: "char \<Rightarrow> char" where
  "upper_char c =
     (let n = (of_char c :: nat) in if 97 \<le> n \<and> n \<le> 122 then char_of (n - 32) else c)"

definition lower_char :: "char \<Rightarrow> char" where
  "lower_char c =
     (let n = (of_char c :: nat) in if 65 \<le> n \<and> n \<le> 90 then char_of (n + 32) else c)"

text \<open>\<open>substr p s\<close> is \<open>p in s\<close>.\<close>

fun substr :: "string \<Rightarrow> string \<Rightarrow> bool" where
  "substr p [] = (p = [])"
| "substr p (x # xs) = (startswith (x # xs) p \<or> substr p xs)"

subsection \<open>Decimal numbers\<close>

definition digit :: "nat \<Rightarrow> char" where
  "digit d = char_of (48 + d)"

fun str_nat :: "nat \<Rightarrow> string" where
  "str_nat n = (if n < 10 then [digit n] else str_nat (n div 10) @ [digit (n mod 10)])"

declare str_nat.simps [simp del]

definition str_int :: "int \<Rightarrow> string" where
  "str_int i = (if i < 0 then CHR ''-'' # str_nat (nat (- i)) else str_nat (nat i))"

definition digit_val :: "char \<Rightarrow> nat" where
  "digit_val c = of_char c - 48"

definition nat_of_digits :: "string \<Rightarrow> nat" where
  "nat_of_digits s = foldl (\<lambda>a c. 10 * a + digit_val c) 0 s"

text \<open>
  \<open>int(s)\<close> of a string: surrounding white space, an optional sign, and decimal digits with
  single underscores between them.
\<close>

definition py_int :: "string \<Rightarrow> exn + int" where
  "py_int s =
     (let t = strip s;
          (neg, body) = (case t of c # r \<Rightarrow> if c = CHR ''-'' then (True, r)
                                            else if c = CHR ''+'' then (False, r)
                                            else (False, t)
                         | [] \<Rightarrow> (False, []));
          parts = split_on (CHR ''_'') body
      in if list_all (\<lambda>p. p \<noteq> [] \<and> list_all is_digit p) parts
         then Inr (if neg then - int (nat_of_digits (concat parts))
                   else int (nat_of_digits (concat parts)))
         else Inl ValueError)"

lemma of_char_digit: "d < 10 \<Longrightarrow> (of_char (digit d) :: nat) = 48 + d"
  by (simp add: digit_def)

lemma digit_val_digit [simp]: "d < 10 \<Longrightarrow> digit_val (digit d) = d"
  by (simp add: digit_val_def of_char_digit)

lemma is_digit_digit [simp]: "d < 10 \<Longrightarrow> is_digit (digit d)"
  by (simp add: is_digit_def of_char_digit)

lemma str_nat_nonempty [simp]: "str_nat n \<noteq> []"
  by (subst str_nat.simps) simp

lemma str_nat_digits: "list_all is_digit (str_nat n)"
proof (induction n rule: str_nat.induct)
  case (1 n)
  then show ?case by (subst str_nat.simps) simp
qed

lemma nat_of_digits_snoc:
  "nat_of_digits (s @ [c]) = 10 * nat_of_digits s + digit_val c"
  by (simp add: nat_of_digits_def)

lemma nat_of_digits_str_nat [simp]: "nat_of_digits (str_nat n) = n"
proof (induction n rule: str_nat.induct)
  case (1 n)
  show ?case
  proof (cases "n < 10")
    case True
    then show ?thesis by (subst str_nat.simps) (simp add: nat_of_digits_def)
  next
    case False
    with 1 show ?thesis by (subst str_nat.simps) (simp add: nat_of_digits_snoc)
  qed
qed

lemma str_nat_inject [simp]: "str_nat m = str_nat n \<longleftrightarrow> m = n"
  by (metis nat_of_digits_str_nat)

lemma str_nat_no_char: "\<not> is_digit c \<Longrightarrow> c \<notin> set (str_nat n)"
  using str_nat_digits [of n] by (auto simp: list_all_iff)

text \<open>A number followed by a non-digit can be read back from the front of a string.\<close>

lemma str_nat_append_cancel:
  assumes "\<not> is_digit c" and "str_nat m @ c # xs = str_nat n @ c # ys"
  shows "m = n \<and> xs = ys"
proof -
  have tw: "takeWhile is_digit (str_nat k @ c # zs) = str_nat k" for k zs
    using str_nat_digits [of k] assms(1)
    by (simp add: list_all_iff takeWhile_append2)
  have "str_nat m = str_nat n"
    using arg_cong [OF assms(2), of "takeWhile is_digit"] by (simp only: tw)
  with assms(2) show ?thesis by simp
qed

subsection \<open>Laws of the string operations\<close>

lemma split_on_nonempty [simp]: "split_on c s \<noteq> []"
  by (induction s) (auto split: list.splits)

lemma split_on_none: "c \<notin> set s \<Longrightarrow> split_on c s = [s]"
  by (induction s) auto

lemma split_on_append:
  "c \<notin> set p \<Longrightarrow> split_on c (p @ c # s) = p # split_on c s"
  by (induction p) auto

lemma split_on_join:
  assumes "xs \<noteq> []" and "\<forall>x \<in> set xs. c \<notin> set x"
  shows "split_on c (join [c] xs) = xs"
  using assms
proof (induction "[c]" xs rule: join.induct)
  case (3 x y ys)
  then show ?case by (simp add: split_on_append)
qed (simp_all add: split_on_none)

lemma join_split_on: "join [c] (split_on c s) = s"
proof (induction s)
  case (Cons x s)
  obtain y ys where "split_on c s = y # ys"
    by (metis list.exhaust split_on_nonempty)
  with Cons show ?case by (cases ys) auto
qed simp

lemma set_split_on: "p \<in> set (split_on c s) \<Longrightarrow> c \<notin> set p"
  by (induction s arbitrary: p) (auto split: if_splits list.splits)

lemma digits_no_space: "is_digit c \<Longrightarrow> \<not> is_space c"
  by (auto simp: is_digit_def is_space_def)

lemma lstrip_id: "(s = [] \<or> \<not> is_space (hd s)) \<Longrightarrow> lstrip s = s"
  by (cases s) (auto simp: lstrip_def)

lemma strip_id:
  assumes "s \<noteq> []" and "\<not> is_space (hd s)" and "\<not> is_space (last s)"
  shows "strip s = s"
  using assms by (simp add: strip_def lstrip_id hd_rev)

lemma strip_digits: "list_all is_digit s \<Longrightarrow> strip s = s"
proof (cases "s = []")
  case True
  then show ?thesis by (simp add: strip_def lstrip_def)
next
  case False
  assume "list_all is_digit s"
  with False show ?thesis
    by (intro strip_id) (auto simp: list_all_iff digits_no_space)
qed

lemma py_int_digits:
  assumes "s \<noteq> []" and "list_all is_digit s"
  shows "py_int s = Inr (int (nat_of_digits s))"
proof -
  from assms have sp: "split_on (CHR ''_'') s = [s]"
    by (intro split_on_none) (auto simp: list_all_iff is_digit_def)
  obtain c r where c: "s = c # r" using assms(1) by (cases s) auto
  from assms(2) c have "c \<noteq> CHR ''-''" and "c \<noteq> CHR ''+''"
    by (auto simp: is_digit_def)
  with c have sign: "(case s of [] \<Rightarrow> (False, []) | x # r \<Rightarrow> if x = CHR ''-'' then (True, r)
      else if x = CHR ''+'' then (False, r) else (False, s)) = (False, s)" by simp
  show ?thesis
    unfolding py_int_def Let_def strip_digits [OF assms(2)] sign
    using assms by (simp add: sp)
qed

lemma py_int_Inl: "py_int s = Inl e \<Longrightarrow> e = ValueError"
  by (auto simp: py_int_def Let_def split: prod.splits if_splits)

lemma py_int_str_nat [simp]: "py_int (str_nat n) = Inr (int n)"
  by (simp add: py_int_digits str_nat_digits)

lemma startswith_append [simp]: "startswith (p @ s) p"
  by (simp add: startswith_def)

lemma replace_char_none: "c \<notin> set s \<Longrightarrow> replace_char c r s = s"
  by (induction s) (auto simp: replace_char_def)

end
