(* ===== verification/Ordered_Set.thy ===== *)
theory Ordered_Set
  imports Prelude
begin

text \<open>
  \<open>src/python/ordered_set.py\<close>: the insertion-ordered set that backs every collection of
  nodes, volumes, connections and peer devices. An \<open>OrderedSet\<close> object holds a list
  (\<open>items\<close>) and a dictionary from each item to the index it was added at (\<open>map\<close>). The
  dictionary and the list compare keys with the items' own \<open>__eq__\<close>, so every operation
  takes that equality as its argument \<open>eq\<close>; \<open>py_key\<close> is the contract Python puts on it.
\<close>

section \<open>The class\<close>

record 'a oset =
  items :: "'a list"
  imap :: "('a \<times> nat) list"

text \<open>A Python dictionary in insertion order, keyed by \<open>eq\<close>: lookup, store, \<open>pop(k, None)\<close>.\<close>

fun dict_get :: "('k \<Rightarrow> 'k \<Rightarrow> bool) \<Rightarrow> ('k \<times> 'v) list \<Rightarrow> 'k \<Rightarrow> 'v option" where
  "dict_get eq [] k = None"
| "dict_get eq ((j, v) # d) k = (if eq j k then Some v else dict_get eq d k)"

fun dict_put :: "('k \<Rightarrow> 'k \<Rightarrow> bool) \<Rightarrow> ('k \<times> 'v) list \<Rightarrow> 'k \<Rightarrow> 'v \<Rightarrow> ('k \<times> 'v) list" where
  "dict_put eq [] k v = [(k, v)]"
| "dict_put eq ((j, u) # d) k v =
     (if eq j k then (j, v) # d else (j, u) # dict_put eq d k v)"

fun dict_pop :: "('k \<Rightarrow> 'k \<Rightarrow> bool) \<Rightarrow> ('k \<times> 'v) list \<Rightarrow> 'k \<Rightarrow> ('k \<times> 'v) list" where
  "dict_pop eq [] k = []"
| "dict_pop eq ((j, v) # d) k = (if eq j k then d else (j, v) # dict_pop eq d k)"

text \<open>\<open>list.remove(k)\<close> with its \<open>ValueError\<close> swallowed: drops the first equal element.\<close>

fun list_remove :: "('k \<Rightarrow> 'k \<Rightarrow> bool) \<Rightarrow> 'k list \<Rightarrow> 'k \<Rightarrow> 'k list" where
  "list_remove eq [] k = []"
| "list_remove eq (x # xs) k = (if eq x k then xs else x # list_remove eq xs k)"

definition os_empty :: "'a oset" where
  "os_empty = \<lparr>items = [], imap = []\<rparr>"

definition os_len :: "'a oset \<Rightarrow> nat" where
  "os_len s = length (items s)"

definition os_contains :: "('a \<Rightarrow> 'a \<Rightarrow> bool) \<Rightarrow> 'a oset \<Rightarrow> 'a \<Rightarrow> bool" where
  "os_contains eq s k \<longleftrightarrow> dict_get eq (imap s) k \<noteq> None"

text \<open>\<open>add\<close> (and its alias \<open>append\<close>) returns the index stored in the dictionary.\<close>

definition os_add :: "('a \<Rightarrow> 'a \<Rightarrow> bool) \<Rightarrow> 'a oset \<Rightarrow> 'a \<Rightarrow> nat \<times> 'a oset" where
  "os_add eq s k =
     (case dict_get eq (imap s) k of
        None \<Rightarrow> (length (items s),
                 \<lparr>items = items s @ [k], imap = dict_put eq (imap s) k (length (items s))\<rparr>)
      | Some i \<Rightarrow> (i, s))"

primrec os_update :: "('a \<Rightarrow> 'a \<Rightarrow> bool) \<Rightarrow> 'a oset \<Rightarrow> 'a list \<Rightarrow> nat list \<times> 'a oset" where
  "os_update eq s [] = ([], s)"
| "os_update eq s (e # es) =
     (case os_add eq s e of (i, s1) \<Rightarrow> case os_update eq s1 es of (is, s2) \<Rightarrow> (i # is, s2))"

definition os_init :: "('a \<Rightarrow> 'a \<Rightarrow> bool) \<Rightarrow> 'a list \<Rightarrow> 'a oset" where
  "os_init eq xs = snd (os_update eq os_empty xs)"

definition os_discard :: "('a \<Rightarrow> 'a \<Rightarrow> bool) \<Rightarrow> 'a oset \<Rightarrow> 'a \<Rightarrow> 'a oset" where
  "os_discard eq s k =
     \<lparr>items = list_remove eq (items s) k, imap = dict_pop eq (imap s) k\<rparr>"

primrec os_difference_update :: "('a \<Rightarrow> 'a \<Rightarrow> bool) \<Rightarrow> 'a oset \<Rightarrow> 'a list \<Rightarrow> 'a oset" where
  "os_difference_update eq s [] = s"
| "os_difference_update eq s (e # es) = os_difference_update eq (os_discard eq s e) es"

definition os_copy :: "('a \<Rightarrow> 'a \<Rightarrow> bool) \<Rightarrow> 'a oset \<Rightarrow> 'a oset" where
  "os_copy eq s = os_init eq (items s)"

definition os_difference :: "('a \<Rightarrow> 'a \<Rightarrow> bool) \<Rightarrow> 'a oset \<Rightarrow> 'a list \<Rightarrow> 'a oset" where
  "os_difference eq s delta = os_difference_update eq (os_copy eq s) delta"

text \<open>\<open>index\<close> of a single key reads the dictionary; \<open>remove\<close> comes from \<open>MutableSet\<close>.\<close>

definition os_index :: "('a \<Rightarrow> 'a \<Rightarrow> bool) \<Rightarrow> 'a oset \<Rightarrow> 'a \<Rightarrow> exn + nat" where
  "os_index eq s k =
     (case dict_get eq (imap s) k of None \<Rightarrow> Inl KeyError | Some i \<Rightarrow> Inr i)"

definition os_remove :: "('a \<Rightarrow> 'a \<Rightarrow> bool) \<Rightarrow> 'a oset \<Rightarrow> 'a \<Rightarrow> exn + 'a oset" where
  "os_remove eq s k =
     (if os_contains eq s k then Inr (os_discard eq s k) else Inl KeyError)"

text \<open>\<open>index\<close> of an iterable of keys looks each of them up.\<close>

fun os_index_all :: "('a \<Rightarrow> 'a \<Rightarrow> bool) \<Rightarrow> 'a oset \<Rightarrow> 'a list \<Rightarrow> exn + nat list" where
  "os_index_all eq s [] = Inr []"
| "os_index_all eq s (k # ks) =
     (case os_index eq s k of
        Inl e \<Rightarrow> Inl e
      | Inr i \<Rightarrow> (case os_index_all eq s ks of Inl e \<Rightarrow> Inl e | Inr is \<Rightarrow> Inr (i # is)))"

text \<open>
  \<open>__getitem__\<close> by integer (negative counts from the end), by an iterable of integers, and by a
  slice \<open>[i:j]\<close> whose bounds may be missing, negative or out of range.
\<close>

definition list_item :: "'a list \<Rightarrow> int \<Rightarrow> exn + 'a" where
  "list_item xs i =
     (if i < - int (length xs) \<or> int (length xs) \<le> i then Inl IndexError
      else if i < 0 then Inr (xs ! (length xs - nat (- i))) else Inr (xs ! nat i))"

fun list_items :: "'a list \<Rightarrow> int list \<Rightarrow> exn + 'a list" where
  "list_items xs [] = Inr []"
| "list_items xs (i # is) =
     (case list_item xs i of
        Inl e \<Rightarrow> Inl e
      | Inr x \<Rightarrow> (case list_items xs is of Inl e \<Rightarrow> Inl e | Inr ys \<Rightarrow> Inr (x # ys)))"

definition slice_bound :: "nat \<Rightarrow> nat \<Rightarrow> int option \<Rightarrow> nat" where
  "slice_bound len dflt i =
     (case i of None \<Rightarrow> dflt
      | Some k \<Rightarrow> if k < 0 then nat (int len + k) else min (nat k) len)"

definition list_slice :: "'a list \<Rightarrow> int option \<Rightarrow> int option \<Rightarrow> 'a list" where
  "list_slice xs i j =
     (let a = slice_bound (length xs) 0 i; b = slice_bound (length xs) (length xs) j
      in take (b - a) (drop a xs))"

definition os_item :: "'a oset \<Rightarrow> int \<Rightarrow> exn + 'a" where
  "os_item s i = list_item (items s) i"

definition os_items :: "('a \<Rightarrow> 'a \<Rightarrow> bool) \<Rightarrow> 'a oset \<Rightarrow> int list \<Rightarrow> exn + 'a oset" where
  "os_items eq s is = map_sum id (os_init eq) (list_items (items s) is)"

text \<open>The slice \<open>[:]\<close> is the object itself.\<close>

definition os_slice :: "('a \<Rightarrow> 'a \<Rightarrow> bool) \<Rightarrow> 'a oset \<Rightarrow> int option \<Rightarrow> int option \<Rightarrow> 'a oset" where
  "os_slice eq s i j =
     (if i = None \<and> j = None then s else os_init eq (list_slice (items s) i j))"

definition os_iter :: "'a oset \<Rightarrow> 'a list" where
  "os_iter s = items s"

definition os_reversed :: "'a oset \<Rightarrow> 'a list" where
  "os_reversed s = rev (items s)"

text \<open>
  Pickling: the state is \<open>(None,)\<close> for an empty set and the list of items otherwise;
  \<open>__setstate__\<close> runs \<open>__init__\<close> on it.
\<close>

datatype 'a pickled = NoneTuple | ItemList "'a list"

definition os_getstate :: "'a oset \<Rightarrow> 'a pickled" where
  "os_getstate s = (if os_len s = 0 then NoneTuple else ItemList (items s))"

definition os_setstate :: "('a \<Rightarrow> 'a \<Rightarrow> bool) \<Rightarrow> 'a pickled \<Rightarrow> 'a oset" where
  "os_setstate eq st = (case st of NoneTuple \<Rightarrow> os_init eq [] | ItemList xs \<Rightarrow> os_init eq xs)"

text \<open>\<open>__eq__\<close> between two ordered sets, and against any other iterable.\<close>

definition os_eq :: "('a \<Rightarrow> 'a \<Rightarrow> bool) \<Rightarrow> 'a oset \<Rightarrow> 'a oset \<Rightarrow> bool" where
  "os_eq eq s t \<longleftrightarrow> os_len s = os_len t \<and> list_all2 eq (items s) (items t)"

definition os_eq_iterable :: "('a \<Rightarrow> 'a \<Rightarrow> bool) \<Rightarrow> 'a oset \<Rightarrow> 'a list \<Rightarrow> bool" where
  "os_eq_iterable eq s xs \<longleftrightarrow>
     list_all (\<lambda>x. list_ex (eq x) xs) (items s) \<and> list_all (\<lambda>x. list_ex (eq x) (items s)) xs"

section \<open>Invariant and laws\<close>

text \<open>
  The class invariant: no two items are equal and the dictionary has exactly the items as
  its keys. \<open>os_exact\<close> says in addition that the dictionary holds each item's position;
  \<open>add\<close> keeps it, \<open>discard\<close> does not.
\<close>

definition os_inv :: "('a \<Rightarrow> 'a \<Rightarrow> bool) \<Rightarrow> 'a oset \<Rightarrow> bool" where
  "os_inv eq s \<longleftrightarrow> map fst (imap s) = items s \<and> sorted_wrt (\<lambda>x y. \<not> eq x y) (items s)"

definition os_exact :: "'a oset \<Rightarrow> bool" where
  "os_exact s \<longleftrightarrow> imap s = zip (items s) [0..<length (items s)]"

lemma dict_get_None: "dict_get eq d k = None \<longleftrightarrow> (\<forall>j \<in> set (map fst d). \<not> eq j k)"
  by (induction eq d k rule: dict_get.induct) (auto split: if_splits)

lemma dict_put_new: "dict_get eq d k = None \<Longrightarrow> dict_put eq d k v = d @ [(k, v)]"
  by (induction d) (auto split: if_splits)

lemma dict_get_put_same: "eq k k \<Longrightarrow> dict_get eq (dict_put eq d k v) k = Some v"
  by (induction d) auto

lemma fst_dict_pop: "map fst (dict_pop eq d k) = list_remove eq (map fst d) k"
  by (induction d) auto

lemma set_list_remove: "set (list_remove eq xs k) \<subseteq> set xs"
  by (induction xs) auto

lemma sorted_wrt_list_remove: "sorted_wrt P xs \<Longrightarrow> sorted_wrt P (list_remove eq xs k)"
  using set_list_remove by (induction xs) (fastforce split: if_splits)+

lemma os_empty_simps [simp]: "items os_empty = []" "imap os_empty = []"
  by (simp_all add: os_empty_def)

lemma os_inv_empty [simp]: "os_inv eq os_empty"
  by (simp add: os_inv_def)

lemma os_exact_empty [simp]: "os_exact os_empty"
  by (simp add: os_exact_def)

lemma os_contains_iff: "os_inv eq s \<Longrightarrow> os_contains eq s k \<longleftrightarrow> (\<exists>x \<in> set (items s). eq x k)"
  by (auto simp: os_contains_def os_inv_def dict_get_None simp del: set_map)

lemma items_os_add:
  "os_inv eq s \<Longrightarrow> items (snd (os_add eq s k)) =
     (if \<exists>x \<in> set (items s). eq x k then items s else items s @ [k])"
  using os_contains_iff [of eq s k]
  by (auto simp: os_add_def os_contains_def split: option.splits)

lemma os_inv_discard [simp]: "os_inv eq s \<Longrightarrow> os_inv eq (os_discard eq s k)"
  by (simp add: os_inv_def os_discard_def fst_dict_pop sorted_wrt_list_remove)

lemma os_inv_difference_update [simp]:
  "os_inv eq s \<Longrightarrow> os_inv eq (os_difference_update eq s es)"
  by (induction es arbitrary: s) simp_all

text \<open>Python's contract on \<open>__eq__\<close> of dictionary keys.\<close>

locale py_key =
  fixes eq :: "'a \<Rightarrow> 'a \<Rightarrow> bool"
  assumes eq_refl: "eq x x"
    and eq_sym: "eq x y \<Longrightarrow> eq y x"
    and eq_trans: "eq x y \<Longrightarrow> eq y z \<Longrightarrow> eq x z"
begin

lemma os_inv_add: "os_inv eq s \<Longrightarrow> os_inv eq (snd (os_add eq s k))"
  using eq_sym
  by (auto simp: os_inv_def os_add_def dict_put_new dict_get_None sorted_wrt_append
      simp del: set_map split: option.splits)

lemma os_inv_update: "os_inv eq s \<Longrightarrow> os_inv eq (snd (os_update eq s es))"
proof (induction es arbitrary: s)
  case (Cons e es)
  then have "os_inv eq (snd (os_update eq (snd (os_add eq s e)) es))"
    using os_inv_add by blast
  then show ?case by (simp add: split_beta)
qed simp

lemma os_inv_init: "os_inv eq (os_init eq xs)"
  by (simp add: os_init_def os_inv_update)

lemma os_exact_add:
  "os_exact s \<Longrightarrow> os_exact (snd (os_add eq s k))"
  by (auto simp: os_exact_def os_add_def dict_put_new split: option.splits)

lemma os_exact_update: "os_exact s \<Longrightarrow> os_exact (snd (os_update eq s es))"
proof (induction es arbitrary: s)
  case (Cons e es)
  then have "os_exact (snd (os_update eq (snd (os_add eq s e)) es))"
    using os_exact_add by blast
  then show ?case by (simp add: split_beta)
qed simp

lemma os_exact_init: "os_exact (os_init eq xs)"
  by (simp add: os_init_def os_exact_update)

lemma contains_cong: "os_inv eq s \<Longrightarrow> eq k l \<Longrightarrow> os_contains eq s k = os_contains eq s l"
  by (simp add: os_contains_iff) (metis eq_sym eq_trans)

lemma contains_add:
  "os_inv eq s \<Longrightarrow> os_contains eq (snd (os_add eq s k)) l \<longleftrightarrow> os_contains eq s l \<or> eq k l"
  by (simp add: os_contains_iff os_inv_add items_os_add Bex_def) (metis eq_trans)

lemma contains_update:
  "os_inv eq s \<Longrightarrow>
   os_contains eq (snd (os_update eq s es)) l \<longleftrightarrow> os_contains eq s l \<or> (\<exists>e \<in> set es. eq e l)"
proof (induction es arbitrary: s)
  case (Cons e es)
  have "os_inv eq (snd (os_add eq s e))" using Cons.prems by (rule os_inv_add)
  from Cons.IH [OF this] Cons.prems show ?case by (auto simp: split_beta contains_add)
qed simp

lemma mem_list_remove:
  assumes "sorted_wrt (\<lambda>x y. \<not> eq x y) xs"
  shows "(\<exists>x \<in> set (list_remove eq xs k). eq x l) \<longleftrightarrow> (\<exists>x \<in> set xs. eq x l) \<and> \<not> eq k l"
  using assms
proof (induction xs)
  case (Cons x xs)
  show ?case
  proof (cases "eq x k")
    case True
    with Cons.prems have "eq k l \<Longrightarrow> \<forall>y \<in> set xs. \<not> eq y l"
      using eq_sym eq_trans by (metis sorted_wrt.simps(2))
    with True show ?thesis by simp (metis eq_sym eq_trans)
  next
    case False
    with Cons show ?thesis by simp (metis eq_sym eq_trans)
  qed
qed simp

lemma contains_discard:
  "os_inv eq s \<Longrightarrow> os_contains eq (os_discard eq s k) l \<longleftrightarrow> os_contains eq s l \<and> \<not> eq k l"
proof -
  assume inv: "os_inv eq s"
  have "os_contains eq (os_discard eq s k) l \<longleftrightarrow> (\<exists>x \<in> set (list_remove eq (items s) k). eq x l)"
    using os_contains_iff [OF os_inv_discard [OF inv]] by (simp add: os_discard_def)
  also have "\<dots> \<longleftrightarrow> os_contains eq s l \<and> \<not> eq k l"
    using inv mem_list_remove [of "items s" k l] by (simp add: os_contains_iff os_inv_def)
  finally show ?thesis .
qed

lemma contains_difference_update:
  "os_inv eq s \<Longrightarrow>
   os_contains eq (os_difference_update eq s es) l \<longleftrightarrow>
     os_contains eq s l \<and> \<not> (\<exists>e \<in> set es. eq e l)"
  by (induction es arbitrary: s) (auto simp: contains_discard)

lemma init_items_id:
  assumes "sorted_wrt (\<lambda>x y. \<not> eq x y) (xs @ ys)" and "os_inv eq s" and "items s = xs"
  shows "items (snd (os_update eq s ys)) = xs @ ys"
  using assms
proof (induction ys arbitrary: xs s)
  case (Cons y ys)
  have "\<not> (\<exists>x \<in> set (items s). eq x y)"
    using Cons.prems by (auto simp: sorted_wrt_append)
  then have "items (snd (os_add eq s y)) = xs @ [y]"
    using Cons.prems items_os_add [of eq s y] by simp
  then show ?case
    using Cons.IH [of "xs @ [y]" "snd (os_add eq s y)"] Cons.prems os_inv_add [of s y]
    by (simp add: split_beta)
qed simp

lemma items_init: "sorted_wrt (\<lambda>x y. \<not> eq x y) xs \<Longrightarrow> items (os_init eq xs) = xs"
  using init_items_id [of "[]" xs os_empty] by (simp add: os_init_def)

lemma items_copy: "os_inv eq s \<Longrightarrow> items (os_copy eq s) = items s"
  by (simp add: os_copy_def items_init os_inv_def)

lemma os_inv_copy: "os_inv eq (os_copy eq s)"
  by (simp add: os_copy_def os_inv_init)

lemma contains_difference:
  "os_inv eq s \<Longrightarrow>
   os_contains eq (os_difference eq s es) l \<longleftrightarrow>
     os_contains eq s l \<and> \<not> (\<exists>e \<in> set es. eq e l)"
  by (simp add: os_difference_def contains_difference_update os_inv_copy
      os_contains_iff [of eq s] os_contains_iff [of eq "os_copy eq s"] items_copy)

lemma index_exact:
  assumes "os_inv eq s" and "os_exact s" and "i < length (items s)"
  shows "os_index eq s (items s ! i) = Inr i"
proof -
  have "dict_get eq (zip xs [n..<n + length xs]) (xs ! i) = Some (n + i)"
    if "sorted_wrt (\<lambda>x y. \<not> eq x y) xs" "i < length xs" for xs n i
    using that
  proof (induction xs arbitrary: n i)
    case (Cons x xs)
    show ?case
    proof (cases i)
      case 0
      then show ?thesis by (simp add: upt_rec [of n] eq_refl)
    next
      case (Suc j)
      with Cons.prems have "\<not> eq x (xs ! j)" by simp
      moreover have "dict_get eq (zip xs [Suc n..<Suc n + length xs]) (xs ! j) = Some (Suc n + j)"
        using Suc Cons.prems by (intro Cons.IH) auto
      ultimately show ?thesis using Suc by (simp add: upt_rec [of n] del: upt_Suc)
    qed
  qed simp
  from this [of "items s" i 0] assms show ?thesis
    by (simp add: os_index_def os_exact_def os_inv_def)
qed

end

lemma distinct_sorted_wrt: "sorted_wrt (\<lambda>x y. x \<noteq> y) xs \<longleftrightarrow> distinct xs"
  by (induction xs) auto

text \<open>Node, volume and resource references and strings are compared with plain equality.\<close>

interpretation eqk: py_key "(=)"
  by unfold_locales auto

lemma items_list_remove_eq: "distinct xs \<Longrightarrow> list_remove (=) xs k = filter (\<lambda>x. x \<noteq> k) xs"
  by (induction xs) (auto intro!: filter_True [symmetric])

lemma os_inv_eq_distinct: "os_inv (=) s \<Longrightarrow> distinct (items s)"
  by (simp add: os_inv_def distinct_sorted_wrt)

lemma contains_eq_iff [simp]: "os_inv (=) s \<Longrightarrow> os_contains (=) s k \<longleftrightarrow> k \<in> set (items s)"
  by (auto simp: os_contains_iff)

lemma items_discard_eq:
  "os_inv (=) s \<Longrightarrow> items (os_discard (=) s k) = filter (\<lambda>x. x \<noteq> k) (items s)"
  by (simp add: os_discard_def items_list_remove_eq os_inv_eq_distinct)

lemma items_difference_update_eq:
  "os_inv (=) s \<Longrightarrow>
   items (os_difference_update (=) s es) = filter (\<lambda>x. x \<notin> set es) (items s)"
  by (induction es arbitrary: s) (simp_all add: items_discard_eq conj_commute)

lemma items_update_eq:
  "os_inv (=) s \<Longrightarrow> distinct es \<Longrightarrow>
   items (snd (os_update (=) s es)) = items s @ filter (\<lambda>x. x \<notin> set (items s)) es"
proof (induction es arbitrary: s)
  case (Cons e es)
  have inv: "os_inv (=) (snd (os_add (=) s e))" using Cons.prems(1) by (rule eqk.os_inv_add)
  have it: "items (snd (os_add (=) s e)) = (if e \<in> set (items s) then items s else items s @ [e])"
    using items_os_add [OF Cons.prems(1), of e] by auto
  have "filter (\<lambda>x. x \<notin> set (items s) \<and> x \<noteq> e) es = filter (\<lambda>x. x \<notin> set (items s)) es"
    using Cons.prems(2) by (intro filter_cong) auto
  with Cons.IH [OF inv] Cons.prems it show ?case by (auto simp: split_beta conj_commute)
qed simp

lemma items_init_eq: "distinct xs \<Longrightarrow> items (os_init (=) xs) = xs"
  by (simp add: eqk.items_init distinct_sorted_wrt)

section \<open>Dictionaries\<close>

lemma dict_get_put:
  "dict_get (=) (dict_put (=) d k v) j = (if j = k then Some v else dict_get (=) d j)"
  by (induction d) auto

lemma fst_dict_put: "distinct (map fst d) \<Longrightarrow> distinct (map fst (dict_put (=) d k v))"
proof -
  have keys: "fst ` set (dict_put (=) d k v) = insert k (fst ` set d)" for d
  proof (induction d)
    case (Cons x d)
    then show ?case by (cases x) (simp add: insert_commute)
  qed simp
  show "distinct (map fst d) \<Longrightarrow> ?thesis"
  proof (induction d)
    case (Cons x d)
    then show ?case by (cases x) (auto simp: keys)
  qed simp
qed

lemma dict_get_eq_None: "dict_get (=) d k = None \<longleftrightarrow> k \<notin> fst ` set d"
  by (induction d) (auto split: if_splits)

lemma dict_get_mem:
  "distinct (map fst d) \<Longrightarrow> (k, v) \<in> set d \<longleftrightarrow> dict_get (=) d k = Some v"
  by (induction d) (auto simp: rev_image_eqI split: if_splits)

section \<open>The class as a set with an order\<close>

text \<open>
  The specification: a list without duplicates. Adding appends a new element, discarding drops
  it. \<open>os_exec\<close> runs a sequence of calls on an object, \<open>ref_exec\<close> on the specification.
\<close>

datatype 'a os_op = OsAdd 'a | OsDiscard 'a | OsUpdate "'a list" | OsDifferenceUpdate "'a list"

fun os_step :: "'a oset \<Rightarrow> 'a os_op \<Rightarrow> 'a oset" where
  "os_step s (OsAdd k) = snd (os_add (=) s k)"
| "os_step s (OsDiscard k) = os_discard (=) s k"
| "os_step s (OsUpdate ks) = snd (os_update (=) s ks)"
| "os_step s (OsDifferenceUpdate ks) = os_difference_update (=) s ks"

definition ref_add :: "'a list \<Rightarrow> 'a \<Rightarrow> 'a list" where
  "ref_add xs k = (if k \<in> set xs then xs else xs @ [k])"

fun ref_step :: "'a list \<Rightarrow> 'a os_op \<Rightarrow> 'a list" where
  "ref_step xs (OsAdd k) = ref_add xs k"
| "ref_step xs (OsDiscard k) = filter (\<lambda>x. x \<noteq> k) xs"
| "ref_step xs (OsUpdate ks) = foldl ref_add xs ks"
| "ref_step xs (OsDifferenceUpdate ks) = filter (\<lambda>x. x \<notin> set ks) xs"

lemma items_add_ref: "os_inv (=) s \<Longrightarrow> items (snd (os_add (=) s k)) = ref_add (items s) k"
  by (auto simp: items_os_add ref_add_def)

lemma items_update_ref: "os_inv (=) s \<Longrightarrow> items (snd (os_update (=) s ks)) = foldl ref_add (items s) ks"
  by (induction ks arbitrary: s) (simp_all add: split_beta items_add_ref eqk.os_inv_add)

lemma os_step_inv: "os_inv (=) s \<Longrightarrow> os_inv (=) (os_step s x)"
  by (cases x) (simp_all add: eqk.os_inv_add eqk.os_inv_update)

lemma os_step_ref: "os_inv (=) s \<Longrightarrow> items (os_step s x) = ref_step (items s) x"
  by (cases x) (simp_all add: items_add_ref items_update_ref items_discard_eq items_difference_update_eq)

lemma os_exec_ref:
  "os_inv (=) s \<Longrightarrow> os_inv (=) (foldl os_step s ops) \<and> items (foldl os_step s ops) = foldl ref_step (items s) ops"
  by (induction ops arbitrary: s) (simp_all add: os_step_inv os_step_ref)

text \<open>
  C7: An \<open>OrderedSet\<close> is a set that remembers the order of insertion: after any sequence of
  \<open>add\<close>, \<open>discard\<close>, \<open>update\<close> and \<open>difference_update\<close> calls on a new object, iterating over it
  gives exactly the list of the reference implementation, with no element twice, its length is
  the length of that list, and membership is membership in it.
\<close>
theorem ordered_set_refines:
  "let s = foldl os_step os_empty ops; xs = foldl ref_step [] ops in
     os_iter s = xs \<and> distinct xs \<and> os_len s = length xs \<and> (\<forall>k. os_contains (=) s k = (k \<in> set xs))"
proof -
  have "os_inv (=) (foldl os_step os_empty ops)" "items (foldl os_step os_empty ops) = foldl ref_step [] ops"
    using os_exec_ref [of os_empty ops] by simp_all
  then show ?thesis
    using os_inv_eq_distinct [of "foldl os_step os_empty ops"] by (simp add: os_iter_def os_len_def Let_def)
qed

text \<open>
  Pickling and unpickling an \<open>OrderedSet\<close>, also an empty one, gives an equal set with the
  same order, and one in which \<open>index\<close> is the position of every element.
\<close>
theorem ordered_set_pickle:
  assumes "os_inv (=) s"
  shows "os_eq (=) (os_setstate (=) (os_getstate s)) s \<and>
    (\<forall>i. i < os_len s \<longrightarrow> os_index (=) (os_setstate (=) (os_getstate s)) (os_iter s ! i) = Inr i)"
proof -
  have init: "os_setstate (=) (os_getstate s) = os_init (=) (items s)"
    by (simp add: os_setstate_def os_getstate_def os_len_def)
  have it: "items (os_init (=) (items s)) = items s"
    using assms by (simp add: items_init_eq os_inv_eq_distinct)
  show ?thesis
    using eqk.index_exact [OF eqk.os_inv_init eqk.os_exact_init, of _ "items s"]
    by (simp add: init it os_eq_def os_len_def os_iter_def list.rel_eq)
qed

theorem ordered_set_pickle_witness:
  "os_inv (=) (os_init (=) [''a'', ''b'']) \<and>
   os_eq (=) (os_setstate (=) (os_getstate (os_init (=) [''a'', ''b'']))) (os_init (=) [''a'', ''b''])"
  using ordered_set_pickle [OF eqk.os_inv_init] eqk.os_inv_init by blast

lemma dict_get_pop:
  "distinct (map fst d) \<Longrightarrow> dict_get (=) (dict_pop (=) d k) j = (if j = k then None else dict_get (=) d j)"
  by (induction d) (auto simp: dict_get_eq_None rev_image_eqI split: if_splits)

text \<open>
  C37: \<open>discard\<close> leaves the indices of the later elements as they were: after the element at
  position \<open>i\<close> is discarded, \<open>index\<close> still answers \<open>j\<close> for the element that was at a later
  position \<open>j\<close>, although that element now stands at position \<open>j - 1\<close>.
\<close>
theorem ordered_set_stale_index:
  assumes "distinct xs" and "i < j" and "j < length xs"
  shows "let s = os_discard (=) (os_init (=) xs) (xs ! i) in
    os_index (=) s (xs ! j) = Inr j \<and> os_item s (int j - 1) = Inr (xs ! j)"
proof -
  have it: "items (os_init (=) xs) = xs" using assms(1) by (rule items_init_eq)
  have inv: "os_inv (=) (os_init (=) xs)" by (rule eqk.os_inv_init)
  have dm: "distinct (map fst (imap (os_init (=) xs)))" using inv it assms(1) by (simp add: os_inv_def)
  have "os_index (=) (os_init (=) xs) (xs ! j) = Inr j"
    using eqk.index_exact [OF inv eqk.os_exact_init, of j] it assms by simp
  moreover have "xs ! i \<noteq> xs ! j" using assms by (simp add: nth_eq_iff_index_eq)
  ultimately have idx: "os_index (=) (os_discard (=) (os_init (=) xs) (xs ! i)) (xs ! j) = Inr j"
    by (simp add: os_index_def os_discard_def dict_get_pop [OF dm])
  have rm: "list_remove (=) xs (xs ! i) = take i xs @ drop (Suc i) xs"
    using assms
  proof (induction xs arbitrary: i j)
    case (Cons x xs)
    then show ?case
    proof (cases i)
      case (Suc i')
      with Cons have "list_remove (=) xs (xs ! i') = take i' xs @ drop (Suc i') xs"
        by (intro Cons.IH [of i' "j - 1"]) auto
      with Suc Cons.prems show ?thesis by auto
    qed simp
  qed simp
  have "list_item (list_remove (=) xs (xs ! i)) (int j - 1) = Inr (xs ! j)"
    using assms by (cases j) (simp_all add: rm list_item_def nth_append)
  then show ?thesis using idx by (simp add: Let_def os_item_def os_discard_def it)
qed

theorem ordered_set_stale_index_witness:
  "os_index (=) (os_discard (=) (os_init (=) [''a'', ''b'']) ''a'') ''b'' = Inr 1"
  using ordered_set_stale_index [of "[''a'', ''b'']" 0 1] by (simp add: Let_def)

end
