(* ===== verification/Shell.thy ===== *)
theory Shell
  imports Prelude
begin

text \<open>
  How a command, a list of argument strings, becomes the one string that is sent to a
  target host (\<open>Host.run\<close> in \<open>src/python/drbdtest.py\<close>), and the reference against which it
  is checked: the word splitting of a POSIX shell, with single and double quotes.
\<close>

section \<open>Quoting\<close>

text \<open>\<open>shlex.quote\<close>: characters outside \<open>[a-zA-Z0-9_@%+=:,./-]\<close> make the word quoted.\<close>

definition safe_char :: "char \<Rightarrow> bool" where
  "safe_char c \<longleftrightarrow>
     (let n = (of_char c :: nat)
      in 48 \<le> n \<and> n \<le> 57 \<or> 65 \<le> n \<and> n \<le> 90 \<or> 97 \<le> n \<and> n \<le> 122
         \<or> c \<in> set ''_@%+=:,./-'')"

definition shlex_quote :: "string \<Rightarrow> string" where
  "shlex_quote s =
     (if s = [] then [QUOTE, QUOTE]
      else if list_all safe_char s then s
      else QUOTE # replace_char QUOTE [QUOTE, DQUOTE, QUOTE, DQUOTE, QUOTE] s @ [QUOTE])"

definition quoted_command :: "string list \<Rightarrow> string" where
  "quoted_command cmd = join '' '' (map shlex_quote cmd)"

section \<open>Shell words\<close>

text \<open>
  The reference: \<open>sh_lex\<close> reads a command line in three modes and collects words.
  \<open>cur\<close> is the word being read, if any. \<open>None\<close> is the result for an unterminated quote or
  for a character that a shell treats specially outside single quotes.
\<close>

datatype quoting = Plain | Single | Double

fun sh_lex :: "quoting \<Rightarrow> string option \<Rightarrow> string \<Rightarrow> string list option" where
  "sh_lex Plain cur [] = Some (case cur of None \<Rightarrow> [] | Some w \<Rightarrow> [w])"
| "sh_lex Single cur [] = None"
| "sh_lex Double cur [] = None"
| "sh_lex Plain cur (c # cs) =
     (if c = CHR '' ''
      then (case cur of None \<Rightarrow> sh_lex Plain None cs
            | Some w \<Rightarrow> map_option (Cons w) (sh_lex Plain None cs))
      else if c = QUOTE then sh_lex Single (Some (case cur of None \<Rightarrow> [] | Some w \<Rightarrow> w)) cs
      else if c = DQUOTE then sh_lex Double (Some (case cur of None \<Rightarrow> [] | Some w \<Rightarrow> w)) cs
      else if safe_char c then sh_lex Plain (Some (case cur of None \<Rightarrow> [c] | Some w \<Rightarrow> w @ [c])) cs
      else None)"
| "sh_lex Single cur (c # cs) =
     (if c = QUOTE then sh_lex Plain cur cs
      else sh_lex Single (Some (case cur of None \<Rightarrow> [c] | Some w \<Rightarrow> w @ [c])) cs)"
| "sh_lex Double cur (c # cs) =
     (if c = DQUOTE then sh_lex Plain cur cs
      else if c \<in> set ''$`!'' \<or> c = CHR 0x5C then None
      else sh_lex Double (Some (case cur of None \<Rightarrow> [c] | Some w \<Rightarrow> w @ [c])) cs)"

definition sh_words :: "string \<Rightarrow> string list option" where
  "sh_words s = sh_lex Plain None s"

lemma safe_char_not_special:
  "safe_char c \<Longrightarrow> c \<noteq> CHR '' '' \<and> c \<noteq> QUOTE \<and> c \<noteq> DQUOTE"
  by (auto simp: safe_char_def Let_def)

lemma sh_lex_safe:
  "list_all safe_char s \<Longrightarrow> sh_lex Plain (Some w) (s @ r) = sh_lex Plain (Some (w @ s)) r"
proof (induction s arbitrary: w)
  case (Cons c s)
  then show ?case using safe_char_not_special [of c] by simp
qed simp

lemma sh_lex_safe_start:
  assumes "s \<noteq> []" and "list_all safe_char s"
  shows "sh_lex Plain None (s @ r) = sh_lex Plain (Some s) r"
proof -
  obtain c t where s: "s = c # t" using assms(1) by (cases s) auto
  with assms(2) show ?thesis
    using safe_char_not_special [of c] sh_lex_safe [of t "[c]" r] by simp
qed

text \<open>Inside the quotes the text comes back with each embedded quote restored.\<close>

lemma sh_lex_single:
  "sh_lex Single (Some w)
     (replace_char QUOTE [QUOTE, DQUOTE, QUOTE, DQUOTE, QUOTE] s @ QUOTE # r) =
   sh_lex Plain (Some (w @ s)) r"
proof (induction s arbitrary: w)
  case Nil
  then show ?case by (simp add: replace_char_def)
next
  case (Cons c s)
  then show ?case by (cases "c = QUOTE") (simp_all add: replace_char_def)
qed

lemma sh_lex_quote: "sh_lex Plain None (shlex_quote s @ r) = sh_lex Plain (Some s) r"
proof -
  consider "s = []" | "s \<noteq> []" "list_all safe_char s" | "s \<noteq> []" "\<not> list_all safe_char s"
    by blast
  then show ?thesis
  proof cases
    case 1
    then show ?thesis by (simp add: shlex_quote_def)
  next
    case 2
    then show ?thesis by (simp add: shlex_quote_def sh_lex_safe_start)
  next
    case 3
    then show ?thesis using sh_lex_single [of "[]" s r] by (simp add: shlex_quote_def)
  qed
qed

lemma sh_words_quoted: "sh_words (quoted_command cmd) = Some cmd"
proof -
  have "sh_lex Plain None (join '' '' (map shlex_quote cmd)) = Some cmd"
  proof (induction cmd rule: induct_list012)
    case (2 x)
    then show ?case using sh_lex_quote [of x "[]"] by simp
  next
    case (3 x y zs)
    then show ?case using sh_lex_quote [of x "CHR '' '' # join '' '' (map shlex_quote (y # zs))"]
      by simp
  qed simp
  then show ?thesis by (simp add: sh_words_def quoted_command_def)
qed

end
