(* ===== verification/World.thy ===== *)
theory World
  imports Ordered_Set Shell
begin

text \<open>
  The objects of \<open>src/python/drbdtest.py\<close> and the outside world they act on.

  An object with identity (a host, node, volume or resource) is a record in a store,
  addressed by a reference; a \<open>Connection\<close> carries its identity as a number because
  \<open>PeerDevice\<close> compares connections by identity. The cluster, of which a test has one, is
  part of the state, and so are the module-level variables that \<open>setup\<close> assigns.

  Everything outside the program is an \<^emph>\<open>environment\<close> parameter: what the SSH library
  answers to a command, what the log scanner answers to a wait, name-based UUIDs, the order
  in which Python lists a set of strings, the helper files read from disk, how Python shows
  a platform helper object, the kernel log captured from a host, and the host attribute of an SSH
  connection. The answers of a command, of a wait and of the kernel log may depend on everything
  that happened before, so these functions get the trace of effects so far.
\<close>

section \<open>References and values\<close>

type_synonym href = nat  \<comment> \<open>\<open>Host\<close>\<close>
type_synonym nref = nat  \<comment> \<open>\<open>Node\<close>\<close>
type_synonym vref = nat  \<comment> \<open>\<open>Volume\<close>\<close>
type_synonym rref = nat  \<comment> \<open>\<open>Resource\<close>\<close>
type_synonym version = "nat \<times> nat \<times> nat"

fun version_less :: "version \<Rightarrow> version \<Rightarrow> bool" where
  "version_less (a, b, c) (x, y, z) \<longleftrightarrow> a < x \<or> a = x \<and> (b < y \<or> b = y \<and> c < z)"

text \<open>A duration as the tests write it: an integer or a decimal number of seconds.\<close>

datatype seconds = Secs nat | Millis nat

fun millis :: "seconds \<Rightarrow> nat" where
  "millis (Secs n) = 1000 * n"
| "millis (Millis m) = m"

fun str_seconds :: "seconds \<Rightarrow> string" where
  "str_seconds (Secs n) = str_nat n"
| "str_seconds (Millis m) =
     str_nat (m div 1000) @ ''.'' @
     (let f = m mod 1000
      in if f mod 100 = 0 then [digit (f div 100)]
         else if f mod 10 = 0 then [digit (f div 100), digit (f div 10 mod 10)]
         else [digit (f div 100), digit (f div 10 mod 10), digit (f mod 10)])"

section \<open>Storage objects\<close>

text \<open>The pool and volume classes of \<open>src/python/disktools.py\<close>, with their fields.\<close>

datatype pool =
    LvmPool (pool_backing: string) (pool_thin: bool) (pool_granularity: "nat option")
  | RawPool (pool_backing: string)
  | ZfsPool (pool_backing: string) (pool_thin: bool) (pool_granularity: "nat option")
  | StorageSpacesPool (pool_backing: string) (pool_thin: bool)

datatype disk_volume =
    LvmVolume (lvm_name: string) (lvm_lv: string) (lvm_lvsize: string)
  | StorageSpacesVolume (ss_name: string) (ss_lv: string)
  | RawVolume (raw_backing: string) (raw_guid: string) (raw_start: string) (raw_part: string)
  | ZfsVolume (zfs_dataset: string)
  | DelayVolume (dm_name: string) (dm_backing: disk_volume) (dm_sectors: string)
      (delay_ms: nat)
  | EmulatedBlockSizeVolume (dm_name: string) (dm_backing: disk_volume) (dm_sectors: string)
      (logical_block_size: nat)

section \<open>Objects\<close>

datatype platform = LinuxPlatform | WindowsPlatform

record netdev =
  nd_address :: string
  nd_prefix :: string

record host =
  host_name :: string
  host_port :: nat
  netns :: "string option"
  fio_count :: nat
  minors :: nat
  storage_pool :: "pool option"
  volume_group :: string
  has_other_version :: bool
  platform_helper :: platform
  drbd_version :: string
  drbd_git_hash :: string
  drbd_version_tuple :: version
  hostname :: string
  netdevs :: "(string \<times> netdev) list"
  storage_backend :: string
  backing_device :: "string option"
  drbd_config_dir :: string
  os_id :: string
  os_version_id :: string
  addr :: string
  addrs :: "string list"
  uuid_options :: "bool option"
  dmesg_process :: bool
  dmesg_pid :: string

record conn =
  conn_ident :: nat
  conn_from :: nref
  conn_to :: nref

record node =
  fencing_mode :: string
  node_host :: href
  node_resource :: rref
  node_name :: string
  node_port :: nat
  disks :: "vref list"
  node_id :: nat
  config_changed :: bool
  node_conns :: "conn oset"

record volume =
  vol_number :: nat
  vol_minor :: nat
  vol_node :: nref
  vol_disk :: "disk_volume option"
  vol_meta :: "disk_volume option"
  disk_lv :: "string option"
  meta_lv :: "string option"
  disk_is_online :: bool
  tiebreaker :: "bool option"

record peer_device =
  pd_conn :: conn
  pd_volume :: vref

record resource =
  res_name :: string
  net_options :: string
  disk_options :: string
  resource_options :: string
  handlers :: string
  res_nodes :: "nref oset"
  num_volumes :: nat
  res_transport :: "string option"
  res_tls :: string
  forbidden_patterns :: "string oset"

text \<open>\<open>Connection.__eq__\<close> and \<open>PeerDevice.__eq__\<close>; the other classes compare by identity.\<close>

definition conn_eq :: "conn \<Rightarrow> conn \<Rightarrow> bool" where
  "conn_eq c d \<longleftrightarrow> conn_from c = conn_from d \<and> conn_to c = conn_to d"

definition pd_eq :: "peer_device \<Rightarrow> peer_device \<Rightarrow> bool" where
  "pd_eq p q \<longleftrightarrow> conn_ident (pd_conn p) = conn_ident (pd_conn q) \<and> pd_volume p = pd_volume q"

interpretation connk: py_key conn_eq
  by unfold_locales (auto simp: conn_eq_def)

interpretation pdk: py_key pd_eq
  by unfold_locales (auto simp: pd_eq_def)

section \<open>Effects and the environment\<close>

record ssh_call =
  sc_host :: string
  sc_cmd :: string
  sc_stdin :: "string option"
  sc_env :: "(string \<times> string) list"
  sc_timeout :: "nat option"

record ssh_reply =
  sr_out :: string
  sr_err :: string
  sr_result :: "exn + int"

record scan_call =
  sc_yes :: "string list"
  sc_filters :: "(string \<times> string list list) list"
  sc_no :: "string list"
  sc_always_no :: "string list"
  sc_wordwise :: bool
  sc_scan_timeout :: "nat option"

datatype effect =
    Ssh ssh_call "exn + int"  \<comment> \<open>a remote command and how it ended\<close>
  | Scan scan_call
  | Log string
  | Print string
  | LocalWrite string string
  | Spawn string string  \<comment> \<open>a remote command that stays in the background\<close>
  | Sleep seconds

record environment =
  ssh_run :: "effect list \<Rightarrow> ssh_call \<Rightarrow> ssh_reply"
  logscan_event :: "effect list \<Rightarrow> scan_call \<Rightarrow> exn + string list"
  uuid5 :: "string \<Rightarrow> string"
  set_order :: "string list \<Rightarrow> string list"
  read_file :: "string \<Rightarrow> exn + string"
  helper_repr :: string
  dmesg_text :: "effect list \<Rightarrow> string \<Rightarrow> string"
  ssh_host :: "string \<Rightarrow> string"

record world =
  job :: string
  logdir :: string
  cl_drbd_version :: "string option"
  cl_drbd_version_other :: "string option"
  cl_resource_name :: string
  cl_transport :: "string option"
  cl_tls :: string
  cl_hosts :: "href list"
  cl_resources :: "rref list"
  logscan_ready :: bool
  selinux_debug :: bool
  proxy_enable :: bool
  lz4_enable :: bool
  zstd_enable :: nat
  memlimit :: "nat option"
  no_rmmod :: bool
  skip_cleanup :: bool
  hosts :: "href \<Rightarrow> host"
  nodes :: "nref \<Rightarrow> node"
  vols :: "vref \<Rightarrow> volume"
  ress :: "rref \<Rightarrow> resource"
  next_href :: nat
  next_nref :: nat
  next_vref :: nat
  next_rref :: nat
  next_conn :: nat
  trace :: "effect list"

type_synonym 'a prog = "(world, 'a) act"

definition upd_host :: "href \<Rightarrow> (host \<Rightarrow> host) \<Rightarrow> unit prog" where
  "upd_host h f = modA (\<lambda>w. w\<lparr>hosts := (hosts w)(h := f (hosts w h))\<rparr>)"

definition upd_node :: "nref \<Rightarrow> (node \<Rightarrow> node) \<Rightarrow> unit prog" where
  "upd_node n f = modA (\<lambda>w. w\<lparr>nodes := (nodes w)(n := f (nodes w n))\<rparr>)"

definition upd_vol :: "vref \<Rightarrow> (volume \<Rightarrow> volume) \<Rightarrow> unit prog" where
  "upd_vol v f = modA (\<lambda>w. w\<lparr>vols := (vols w)(v := f (vols w v))\<rparr>)"

definition upd_res :: "rref \<Rightarrow> (resource \<Rightarrow> resource) \<Rightarrow> unit prog" where
  "upd_res r f = modA (\<lambda>w. w\<lparr>ress := (ress w)(r := f (ress w r))\<rparr>)"

lemmas upd_defs = upd_host_def upd_node_def upd_vol_def upd_res_def

definition emit :: "effect \<Rightarrow> unit prog" where
  "emit e = modA (\<lambda>w. w\<lparr>trace := trace w @ [e]\<rparr>)"

abbreviation log :: "string \<Rightarrow> unit prog" where
  "log s \<equiv> emit (Log s)"

definition ssh_exec :: "environment \<Rightarrow> ssh_call \<Rightarrow> (string \<times> string \<times> int) prog" where
  "ssh_exec E c = bindA (getA (\<lambda>w. ssh_run E (trace w) c)) (\<lambda>r.
     seqA (emit (Ssh c (sr_result r)))
       (case sr_result r of Inl e \<Rightarrow> raise e | Inr k \<Rightarrow> ret (sr_out r, sr_err r, k)))"

section \<open>Host.run\<close>

record run_opts =
  ro_quote :: bool
  ro_catch :: bool
  ro_return_stdout :: bool
  ro_stdin :: "string option"
  ro_env :: "(string \<times> string) list"
  ro_timeout :: "nat option"
  ro_ignore_netns :: bool

definition run_defaults :: run_opts where
  "run_defaults = \<lparr>ro_quote = True, ro_catch = False, ro_return_stdout = False,
     ro_stdin = None, ro_env = [], ro_timeout = None, ro_ignore_netns = False\<rparr>"

abbreviation with_stdout :: run_opts where
  "with_stdout \<equiv> run_defaults\<lparr>ro_return_stdout := True\<rparr>"

abbreviation with_stdin :: "string \<Rightarrow> run_opts" where
  "with_stdin s \<equiv> run_defaults\<lparr>ro_stdin := Some s\<rparr>"

definition command_string :: "host \<Rightarrow> string list \<Rightarrow> run_opts \<Rightarrow> string" where
  "command_string h cmd opts =
     (let s = (if ro_quote opts then quoted_command cmd else join '' '' cmd)
      in case netns h of
           None \<Rightarrow> s
         | Some ns \<Rightarrow>
             if ro_ignore_netns opts \<or> ns = [] then s else ''ip netns exec '' @ ns @ '' '' @ s)"

text \<open>
  The result is the stripped standard output when \<open>return_stdout\<close> is set. A non-zero exit
  status raises unless \<open>catch\<close> is set, in which case only a message is printed.
\<close>

definition host_run :: "environment \<Rightarrow> href \<Rightarrow> string list \<Rightarrow> run_opts \<Rightarrow> string option prog" where
  "host_run E h cmd opts = bindA (getA (\<lambda>w. hosts w h)) (\<lambda>hst.
     let cs = command_string hst cmd opts in
     seqA (log (host_name hst @ '': '' @ cs))
    (bindA (ssh_exec E \<lparr>sc_host = host_name hst, sc_cmd = cs, sc_stdin = ro_stdin opts,
               sc_env = ro_env opts, sc_timeout = ro_timeout opts\<rparr>) (\<lambda>(out, err, k).
     seqA (if k = 0 then ret ()
           else if ro_catch opts
           then bindA (liftA (list_item cmd 0)) (\<lambda>c0.
                  log (''error: '' @ c0 @ '' failed ('' @ str_int k @ '')''))
           else raise (CalledProcessError k cs))
       (ret (if ro_return_stdout opts then Some (strip out) else None)))))"

text \<open>The value of a call with \<open>return_stdout=True\<close>.\<close>

definition host_stdout :: "environment \<Rightarrow> href \<Rightarrow> string list \<Rightarrow> run_opts \<Rightarrow> string prog" where
  "host_stdout E h cmd opts =
     bindA (host_run E h cmd (opts\<lparr>ro_return_stdout := True\<rparr>)) (\<lambda>r.
       case r of None \<Rightarrow> raise TypeError | Some s \<Rightarrow> ret s)"

definition host_cmd :: "environment \<Rightarrow> href \<Rightarrow> string list \<Rightarrow> unit prog" where
  "host_cmd E h cmd = bindA (host_run E h cmd run_defaults) (\<lambda>_. ret ())"

text \<open>
  \<open>Host.run_quiet\<close>: the same, with the output kept back and written to the log stream only
  when the command raises. The captured text is the standard output and error of the call.
\<close>

definition host_run_quiet :: "environment \<Rightarrow> href \<Rightarrow> string list \<Rightarrow> run_opts \<Rightarrow> unit prog" where
  "host_run_quiet E h cmd opts = bindA (getA (\<lambda>w. hosts w h)) (\<lambda>hst.
     let cs = command_string hst cmd opts;
         c = \<lparr>sc_host = host_name hst, sc_cmd = cs, sc_stdin = ro_stdin opts,
              sc_env = ro_env opts, sc_timeout = ro_timeout opts\<rparr> in
     seqA (log (host_name hst @ '': '' @ cs))
    (bindA (getA (\<lambda>w. ssh_run E (trace w) c)) (\<lambda>r.
     seqA (emit (Ssh c (sr_result r)))
       (case sr_result r of
          Inl e \<Rightarrow> seqA (log (sr_out r @ sr_err r)) (raise e)
        | Inr k \<Rightarrow> if k = 0 then ret ()
                   else seqA (log (sr_out r @ sr_err r)) (raise (CalledProcessError k cs))))))"

section \<open>A small cluster\<close>

text \<open>
  Two Linux hosts, one resource with a node on each, and an environment in which every remote
  command succeeds with no output and every event is found: the concrete input of the examples.
\<close>

definition ok_env :: environment where
  "ok_env = \<lparr>ssh_run = (\<lambda>_ _. \<lparr>sr_out = [], sr_err = [], sr_result = Inr 0\<rparr>),
     logscan_event = (\<lambda>_ _. Inr []), uuid5 = (\<lambda>s. s), set_order = (\<lambda>xs. remdups xs),
     read_file = (\<lambda>_. Inr []), helper_repr = ''<helper>'',
     dmesg_text = (\<lambda>_ _. []), ssh_host = (\<lambda>s. s)\<rparr>"

text \<open>The same with one exit status for every command.\<close>

definition status_env :: "int \<Rightarrow> environment" where
  "status_env k = ok_env\<lparr>ssh_run := (\<lambda>_ _. \<lparr>sr_out = [], sr_err = [], sr_result = Inr k\<rparr>)\<rparr>"

definition sample_host :: "nat \<Rightarrow> host" where
  "sample_host k =
     \<lparr>host_name = ''vm'' @ str_nat k, host_port = 7789, netns = None, fio_count = 0, minors = 0,
      storage_pool = None, volume_group = ''scratch'', has_other_version = False,
      platform_helper = LinuxPlatform, drbd_version = ''9.2.4'', drbd_git_hash = [],
      drbd_version_tuple = (9, 2, 4), hostname = ''vm'' @ str_nat k, netdevs = [],
      storage_backend = ''lvm'', backing_device = Some ''/dev/vdb'',
      drbd_config_dir = ''/etc/drbd.d'', os_id = ''almalinux'', os_version_id = ''9.2'',
      addr = ''10.43.0.'' @ str_nat k, addrs = [''10.43.0.'' @ str_nat k], uuid_options = None,
      dmesg_process = False, dmesg_pid = []\<rparr>"

definition empty_cluster :: "href list \<Rightarrow> world" where
  "empty_cluster hs =
     \<lparr>job = ''job'', logdir = ''log'', cl_drbd_version = None, cl_drbd_version_other = None,
      cl_resource_name = ''res'', cl_transport = None, cl_tls = ''no'', cl_hosts = hs,
      cl_resources = [], logscan_ready = True, selinux_debug = False, proxy_enable = False,
      lz4_enable = False, zstd_enable = 0, memlimit = None, no_rmmod = False,
      skip_cleanup = False, hosts = sample_host,
      nodes = (\<lambda>n. \<lparr>fencing_mode = [], node_host = n, node_resource = 0, node_name = ''vm'' @ str_nat n,
        node_port = 7789, disks = [], node_id = n, config_changed = True, node_conns = os_empty\<rparr>),
      vols = (\<lambda>v. \<lparr>vol_number = 0, vol_minor = v, vol_node = v, vol_disk = None, vol_meta = None,
        disk_lv = None, meta_lv = None, disk_is_online = False, tiebreaker = None\<rparr>),
      ress = (\<lambda>r. \<lparr>res_name = ''res'', net_options = [], disk_options = [], resource_options = [],
        handlers = [], res_nodes = os_empty, num_volumes = 0, res_transport = None, res_tls = ''no'',
        forbidden_patterns = os_empty\<rparr>),
      next_href = length hs, next_nref = 0, next_vref = 0, next_rref = 0, next_conn = 0, trace = []\<rparr>"

definition two_nodes :: world where
  "two_nodes = (empty_cluster [0, 1])\<lparr>
     ress := (\<lambda>r. \<lparr>res_name = ''res'', net_options = [], disk_options = [], resource_options = [],
        handlers = [], res_nodes = os_init (=) [0, 1], num_volumes = 0, res_transport = None,
        res_tls = ''no'', forbidden_patterns = os_init (=) [''disk:Failed'', ''connection:BrokenPipe'']\<rparr>),
     cl_resources := [0], next_nref := 2, next_rref := 1\<rparr>"

section \<open>What every remote command leaves alone\<close>

text \<open>
  The object model of a state: everything but the trace of effects. A statement that only
  talks to the outside keeps every property of the object model.
\<close>

definition objects :: "world \<Rightarrow> world" where
  "objects w = w\<lparr>trace := []\<rparr>"

lemma objects_eqD:
  assumes "objects w' = objects w"
  shows "hosts w' = hosts w" "nodes w' = nodes w" "vols w' = vols w" "ress w' = ress w"
proof -
  have "hosts (objects w') = hosts (objects w)" "nodes (objects w') = nodes (objects w)"
    "vols (objects w') = vols (objects w)" "ress (objects w') = ress (objects w)"
    using assms by simp_all
  then show "hosts w' = hosts w" "nodes w' = nodes w" "vols w' = vols w" "ress w' = ress w"
    by (simp_all add: objects_def)
qed

definition grows :: "world \<Rightarrow> world \<Rightarrow> bool" where
  "grows w w' \<longleftrightarrow> objects w' = objects w \<and> (\<exists>es. trace w' = trace w @ es)"

interpretation eff: step_rel grows
  by unfold_locales (auto simp: grows_def)

abbreviation only_effects :: "'a prog \<Rightarrow> bool" where
  "only_effects \<equiv> eff.within"

named_theorems effect_rules \<open>statements that only emit effects\<close>

lemmas effects_within [effect_rules] = eff.within_rules

lemma effects_objects: "only_effects m \<Longrightarrow> m w = (r, w') \<Longrightarrow> objects w' = objects w"
  using eff.withinD [of m] unfolding grows_def by blast

lemma effects_trace: "only_effects m \<Longrightarrow> m w = (r, w') \<Longrightarrow> \<exists>es. trace w' = trace w @ es"
  using eff.withinD [of m] unfolding grows_def by blast

lemma only_effects_pres:
  "only_effects m \<Longrightarrow> (\<And>w w'. objects w' = objects w \<Longrightarrow> P w \<Longrightarrow> P w') \<Longrightarrow> pres P m"
  by (rule eff.within_pres) (auto simp: grows_def)

lemma only_effects_keeps:
  "only_effects m \<Longrightarrow> (\<And>w w'. objects w' = objects w \<Longrightarrow> P w \<Longrightarrow> P w') \<Longrightarrow> keeps P m"
  by (rule eff.within_keeps) (auto simp: grows_def)

lemma effects_emit [effect_rules]: "only_effects (emit ef)"
  unfolding emit_def by (rule eff.within_mod) (simp add: grows_def objects_def)

lemma effects_ssh_exec [effect_rules]: "only_effects (ssh_exec E c)"
  unfolding ssh_exec_def by (intro effect_rules)

lemma effects_host_run [effect_rules]: "only_effects (host_run E h cmd opts)"
  unfolding host_run_def by (intro effect_rules)

lemma effects_host_stdout [effect_rules]: "only_effects (host_stdout E h cmd opts)"
  unfolding host_stdout_def by (intro effect_rules)

lemma effects_host_cmd [effect_rules]: "only_effects (host_cmd E h cmd)"
  unfolding host_cmd_def by (intro effect_rules)

lemma effects_host_run_quiet [effect_rules]: "only_effects (host_run_quiet E h cmd opts)"
  unfolding host_run_quiet_def by (intro effect_rules)

section \<open>What a remote shell makes of a command\<close>

text \<open>The words in front of the command on a host with a network namespace.\<close>

definition netns_prefix :: "host \<Rightarrow> run_opts \<Rightarrow> string list" where
  "netns_prefix h opts =
     (case netns h of
        None \<Rightarrow> []
      | Some ns \<Rightarrow> if ro_ignore_netns opts \<or> ns = [] then [] else [''ip'', ''netns'', ''exec'', ns])"

lemma sh_words_prefix:
  assumes "ns \<noteq> []" and "list_all safe_char ns" and "sh_words s = Some ws"
  shows "sh_words (''ip netns exec '' @ ns @ '' '' @ s) = Some ([''ip'', ''netns'', ''exec'', ns] @ ws)"
proof -
  have word: "sh_words (v @ '' '' @ t) = map_option (Cons v) (sh_words t)"
    if "v \<noteq> []" "list_all safe_char v" for v t
    using sh_lex_safe_start [OF that] by (simp add: sh_words_def)
  have safe: "list_all safe_char ''ip''" "list_all safe_char ''netns''" "list_all safe_char ''exec''"
    by (simp_all add: safe_char_def)
  have "sh_words (ns @ '' '' @ s) = Some (ns # ws)" using word [OF assms(1,2)] assms(3) by simp
  then show ?thesis
    using word [OF _ safe(3), of "ns @ '' '' @ s"] word [OF _ safe(2), of "''exec '' @ ns @ '' '' @ s"]
      word [OF _ safe(1), of "''netns exec '' @ ns @ '' '' @ s"] by simp
qed

lemma host_run_ok_env: "\<exists>w'. host_run ok_env h cmd run_defaults w = (Inr None, w')"
  by (simp add: host_run_def ssh_exec_def ok_env_def run_defaults_def Let_def bindA_def seqA_def getA_def
      emit_def modA_def ret_def)

lemma command_string_words:
  assumes "ro_quote opts" and "\<And>ns. netns h = Some ns \<Longrightarrow> list_all safe_char ns"
  shows "sh_words (command_string h cmd opts) = Some (netns_prefix h opts @ cmd)"
  using assms sh_words_quoted [of cmd] sh_words_prefix [of _ "quoted_command cmd" cmd]
  by (auto simp: command_string_def netns_prefix_def Let_def split: option.splits)

text \<open>
  C9: When \<open>Host.run\<close> returns (with its default quoting), it has sent one command to the host,
  with the standard input it was given, that a POSIX shell splits into exactly the argument
  strings of the call, whatever characters they contain, after the \<open>ip netns exec\<close> prefix if the
  host has a network namespace; and the command ended with status 0 unless failures are caught.
\<close>
theorem host_run_argv:
  assumes "ro_quote opts" and "\<forall>ns. netns (hosts w h) = Some ns \<longrightarrow> list_all safe_char ns"
    and "host_run E h cmd opts w = (Inr out, w')"
  shows "\<exists>c k es. trace w' = trace w @ es \<and> filter (\<lambda>e. \<exists>c k. e = Ssh c k) es = [Ssh c (Inr k)] \<and>
     sc_host c = host_name (hosts w h) \<and> sc_stdin c = ro_stdin opts \<and>
     sh_words (sc_cmd c) = Some (netns_prefix (hosts w h) opts @ cmd) \<and> (k = 0 \<or> ro_catch opts)"
proof -
  define cs where "cs = command_string (hosts w h) cmd opts"
  define c where "c = \<lparr>sc_host = host_name (hosts w h), sc_cmd = cs, sc_stdin = ro_stdin opts,
      sc_env = ro_env opts, sc_timeout = ro_timeout opts\<rparr>"
  have words: "sh_words cs = Some (netns_prefix (hosts w h) opts @ cmd)"
    unfolding cs_def using assms(1,2) by (intro command_string_words) auto
  obtain k where "k = 0 \<or> ro_catch opts"
    and "trace w' = trace w @ [Log (host_name (hosts w h) @ '': '' @ cs), Ssh c (Inr k)] \<or>
      (\<exists>m. trace w' = trace w @ [Log (host_name (hosts w h) @ '': '' @ cs), Ssh c (Inr k), Log m])"
    using assms(3) unfolding host_run_def ssh_exec_def emit_def
    by (auto simp: Let_def cs_def [symmetric] c_def [symmetric] bindA_def seqA_def getA_def modA_def
        ret_def raise_def liftA_def split: if_splits sum.splits prod.splits)
  then show ?thesis using words by (auto simp: c_def)
qed

theorem host_run_argv_witness:
  "\<exists>c k es. trace (snd (host_run ok_env 0 [''echo'', ''a b'', [], ''$x''] run_defaults two_nodes)) = es \<and>
     filter (\<lambda>e. \<exists>c k. e = Ssh c k) es = [Ssh c (Inr k)] \<and>
     sh_words (sc_cmd c) = Some [''echo'', ''a b'', [], ''$x'']"
proof -
  let ?cmd = "[''echo'', ''a b'', [], ''$x'']"
  obtain w' where w': "host_run ok_env 0 ?cmd run_defaults two_nodes = (Inr None, w')"
    using host_run_ok_env by blast
  have "ro_quote run_defaults" "netns_prefix (hosts two_nodes 0) run_defaults = []"
    "netns (hosts two_nodes 0) = None" "trace two_nodes = []"
    by (simp_all add: two_nodes_def empty_cluster_def sample_host_def run_defaults_def netns_prefix_def)
  with host_run_argv [OF _ _ w'] show ?thesis by (simp add: w') blast
qed

end
