(* ===== verification/Storage.thy ===== *)
theory Storage
  imports World
begin

text \<open>
  The storage back ends of \<open>src/python/disktools.py\<close>: a pool (LVM, raw partitions, ZFS or
  Windows storage spaces) creates volumes, and a volume may be wrapped in device-mapper
  targets. Each constructor and method is a statement that sends commands to the host.
  \<open>create_md\<close>, which needs a node, is in theory \<open>Node_Ops\<close>; \<open>fill_percentage\<close>, which reads JSON and
  floating point numbers, is in theory \<open>Disk_Usage\<close>.
\<close>

section \<open>Sizes\<close>

definition unit_exponent :: "char \<Rightarrow> nat option" where
  "unit_exponent c =
     (if c = CHR ''K'' then Some 1 else if c = CHR ''M'' then Some 2
      else if c = CHR ''G'' then Some 3 else if c = CHR ''T'' then Some 4
      else if c = CHR ''P'' then Some 5 else None)"

definition size_in_bytes :: "string \<Rightarrow> exn + int" where
  "size_in_bytes s =
     (case rev s of
        [] \<Rightarrow> py_int s
      | c # _ \<Rightarrow>
          if is_digit (upper_char c) then py_int s
          else (case py_int (butlast s) of
                  Inl e \<Rightarrow> Inl e
                | Inr n \<Rightarrow> (case unit_exponent (upper_char c) of
                              None \<Rightarrow> Inl ValueError
                            | Some e \<Rightarrow> Inr (n * 1024 ^ e))))"

section \<open>Volumes\<close>

text \<open>\<open>str(x)\<close> of an optional string, and the truth value of an optional number.\<close>

definition str_opt :: "string option \<Rightarrow> string" where
  "str_opt x = (case x of None \<Rightarrow> ''None'' | Some s \<Rightarrow> s)"

definition truthy_opt :: "nat option \<Rightarrow> bool" where
  "truthy_opt x \<longleftrightarrow> x \<noteq> None \<and> x \<noteq> Some 0"

abbreviation THINPOOL :: string where
  "THINPOOL \<equiv> ''drbdthinpool''"

definition lvm_volume_init ::
  "environment \<Rightarrow> href \<Rightarrow> string \<Rightarrow> string \<Rightarrow> bool \<Rightarrow> disk_volume prog" where
  "lvm_volume_init E h name sz thin = bindA (getA (\<lambda>w. volume_group (hosts w h))) (\<lambda>vg.
     let sizing = (if thin then [''--virtualsize'', sz, ''--thin'', vg @ ''/'' @ THINPOOL]
                   else [''--size'', sz, vg]);
         lvcreate_args = sizing @ [''--wipesignatures'', ''y'', ''--yes''] in
     seqA (host_cmd E h ([''lvcreate'', ''--name'', name] @ lvcreate_args))
       (ret (LvmVolume name (''/dev/'' @ vg @ ''/'' @ name) sz)))"

definition storage_spaces_volume_init ::
  "environment \<Rightarrow> href \<Rightarrow> string \<Rightarrow> string \<Rightarrow> bool \<Rightarrow> string \<Rightarrow> disk_volume prog" where
  "storage_spaces_volume_init E h name sz thin backing =
     bindA (liftA (size_in_bytes sz)) (\<lambda>n.
     seqA (host_cmd E h [''./linstor-wmi-helper'', ''virtual-disk'', ''create'', backing, name,
             str_int n, if thin then ''thin'' else ''thick''])
    (bindA (host_stdout E h [''bash'', ''-c'',
             ''./linstor-wmi-helper virtual-disk list '' @ name @ '' 2>&1''] run_defaults) (\<lambda>line.
     seqA (emit (Print (''output is '' @ line)))
    (bindA (liftA (list_item (split_on (CHR 0x09) line) 4)) (\<lambda>guid.
     ret (StorageSpacesVolume name
           (replace_char (CHR ''}'') [] (replace_char (CHR ''{'') [] guid))))))))"

definition refresh_partitions :: "environment \<Rightarrow> href \<Rightarrow> string \<Rightarrow> unit prog" where
  "refresh_partitions E h backing =
     seqA (host_cmd E h [''partx'', ''--update'', backing])
    (seqA (host_cmd E h [''udevadm'', ''trigger''])
          (host_cmd E h [''udevadm'', ''settle'']))"

abbreviation partuuid_path :: "string \<Rightarrow> string" where
  "partuuid_path guid \<equiv> ''/dev/disk/by-partuuid/'' @ guid"

definition raw_volume_init ::
  "environment \<Rightarrow> href \<Rightarrow> string \<Rightarrow> string \<Rightarrow> string \<Rightarrow> string option \<Rightarrow> disk_volume prog" where
  "raw_volume_init E h backing name sz max_size =
     (let guid = uuid5 E name;
          start = (case max_size of None \<Rightarrow> ''0'' | Some m \<Rightarrow> if m = [] then ''0'' else ''-'' @ m) in
      seqA (host_cmd E h [''sgdisk'', ''--new=0:'' @ start @ '':+'' @ sz,
              ''--partition-guid=0:'' @ guid, backing])
     (seqA (refresh_partitions E h backing)
     (bindA (host_stdout E h [''partx'', ''--show'', ''--output'', ''NR'', ''--noheadings'',
               partuuid_path guid] run_defaults) (\<lambda>nr.
      ret (RawVolume backing guid start (strip nr))))))"

definition zfs_volume_init ::
  "environment \<Rightarrow> href \<Rightarrow> string \<Rightarrow> string \<Rightarrow> bool \<Rightarrow> nat option \<Rightarrow> disk_volume prog" where
  "zfs_volume_init E h name sz thin granularity =
     bindA (getA (\<lambda>w. volume_group (hosts w h))) (\<lambda>vg.
     let dataset = vg @ ''/'' @ name;
         extra = (if thin then [''-s''] else []) @
                 (case granularity of None \<Rightarrow> []
                  | Some g \<Rightarrow> [''-o'', ''volblocksize='' @ str_nat g]) in
     seqA (host_cmd E h ([''zfs'', ''create'', ''-V'', sz, dataset] @ extra))
    (seqA (host_cmd E h [''udevadm'', ''trigger''])
    (seqA (host_cmd E h [''udevadm'', ''settle''])
          (ret (ZfsVolume dataset)))))"

definition volume_path :: "disk_volume \<Rightarrow> string" where
  "volume_path d =
     (case d of
        LvmVolume _ lv _ \<Rightarrow> lv
      | StorageSpacesVolume _ lv \<Rightarrow> lv
      | RawVolume _ guid _ _ \<Rightarrow> partuuid_path guid
      | ZfsVolume dataset \<Rightarrow> ''/dev/zvol/'' @ dataset
      | DelayVolume name _ _ _ \<Rightarrow> ''/dev/mapper/'' @ name
      | EmulatedBlockSizeVolume name _ _ _ \<Rightarrow> ''/dev/mapper/'' @ name)"

text \<open>The device-mapper table: \<open>_table_start\<close>, then each subclass's \<open>_table\<close>.\<close>

definition dm_table :: "disk_volume \<Rightarrow> string" where
  "dm_table d =
     (case d of
        DelayVolume _ backing sectors ms \<Rightarrow>
          ''0 '' @ sectors @ '' delay '' @ volume_path backing @ '' 0 '' @ str_nat ms
      | EmulatedBlockSizeVolume _ backing sectors lbs \<Rightarrow>
          ''0 '' @ sectors @ '' ebs '' @ volume_path backing @ '' 0 '' @ str_nat (lbs div 512)
      | _ \<Rightarrow> [])"

text \<open>\<open>DeviceMapperTarget.__init__\<close>: \<open>mk\<close> builds the subclass object once the size is known.\<close>

definition device_mapper_init ::
  "environment \<Rightarrow> href \<Rightarrow> disk_volume \<Rightarrow> (string \<Rightarrow> disk_volume) \<Rightarrow> disk_volume prog" where
  "device_mapper_init E h backing mk =
     bindA (host_stdout E h [''blockdev'', ''--getsz'', volume_path backing] run_defaults) (\<lambda>sectors.
     let d = mk sectors in
     seqA (case d of EmulatedBlockSizeVolume _ _ _ _ \<Rightarrow> emit (Print (dm_table d)) | _ \<Rightarrow> ret ())
    (seqA (bindA (host_run E h [''dmsetup'', ''create'', dm_name d] (with_stdin (dm_table d)))
             (\<lambda>_. ret ()))
          (ret d)))"

definition delay_volume_init ::
  "environment \<Rightarrow> href \<Rightarrow> string \<Rightarrow> disk_volume \<Rightarrow> nat \<Rightarrow> disk_volume prog" where
  "delay_volume_init E h name backing ms =
     device_mapper_init E h backing (\<lambda>sectors. DelayVolume (name @ ''-delay'') backing sectors ms)"

definition emulated_block_size_volume_init ::
  "environment \<Rightarrow> href \<Rightarrow> string \<Rightarrow> disk_volume \<Rightarrow> nat \<Rightarrow> disk_volume prog" where
  "emulated_block_size_volume_init E h name backing lbs =
     device_mapper_init E h backing
       (\<lambda>sectors. EmulatedBlockSizeVolume (name @ ''-ebs'') backing sectors lbs)"

definition set_delay_ms :: "environment \<Rightarrow> href \<Rightarrow> disk_volume \<Rightarrow> nat \<Rightarrow> disk_volume prog" where
  "set_delay_ms E h d ms =
     (case d of
        DelayVolume name backing sectors _ \<Rightarrow>
          let d' = DelayVolume name backing sectors ms in
          seqA (bindA (host_run E h [''dmsetup'', ''reload'', name] (with_stdin (dm_table d')))
                  (\<lambda>_. ret ()))
         (seqA (host_cmd E h [''dmsetup'', ''suspend'', name])
         (seqA (host_cmd E h [''dmsetup'', ''resume'', name])
               (ret d')))
      | _ \<Rightarrow> raise AttributeError)"

text \<open>The command that removes one volume, and \<open>remove\<close>, which unwraps the targets.\<close>

definition remove_command :: "disk_volume \<Rightarrow> string list" where
  "remove_command d =
     (case d of
        LvmVolume _ lv _ \<Rightarrow> [''lvremove'', ''--force'', lv]
      | StorageSpacesVolume name _ \<Rightarrow> [''./linstor-wmi-helper'', ''virtual-disk'', ''delete'', name]
      | RawVolume backing _ _ part \<Rightarrow> [''sgdisk'', ''--delete='' @ part, backing]
      | ZfsVolume dataset \<Rightarrow> [''zfs'', ''destroy'', dataset]
      | DelayVolume name _ _ _ \<Rightarrow> [''dmsetup'', ''remove'', name]
      | EmulatedBlockSizeVolume name _ _ _ \<Rightarrow> [''dmsetup'', ''remove'', name])"

fun volume_remove :: "environment \<Rightarrow> href \<Rightarrow> disk_volume \<Rightarrow> unit prog" where
  "volume_remove E h (DelayVolume name backing sectors ms) =
     seqA (host_cmd E h (remove_command (DelayVolume name backing sectors ms)))
       (volume_remove E h backing)"
| "volume_remove E h (EmulatedBlockSizeVolume name backing sectors lbs) =
     seqA (host_cmd E h (remove_command (EmulatedBlockSizeVolume name backing sectors lbs)))
       (volume_remove E h backing)"
| "volume_remove E h d = host_cmd E h (remove_command d)"

definition volume_resize :: "environment \<Rightarrow> href \<Rightarrow> disk_volume \<Rightarrow> string \<Rightarrow> unit prog" where
  "volume_resize E h d sz =
     (case d of
        LvmVolume _ lv _ \<Rightarrow> host_cmd E h [''lvresize'', ''-L'', sz, lv]
      | StorageSpacesVolume name _ \<Rightarrow> bindA (liftA (size_in_bytes sz)) (\<lambda>n.
          host_cmd E h [''./linstor-wmi-helper'', ''virtual-disk'', ''resize'', name, str_int n])
      | RawVolume backing guid start part \<Rightarrow>
          seqA (bindA (host_run E h [''sgdisk'', ''--delete='' @ part,
                  ''--new='' @ part @ '':'' @ start @ '':+'' @ sz,
                  ''--partition-guid='' @ part @ '':'' @ guid, backing] with_stdout) (\<lambda>_. ret ()))
            (refresh_partitions E h backing)
      | ZfsVolume dataset \<Rightarrow> host_cmd E h [''zfs'', ''set'', ''volsize='' @ sz, dataset]
      | _ \<Rightarrow> raise (NotImplementedError ''delay storage volume does not implement resize''))"

definition volume_snapshot :: "environment \<Rightarrow> href \<Rightarrow> disk_volume \<Rightarrow> string \<Rightarrow> string prog" where
  "volume_snapshot E h d name_ext =
     (case d of
        LvmVolume name lv lvsize \<Rightarrow>
          bindA (host_stdout E h [''lvmconfig'', ''--typeconfig=full'', ''devices/use_devicesfile'']
                  (run_defaults\<lparr>ro_catch := True\<rparr>)) (\<lambda>devicesfile.
          let extra_config =
                (if devicesfile = ''use_devicesfile=1''
                 then ''devices { search_for_devnames = '' @ [DQUOTE] @ ''none'' @ [DQUOTE] @ '' }''
                 else ''devices { filter=['' @ [DQUOTE] @ ''r|^/dev/drbd.*|'' @ [DQUOTE] @ ''] }'') in
          bindA (getA (\<lambda>w. volume_group (hosts w h))) (\<lambda>vg.
          seqA (host_cmd E h [''lvcreate'', ''--config'', extra_config, ''--snapshot'', ''--name'',
                  name @ ''-'' @ name_ext, ''--size'', lvsize, lv])
            (ret (''/dev/'' @ vg @ ''/'' @ name @ ''-'' @ name_ext))))
      | ZfsVolume dataset \<Rightarrow>
          seqA (host_cmd E h [''zfs'', ''set'', ''snapdev=visible'', dataset])
         (seqA (host_cmd E h [''zfs'', ''snapshot'', dataset @ ''@'' @ name_ext])
               (ret (''/dev/zvol/'' @ dataset @ ''@'' @ name_ext)))
      | _ \<Rightarrow> raise AttributeError)"

section \<open>Pools\<close>

definition lvm_pool_init ::
  "environment \<Rightarrow> href \<Rightarrow> string \<Rightarrow> bool \<Rightarrow> nat option \<Rightarrow> pool prog" where
  "lvm_pool_init E h backing thin granularity =
     bindA (getA (\<lambda>w. volume_group (hosts w h))) (\<lambda>vg.
     seqA (host_cmd E h [''vgcreate'', vg, backing])
    (seqA (whenA thin
             (host_cmd E h ([''lvcreate'', vg, ''--thinpool'', THINPOOL, ''--extents'', ''100%FREE''] @
                (if truthy_opt granularity
                 then [''--chunksize'', str_nat (the granularity) @ ''B''] else []))))
          (ret (LvmPool backing thin granularity))))"

definition zfs_pool_init ::
  "environment \<Rightarrow> href \<Rightarrow> string \<Rightarrow> bool \<Rightarrow> nat option \<Rightarrow> pool prog" where
  "zfs_pool_init E h backing thin granularity =
     bindA (getA (\<lambda>w. volume_group (hosts w h))) (\<lambda>vg.
     seqA (host_cmd E h [''zpool'', ''create'', vg, backing])
          (ret (ZfsPool backing thin granularity)))"

definition create_storage_pool ::
  "environment \<Rightarrow> href \<Rightarrow> string \<Rightarrow> string option \<Rightarrow> bool \<Rightarrow> nat option \<Rightarrow> pool prog" where
  "create_storage_pool E h backend backing thin granularity =
     (if backend = ''lvm'' then lvm_pool_init E h (str_opt backing) thin granularity
      else if backend = ''raw'' then
        (if thin then raise ValueError else ret (RawPool (str_opt backing)))
      else if backend = ''zfs'' then zfs_pool_init E h (str_opt backing) thin granularity
      else if backend = ''storage-spaces'' then ret (StorageSpacesPool (str_opt backing) thin)
      else raise (NotImplementedError
             (''backend '' @ [DQUOTE] @ backend @ [DQUOTE] @ '' not implemented'')))"

definition pool_remove :: "environment \<Rightarrow> href \<Rightarrow> pool \<Rightarrow> unit prog" where
  "pool_remove E h p = bindA (getA (\<lambda>w. volume_group (hosts w h))) (\<lambda>vg.
     (case p of
        LvmPool _ _ _ \<Rightarrow> host_cmd E h [''vgremove'', ''-y'', vg]
      | RawPool backing \<Rightarrow> host_cmd E h [''wipefs'', ''-a'', backing]
      | ZfsPool _ _ _ \<Rightarrow> host_cmd E h [''zpool'', ''destroy'', vg]
      | StorageSpacesPool _ _ \<Rightarrow> ret ()))"

definition pool_create_disk ::
  "environment \<Rightarrow> href \<Rightarrow> pool \<Rightarrow> string \<Rightarrow> string \<Rightarrow> string option \<Rightarrow> disk_volume prog" where
  "pool_create_disk E h p name sz max_size =
     (case p of
        LvmPool _ thin _ \<Rightarrow> lvm_volume_init E h name sz thin
      | RawPool backing \<Rightarrow> raw_volume_init E h backing name sz max_size
      | ZfsPool _ thin granularity \<Rightarrow> zfs_volume_init E h name sz thin granularity
      | StorageSpacesPool backing thin \<Rightarrow>
          storage_spaces_volume_init E h name sz thin backing)"

text \<open>The module's \<open>create_disk\<close>: a pool volume, wrapped as asked.\<close>

definition create_disk ::
  "environment \<Rightarrow> href \<Rightarrow> string \<Rightarrow> string \<Rightarrow> string option \<Rightarrow> nat option \<Rightarrow> nat option \<Rightarrow>
   disk_volume prog" where
  "create_disk E h name sz max_size delay lbs =
     bindA (getA (\<lambda>w. storage_pool (hosts w h))) (\<lambda>sp.
     case sp of
       None \<Rightarrow> raise AttributeError
     | Some p \<Rightarrow>
         bindA (pool_create_disk E h p name sz max_size) (\<lambda>d0.
         bindA (case delay of None \<Rightarrow> ret d0 | Some ms \<Rightarrow> delay_volume_init E h name d0 ms) (\<lambda>d1.
         (case lbs of None \<Rightarrow> ret d1
          | Some b \<Rightarrow> emulated_block_size_volume_init E h name d1 b))))"

text \<open>Whether \<open>drbdmeta\<close> knows the UUID options: probed once and cached on the host.\<close>

definition supports_uuid_options :: "environment \<Rightarrow> href \<Rightarrow> bool prog" where
  "supports_uuid_options E h = bindA (getA (\<lambda>w. uuid_options (hosts w h))) (\<lambda>cached.
     case cached of
       Some b \<Rightarrow> ret b
     | None \<Rightarrow>
         bindA (host_stdout E h [''bash'', ''-c'',
            ''drbdmeta - v09 /dev/null internal create-md 3 --initial-current-uuid 2>&1 || true'']
            run_defaults) (\<lambda>out.
         seqA (upd_host h (\<lambda>x. x\<lparr>uuid_options := Some (substr ''requires an argument'' out)\<rparr>))
              (ret (substr ''requires an argument'' out))))"

section \<open>Sizes and layers\<close>

lemma is_digit_upper: "is_digit c \<Longrightarrow> upper_char c = c"
  by (auto simp: is_digit_def upper_char_def Let_def)

lemma size_in_bytes_plain_digits: "size_in_bytes (str_nat n) = Inr (int n)"
proof -
  have ne: "rev (str_nat n) \<noteq> []" by simp
  then obtain c cs where r: "rev (str_nat n) = c # cs" by (cases "rev (str_nat n)") auto
  then have "c \<in> set (str_nat n)" by (metis list.set_intros(1) set_rev)
  then have "is_digit c" using str_nat_digits [of n] by (auto simp: list_all_iff)
  then have "size_in_bytes (str_nat n) = py_int (str_nat n)"
    unfolding size_in_bytes_def r by (simp add: is_digit_upper)
  then show ?thesis by simp
qed

lemma size_in_bytes_suffix:
  assumes "unit_exponent (upper_char u) = Some e"
  shows "size_in_bytes (str_nat n @ [u]) = Inr (int n * 1024 ^ e)"
proof -
  have "\<not> is_digit (upper_char u)"
    using assms by (auto simp: unit_exponent_def is_digit_def split: if_splits)
  with assms show ?thesis by (simp add: size_in_bytes_def)
qed

lemma size_in_bytes_bad_suffix:
  "\<not> is_digit (upper_char u) \<Longrightarrow> unit_exponent (upper_char u) = None \<Longrightarrow>
   size_in_bytes (s @ [u]) = Inl ValueError"
  by (auto simp: size_in_bytes_def dest: py_int_Inl split: sum.splits)

text \<open>The layers of a volume, outermost first, and the commands that take them apart.\<close>

fun layers :: "disk_volume \<Rightarrow> disk_volume list" where
  "layers (DelayVolume name backing sectors ms) =
     DelayVolume name backing sectors ms # layers backing"
| "layers (EmulatedBlockSizeVolume name backing sectors lbs) =
     EmulatedBlockSizeVolume name backing sectors lbs # layers backing"
| "layers d = [d]"

lemma volume_remove_layers:
  "volume_remove E h d = forA (layers d) (\<lambda>l. host_cmd E h (remove_command l))"
  by (induction E h d rule: volume_remove.induct)
    (simp_all add: seqA_def host_cmd_def bind_assoc)

lemmas storage_defs = lvm_volume_init_def storage_spaces_volume_init_def refresh_partitions_def
  raw_volume_init_def zfs_volume_init_def device_mapper_init_def delay_volume_init_def
  emulated_block_size_volume_init_def volume_resize_def volume_snapshot_def
  lvm_pool_init_def zfs_pool_init_def create_storage_pool_def pool_remove_def
  pool_create_disk_def create_disk_def set_delay_ms_def

lemma effects_disk_volume [effect_rules]:
  assumes "\<And>a b c. only_effects (f1 a b c)" "\<And>a b. only_effects (f2 a b)"
    "\<And>a b c d. only_effects (f3 a b c d)" "\<And>a. only_effects (f4 a)"
    "\<And>a b c d. only_effects (f5 a b c d)" "\<And>a b c d. only_effects (f6 a b c d)"
  shows "only_effects (case_disk_volume f1 f2 f3 f4 f5 f6 d)"
  using assms by (cases d) simp_all

lemma effects_pool [effect_rules]:
  assumes "\<And>a b c. only_effects (f1 a b c)" "\<And>a. only_effects (f2 a)"
    "\<And>a b c. only_effects (f3 a b c)" "\<And>a b. only_effects (f4 a b)"
  shows "only_effects (case_pool f1 f2 f3 f4 p)"
  using assms by (cases p) simp_all

lemma effects_create_disk [effect_rules]:
  "only_effects (create_disk E h name sz max_size delay lbs)"
  unfolding storage_defs by (intro effect_rules)

lemma effects_create_storage_pool [effect_rules]:
  "only_effects (create_storage_pool E h backend backing thin granularity)"
  unfolding storage_defs by (intro effect_rules)

lemma effects_pool_remove [effect_rules]: "only_effects (pool_remove E h p)"
  unfolding storage_defs by (intro effect_rules)

lemma effects_volume_remove [effect_rules]: "only_effects (volume_remove E h d)"
  unfolding volume_remove_layers by (intro effect_rules)

lemma effects_volume_resize [effect_rules]: "only_effects (volume_resize E h d sz)"
  unfolding storage_defs by (intro effect_rules)

lemma effects_volume_snapshot [effect_rules]: "only_effects (volume_snapshot E h d ext)"
  unfolding storage_defs by (intro effect_rules)

end
