(* ===== verification/Config_Block.thy ===== *)
theory Config_Block
  imports Prelude
begin

text \<open>
  \<open>ConfigBlock\<close> of \<open>src/python/drbdtest.py\<close>: the context manager that writes a nested,
  indented DRBD configuration. The class keeps a stack of open blocks (whose bottom is the
  string \<open>"top"\<close>); entering a block writes its header, leaving it, normally or by an
  exception, writes the closing brace and pops the stack.
\<close>

section \<open>The class\<close>

record block =
  blk_name :: string
  blk_indent :: string
  blk_depth :: nat  \<comment> \<open>identifies the object: its position on the stack\<close>

record cb_state =
  cb_stack :: "block list"  \<comment> \<open>innermost first, without \<open>"top"\<close>\<close>
  cb_text :: "string list"

abbreviation INDENT :: string where
  "INDENT \<equiv> ''     ''"

text \<open>
  \<open>data % args\<close> with no arguments, as \<open>write\<close> applies it to every line: a conversion
  specifier that ends in a percent sign (after flags, width, precision and length modifier)
  is a literal percent sign, any other conversion lacks its argument.
\<close>

definition skip_spec :: "string \<Rightarrow> string" where
  "skip_spec s =
     (let a = dropWhile (\<lambda>c. c \<in> set ''#0- +'') s;
          b = dropWhile is_digit a;
          d = (case b of c # r \<Rightarrow> if c = CHR ''.'' then dropWhile is_digit r else b | [] \<Rightarrow> [])
      in (case d of c # r \<Rightarrow> if c \<in> set ''hlL'' then r else d | [] \<Rightarrow> []))"

lemma length_skip_spec: "length (skip_spec s) \<le> length s"
proof -
  have dw: "length (dropWhile P xs) \<le> length xs" for P and xs :: string
    by (rule length_dropWhile_le)
  define b where "b = dropWhile is_digit (dropWhile (\<lambda>c. c \<in> set ''#0- +'') s)"
  have b: "length b \<le> length s"
    unfolding b_def by (rule le_trans [OF dw dw])
  define d where
    "d = (case b of c # r \<Rightarrow> if c = CHR ''.'' then dropWhile is_digit r else b | [] \<Rightarrow> [])"
  have d: "length d \<le> length b"
    using dw by (auto simp: d_def le_SucI split: list.splits)
  have "skip_spec s = (case d of c # r \<Rightarrow> if c \<in> set ''hlL'' then r else d | [] \<Rightarrow> [])"
    unfolding skip_spec_def Let_def b_def [symmetric] d_def [symmetric] by (rule refl)
  then have "length (skip_spec s) \<le> length d" by (cases d) (simp_all del: set_simps)
  with b d show ?thesis by linarith
qed

function pct_format :: "string \<Rightarrow> exn + string" where
  "pct_format [] = Inr []"
| "pct_format (c # cs) =
     (if c \<noteq> CHR ''%'' then map_sum id (Cons c) (pct_format cs)
      else (case skip_spec cs of
              [] \<Rightarrow> Inl ValueError
            | k # r \<Rightarrow> if k = CHR ''%'' then map_sum id (Cons (CHR ''%'')) (pct_format r)
                       else Inl TypeError))"
  by pat_completeness auto
termination
proof (relation "measure length")
  fix c cs k r
  assume "skip_spec cs = k # r"
  then show "(r, c # cs) \<in> measure length"
    using length_skip_spec [of cs] by simp
qed auto

definition cb_init :: "string \<Rightarrow> cb_state \<Rightarrow> block" where
  "cb_init t s =
     \<lparr>blk_name = t,
      blk_indent = (if cb_stack s = [] then []
                    else concat (replicate (Suc (length (cb_stack s))) INDENT)),
      blk_depth = length (cb_stack s)\<rparr>"

definition write_no_indent :: "string \<Rightarrow> (cb_state, unit) act" where
  "write_no_indent content = modA (\<lambda>s. s\<lparr>cb_text := cb_text s @ [content]\<rparr>)"

definition cb_enter :: "string \<Rightarrow> (cb_state, block) act" where
  "cb_enter t = bindA (getA (cb_init t)) (\<lambda>b.
     seqA (modA (\<lambda>s. s\<lparr>cb_stack := b # cb_stack s\<rparr>))
    (seqA (write_no_indent (blk_indent b @ t @ '' {'' @ NL))
          (ret b)))"

definition cb_exit :: "block \<Rightarrow> (cb_state, unit) act" where
  "cb_exit b =
     seqA (write_no_indent (blk_indent b @ ''}'' @ NL @ NL))
    (bindA (getA cb_stack) (\<lambda>st.
       case st of
         [] \<Rightarrow> raise AssertionError
       | c # r \<Rightarrow> seqA (modA (\<lambda>s. s\<lparr>cb_stack := r\<rparr>)) (assertA (c = b))))"

text \<open>\<open>with ConfigBlock(t=t) as b: body b\<close>.\<close>

definition with_block :: "string \<Rightarrow> (block \<Rightarrow> (cb_state, unit) act) \<Rightarrow> (cb_state, unit) act" where
  "with_block t body = bindA (cb_enter t) (\<lambda>b. finallyA (body b) (cb_exit b))"

definition cb_write :: "block \<Rightarrow> string \<Rightarrow> (cb_state, unit) act" where
  "cb_write b data = bindA (liftA (pct_format data)) (\<lambda>line.
     let content = blk_indent b @ INDENT @ line in
     write_no_indent (if line \<noteq> [] \<and> last line = CHR 0x0A then content else content @ NL))"

section \<open>What a block writes\<close>

text \<open>
  A statement \<open>emits\<close> \<open>W\<close> when, however it ends, it leaves the stack of open blocks as it
  was and has only added text, and the added text satisfies \<open>W\<close>.
\<close>

definition emits :: "(string \<Rightarrow> bool) \<Rightarrow> (cb_state, 'a) act \<Rightarrow> bool" where
  "emits W m \<longleftrightarrow>
     (\<forall>s. \<exists>ts. cb_text (snd (m s)) = cb_text s @ ts \<and> W (concat ts) \<and>
             cb_stack (snd (m s)) = cb_stack s)"

lemma emitsE:
  assumes "emits W m" and "m s = (r, t)"
  obtains ts where "cb_text t = cb_text s @ ts" "W (concat ts)" "cb_stack t = cb_stack s"
  using assms unfolding emits_def by (metis snd_conv)

text \<open>
  The configuration texts a class of blocks can produce: closed under concatenation and
  under wrapping in a block whose header has a permitted name.
\<close>

locale block_text =
  fixes W :: "string \<Rightarrow> bool" and good_name :: "string \<Rightarrow> bool"
  assumes W_nil: "W []"
    and W_append: "W s \<Longrightarrow> W t \<Longrightarrow> W (s @ t)"
    and W_block: "good_name t \<Longrightarrow> W body \<Longrightarrow> set ind \<subseteq> {CHR '' ''} \<Longrightarrow>
      W (ind @ t @ '' {'' @ NL @ body @ ind @ ''}'' @ NL @ NL)"
begin

lemma emits_ret: "emits W (ret x)"
  and emits_raise: "emits W (raise e)"
  and emits_lift: "emits W (liftA r)"
  and emits_get: "emits W (getA f)"
  using W_nil by (simp_all add: emits_def)

lemma emits_bind:
  assumes "emits W m" and "\<And>x. emits W (f x)"
  shows "emits W (bindA m f)"
  unfolding emits_def
proof
  fix s
  obtain r t where m: "m s = (r, t)" by (cases "m s")
  obtain ts where ts: "cb_text t = cb_text s @ ts" "W (concat ts)" "cb_stack t = cb_stack s"
    by (rule emitsE [OF assms(1) m])
  show "\<exists>ts. cb_text (snd (bindA m f s)) = cb_text s @ ts \<and> W (concat ts) \<and>
      cb_stack (snd (bindA m f s)) = cb_stack s"
  proof (cases r)
    case (Inl e)
    with m ts show ?thesis by (auto simp: bindA_def)
  next
    case (Inr x)
    obtain q u where u: "f x t = (q, u)" by (cases "f x t")
    obtain us where us: "cb_text u = cb_text t @ us" "W (concat us)" "cb_stack u = cb_stack t"
      by (rule emitsE [OF assms(2) u])
    have "cb_text u = cb_text s @ (ts @ us)" "W (concat (ts @ us))" "cb_stack u = cb_stack s"
      using ts us W_append by simp_all
    then show ?thesis using m u Inr by (auto simp: bindA_def simp del: concat_append)
  qed
qed

lemma emits_seq: "emits W m \<Longrightarrow> emits W k \<Longrightarrow> emits W (seqA m k)"
  unfolding seqA_def by (rule emits_bind)

lemma emits_when: "(b \<Longrightarrow> emits W m) \<Longrightarrow> emits W (whenA b m)"
  by (cases b) (simp_all add: emits_ret)

lemma emits_if:
  "(b \<Longrightarrow> emits W m) \<Longrightarrow> (\<not> b \<Longrightarrow> emits W k) \<Longrightarrow> emits W (if b then m else k)"
  by simp

lemma emits_option:
  "(z = None \<Longrightarrow> emits W m) \<Longrightarrow> (\<And>x. z = Some x \<Longrightarrow> emits W (f x)) \<Longrightarrow>
   emits W (case z of None \<Rightarrow> m | Some x \<Rightarrow> f x)"
  by (cases z) simp_all

lemma emits_let: "(\<And>x. x = v \<Longrightarrow> emits W (f x)) \<Longrightarrow> emits W (let x = v in f x)"
  by simp

lemma emits_for: "(\<And>x. x \<in> set xs \<Longrightarrow> emits W (f x)) \<Longrightarrow> emits W (forA xs f)"
  by (induction xs) (auto intro: emits_ret emits_seq)

lemma emits_try:
  assumes "emits W m" and "\<And>e. emits W (h e)"
  shows "emits W (tryA m h)"
  unfolding emits_def
proof
  fix s
  obtain r t where m: "m s = (r, t)" by (cases "m s")
  obtain ts where ts: "cb_text t = cb_text s @ ts" "W (concat ts)" "cb_stack t = cb_stack s"
    by (rule emitsE [OF assms(1) m])
  show "\<exists>ts. cb_text (snd (tryA m h s)) = cb_text s @ ts \<and> W (concat ts) \<and>
      cb_stack (snd (tryA m h s)) = cb_stack s"
  proof (cases r)
    case (Inl e)
    obtain q u where u: "h e t = (q, u)" by (cases "h e t")
    obtain us where us: "cb_text u = cb_text t @ us" "W (concat us)" "cb_stack u = cb_stack t"
      by (rule emitsE [OF assms(2) u])
    have "cb_text u = cb_text s @ (ts @ us)" "W (concat (ts @ us))" "cb_stack u = cb_stack s"
      using ts us W_append by simp_all
    then show ?thesis using m u Inl by (auto simp: tryA_def simp del: concat_append)
  next
    case (Inr x)
    with m ts show ?thesis by (auto simp: tryA_def)
  qed
qed

lemma emits_with_block:
  assumes "good_name t" and "\<And>b. set (blk_indent b) \<subseteq> {CHR '' ''} \<Longrightarrow> emits W (body b)"
  shows "emits W (with_block t body)"
  unfolding emits_def
proof
  fix s
  define b where "b = cb_init t s"
  define s1 where "s1 = s\<lparr>cb_stack := b # cb_stack s,
    cb_text := cb_text s @ [blk_indent b @ t @ '' {'' @ NL]\<rparr>"
  have ent: "cb_enter t s = (Inr b, s1)"
    by (simp add: cb_enter_def b_def s1_def write_no_indent_def seqA_def bindA_def modA_def ret_def)
  have ind: "set (blk_indent b) \<subseteq> {CHR '' ''}"
    by (auto simp: b_def cb_init_def)
  obtain r u where u: "body b s1 = (r, u)" by (cases "body b s1")
  obtain us where us: "cb_text u = cb_text s1 @ us" "W (concat us)" "cb_stack u = cb_stack s1"
    by (rule emitsE [OF assms(2) [OF ind] u])
  define u1 where "u1 = u\<lparr>cb_text := cb_text u @ [blk_indent b @ ''}'' @ NL @ NL],
    cb_stack := cb_stack s\<rparr>"
  have ext: "cb_exit b u = (Inr (), u1)"
    using us by (simp add: cb_exit_def write_no_indent_def s1_def u1_def)
  have res: "snd (with_block t body s) = u1"
    by (simp add: with_block_def bindA_def ent finallyA_def u ext split: sum.splits)
  define ts where
    "ts = [blk_indent b @ t @ '' {'' @ NL] @ us @ [blk_indent b @ ''}'' @ NL @ NL]"
  have "W (concat ts)"
    using W_block [OF assms(1) us(2) ind] by (simp add: ts_def)
  moreover have "cb_text u1 = cb_text s @ ts"
    using us by (simp add: u1_def s1_def ts_def)
  moreover have "cb_stack u1 = cb_stack s" by (simp add: u1_def)
  ultimately show "\<exists>ts. cb_text (snd (with_block t body s)) = cb_text s @ ts \<and> W (concat ts) \<and>
      cb_stack (snd (with_block t body s)) = cb_stack s"
    unfolding res by blast
qed

lemma emits_write:
  assumes "set (blk_indent b) \<subseteq> {CHR '' ''}"
    and "\<And>l ind nl. pct_format d = Inr l \<Longrightarrow> set ind \<subseteq> {CHR '' ''} \<Longrightarrow>
      nl = (if l \<noteq> [] \<and> last l = CHR 0x0A then [] else NL) \<Longrightarrow> W (ind @ l @ nl)"
  shows "emits W (cb_write b d)"
  unfolding emits_def
proof
  fix s
  show "\<exists>ts. cb_text (snd (cb_write b d s)) = cb_text s @ ts \<and> W (concat ts) \<and>
      cb_stack (snd (cb_write b d s)) = cb_stack s"
  proof (cases "pct_format d")
    case (Inl e)
    with W_nil show ?thesis by (simp add: cb_write_def bindA_def)
  next
    case (Inr l)
    have "W ((blk_indent b @ INDENT) @ l @ (if l \<noteq> [] \<and> last l = CHR 0x0A then [] else NL))"
      using assms(1) by (intro assms(2) [OF Inr]) auto
    with Inr show ?thesis
      by (auto simp: cb_write_def bindA_def write_no_indent_def Let_def)
  qed
qed

lemmas emits_rules = emits_ret emits_raise emits_lift emits_get emits_bind emits_seq emits_when
  emits_if emits_option emits_let emits_for emits_try emits_with_block

end

section \<open>Balanced braces\<close>

fun nest :: "nat \<Rightarrow> string \<Rightarrow> nat option" where
  "nest d [] = Some d"
| "nest d (c # cs) =
     (if c = CHR ''{'' then nest (Suc d) cs
      else if c = CHR ''}'' then (case d of 0 \<Rightarrow> None | Suc e \<Rightarrow> nest e cs)
      else nest d cs)"

definition balanced :: "string \<Rightarrow> bool" where
  "balanced s \<longleftrightarrow> nest 0 s = Some 0"

definition no_braces :: "string \<Rightarrow> bool" where
  "no_braces s \<longleftrightarrow> CHR ''{'' \<notin> set s \<and> CHR ''}'' \<notin> set s"

lemma nest_append: "nest d (s @ t) = Option.bind (nest d s) (\<lambda>e. nest e t)"
  by (induction s arbitrary: d) (auto split: nat.splits)

lemma nest_shift: "nest d s = Some e \<Longrightarrow> nest (d + k) s = Some (e + k)"
proof (induction s arbitrary: d)
  case (Cons c s)
  show ?case
  proof (cases "c = CHR ''{''")
    case True
    with Cons.prems Cons.IH [of "Suc d"] show ?thesis by simp
  next
    case False
    note c = this
    show ?thesis
    proof (cases "c = CHR ''}''")
      case True
      with c Cons.prems Cons.IH show ?thesis by (cases d) auto
    next
      case False
      with c Cons.prems Cons.IH show ?thesis by simp
    qed
  qed
qed simp

lemma nest_balanced: "balanced s \<Longrightarrow> nest d (s @ t) = nest d t"
  using nest_shift [of 0 s 0 d] by (simp add: balanced_def nest_append)

lemma nest_no_braces: "no_braces s \<Longrightarrow> nest d (s @ t) = nest d t"
  by (induction s) (auto simp: no_braces_def)

lemma balanced_no_braces: "no_braces s \<Longrightarrow> balanced s"
  using nest_no_braces [of s 0 "[]"] by (simp add: balanced_def)

lemma balanced_nil [simp]: "balanced []"
  by (simp add: balanced_def)

lemma balanced_append: "balanced s \<Longrightarrow> balanced t \<Longrightarrow> balanced (s @ t)"
  by (simp add: balanced_def nest_append)

lemma no_braces_spaces: "set ind \<subseteq> {CHR '' ''} \<Longrightarrow> no_braces ind"
  by (auto simp: no_braces_def)

lemma no_braces_append [simp]: "no_braces (s @ t) \<longleftrightarrow> no_braces s \<and> no_braces t"
  by (auto simp: no_braces_def)

lemma no_braces_Cons [simp]:
  "no_braces (c # s) \<longleftrightarrow> c \<noteq> CHR ''{'' \<and> c \<noteq> CHR ''}'' \<and> no_braces s"
  by (auto simp: no_braces_def)

lemma no_braces_Nil [simp]: "no_braces []"
  by (simp add: no_braces_def)

lemma no_braces_str_nat [simp]: "no_braces (str_nat n)"
  using str_nat_no_char [of "CHR ''{''" n] str_nat_no_char [of "CHR ''}''" n]
  by (simp add: no_braces_def is_digit_def)

interpretation braces: block_text balanced no_braces
proof unfold_locales
  fix t body ind
  assume t: "no_braces t" and b: "balanced body" and i: "set ind \<subseteq> {CHR '' ''}"
  then have "nest 1 (body @ ind @ ''}'' @ NL @ NL) = Some 0"
    by (simp add: nest_balanced nest_no_braces no_braces_spaces)
  with t i show "balanced (ind @ t @ '' {'' @ NL @ body @ ind @ ''}'' @ NL @ NL)"
    unfolding balanced_def
    by (simp add: nest_no_braces no_braces_spaces)
qed (simp_all add: balanced_append)

text \<open>Every line of a configuration ends with a newline.\<close>

definition whole_lines :: "string \<Rightarrow> bool" where
  "whole_lines s \<longleftrightarrow> s = [] \<or> last s = CHR 0x0A"

interpretation lines: block_text whole_lines "\<lambda>_. True"
  by unfold_locales (auto simp: whole_lines_def last_append)

text \<open>Formatting without a percent sign is the identity, and braces survive it.\<close>

lemma pct_format_plain: "CHR ''%'' \<notin> set s \<Longrightarrow> pct_format s = Inr s"
  by (induction s) auto

lemma emits_write_balanced:
  assumes "set (blk_indent b) \<subseteq> {CHR '' ''}"
    and "\<And>l. pct_format d = Inr l \<Longrightarrow> balanced l"
  shows "emits balanced (cb_write b d)"
proof (rule braces.emits_write [OF assms(1)])
  fix l ind nl :: string
  assume l: "pct_format d = Inr l" and ind: "set ind \<subseteq> {CHR '' ''}"
    and nl: "nl = (if l \<noteq> [] \<and> last l = CHR 0x0A then [] else NL)"
  have "balanced ind" using ind by (intro balanced_no_braces no_braces_spaces)
  moreover have "balanced nl" by (rule balanced_no_braces) (simp add: nl)
  ultimately show "balanced (ind @ l @ nl)"
    using assms(2) [OF l] by (intro balanced_append)
qed

lemma emits_write_lines:
  assumes "set (blk_indent b) \<subseteq> {CHR '' ''}"
  shows "emits whole_lines (cb_write b d)"
proof (rule lines.emits_write [OF assms])
  fix l ind nl :: string
  assume "nl = (if l \<noteq> [] \<and> last l = CHR 0x0A then [] else NL)"
  then show "whole_lines (ind @ l @ nl)" by (simp add: whole_lines_def last_append split: if_splits)
qed

section \<open>Statements that cannot fail\<close>

definition total :: "(cb_state, 'a) act \<Rightarrow> bool" where
  "total m \<longleftrightarrow> (\<forall>s. \<exists>x t. m s = (Inr x, t) \<and> cb_stack t = cb_stack s)"

named_theorems total_rules \<open>statements on configuration blocks that cannot fail\<close>

lemma total_ret [total_rules]: "total (ret x)"
  by (simp add: total_def)

lemma total_bind [total_rules]: "total m \<Longrightarrow> (\<And>x. total (f x)) \<Longrightarrow> total (bindA m f)"
  unfolding total_def by (metis bind_ok)

lemma total_seq [total_rules]: "total m \<Longrightarrow> total k \<Longrightarrow> total (seqA m k)"
  unfolding seqA_def by (rule total_bind)

lemma total_for [total_rules]: "(\<And>x. x \<in> set xs \<Longrightarrow> total (f x)) \<Longrightarrow> total (forA xs f)"
  by (induction xs) (auto intro!: total_rules)

lemma total_when [total_rules]: "(b \<Longrightarrow> total m) \<Longrightarrow> total (whenA b m)"
  by (cases b) (simp_all add: total_ret)

lemma total_if [total_rules]:
  "(b \<Longrightarrow> total m) \<Longrightarrow> (\<not> b \<Longrightarrow> total k) \<Longrightarrow> total (if b then m else k)"
  by simp

lemma total_option [total_rules]:
  "(z = None \<Longrightarrow> total m) \<Longrightarrow> (\<And>x. z = Some x \<Longrightarrow> total (f x)) \<Longrightarrow>
   total (case z of None \<Rightarrow> m | Some x \<Rightarrow> f x)"
  by (cases z) simp_all

lemma total_try [total_rules]: "total m \<Longrightarrow> total (tryA m h)"
  unfolding total_def tryA_def by (metis (mono_tags, lifting) case_prod_conv sum.case(2))

lemma total_write_no_indent [total_rules]: "total (write_no_indent t)"
  by (simp add: total_def write_no_indent_def)

text \<open>The body of a block leaves the stack as it found it, so the block's exit finds itself on top.\<close>

lemma total_with_block [total_rules]:
  assumes "\<And>b. total (body b)"
  shows "total (with_block t body)"
  unfolding total_def
proof
  fix s
  define b where "b = cb_init t s"
  define s1 where "s1 = s\<lparr>cb_stack := b # cb_stack s, cb_text := cb_text s @ [blk_indent b @ t @ '' {'' @ NL]\<rparr>"
  have enter: "cb_enter t s = (Inr b, s1)"
    by (simp add: cb_enter_def write_no_indent_def s1_def b_def)
  have st: "cb_stack s1 = b # cb_stack s" by (simp add: s1_def)
  obtain x s2 where body: "body b s1 = (Inr x, s2)" "cb_stack s2 = b # cb_stack s"
    using assms [of b] st unfolding total_def by metis
  have "\<exists>s3. cb_exit b s2 = (Inr (), s3) \<and> cb_stack s3 = cb_stack s"
    using body(2) by (simp add: cb_exit_def write_no_indent_def)
  then show "\<exists>x u. with_block t body s = (Inr x, u) \<and> cb_stack u = cb_stack s"
    using enter body(1) by (auto simp: with_block_def bind_ok finallyA_def)
qed

definition no_pct :: "string \<Rightarrow> bool" where
  "no_pct s \<longleftrightarrow> CHR ''%'' \<notin> set s"

lemma no_pct_simps [simp]:
  "no_pct []" "no_pct (c # s) \<longleftrightarrow> c \<noteq> CHR ''%'' \<and> no_pct s" "no_pct (s @ t) \<longleftrightarrow> no_pct s \<and> no_pct t"
  by (auto simp: no_pct_def)

lemma no_pct_str_nat [simp]: "no_pct (str_nat k)"
  using str_nat_no_char [of "CHR ''%''"] by (simp add: no_pct_def is_digit_def)

lemma pct_format_no_pct: "no_pct s \<Longrightarrow> pct_format s = Inr s"
  by (induction s) auto

lemma total_write: "no_pct d \<Longrightarrow> total (cb_write b d)"
  unfolding cb_write_def Let_def
  by (simp add: pct_format_no_pct total_def write_no_indent_def bindA_def)

end
