(* ===== verification/Node_Config.thy ===== *)
theory Node_Config
  imports Storage Config_Block
begin

text \<open>
  The configuration file of a node and how it reaches the host: \<open>Node.config\<close> and its
  helpers, \<open>Node.update_config\<close>, \<open>Node.run\<close> and \<open>Node.drbdadm\<close> of
  \<open>src/python/drbdtest.py\<close>. Generating the text reads the state and writes through
  \<open>ConfigBlock\<close>; it sends no command. The lemmas show that the text is well nested, and
  what the flag \<open>config_changed\<close> guarantees about the file on the host.
\<close>

section \<open>Generating the text\<close>

abbreviation host_of :: "world \<Rightarrow> nref \<Rightarrow> host" where
  "host_of w n \<equiv> hosts w (node_host (nodes w n))"

abbreviation res_of :: "world \<Rightarrow> nref \<Rightarrow> resource" where
  "res_of w n \<equiv> ress w (node_resource (nodes w n))"

abbreviation node_list :: "world \<Rightarrow> rref \<Rightarrow> nref list" where
  "node_list w r \<equiv> items (res_nodes (ress w r))"

definition is_v9 :: "host \<Rightarrow> bool" where
  "is_v9 h \<longleftrightarrow> \<not> version_less (drbd_version_tuple h) (9, 0, 0)"

definition disk_path :: "volume \<Rightarrow> string option" where
  "disk_path v = map_option volume_path (vol_disk v)"

definition meta_path :: "volume \<Rightarrow> string option" where
  "meta_path v = map_option volume_path (vol_meta v)"

text \<open>\<open>x or d\<close> for an optional string.\<close>

definition or_else :: "string option \<Rightarrow> string \<Rightarrow> string" where
  "or_else x d = (case x of None \<Rightarrow> d | Some s \<Rightarrow> if s = [] then d else s)"

definition truthy_str :: "string option \<Rightarrow> bool" where
  "truthy_str x \<longleftrightarrow> x \<noteq> None \<and> x \<noteq> Some []"

definition device_for_config :: "world \<Rightarrow> vref \<Rightarrow> string" where
  "device_for_config w v =
     (case platform_helper (host_of w (vol_node (vols w v))) of
        LinuxPlatform \<Rightarrow> ''/dev/drbd'' @ str_nat (vol_minor (vols w v))
      | WindowsPlatform \<Rightarrow> ''minor '' @ str_nat (vol_minor (vols w v)))"

definition config_one_host_addr :: "world \<Rightarrow> nref \<Rightarrow> block \<Rightarrow> string \<Rightarrow> (cb_state, unit) act" where
  "config_one_host_addr w n b a =
     cb_write b (''host '' @ node_name (nodes w n) @ '' address '' @ a @ '':'' @
       str_nat (node_port (nodes w n)) @ '';'')"

definition config_proxy_host :: "world \<Rightarrow> nat \<Rightarrow> nref \<Rightarrow> (cb_state, unit) act" where
  "config_proxy_host w port n =
     with_block (''host '' @ node_name (nodes w n) @ '' address 127.0.0.1:'' @
         str_nat (node_port (nodes w n)) @ '' via proxy on '' @ node_name (nodes w n)) (\<lambda>b.
       seqA (cb_write b (''inside 127.0.0.2:'' @ str_nat port @ '';''))
      (bindA (liftA (list_item (addrs (host_of w n)) 0)) (\<lambda>a.
        cb_write b (''outside ipv4 '' @ a @ '':'' @ str_nat port @ '';''))))"

definition config_one_connection ::
  "world \<Rightarrow> nref \<Rightarrow> nref \<Rightarrow> nref \<Rightarrow> (cb_state, unit) act" where
  "config_one_connection w self n1 n2 =
     with_block ''connection'' (\<lambda>_.
       let port = node_port (nodes w self) in
       if proxy_enable w then
         seqA (config_proxy_host w port n1)
        (seqA (config_proxy_host w port n2)
              (with_block ''net'' (\<lambda>b. cb_write b ''protocol A;'')))
       else
         seqA (with_block ''net'' (\<lambda>_. ret ()))
           (forA (zip (addrs (host_of w n1)) (addrs (host_of w n2))) (\<lambda>(a1, a2).
              with_block ''path'' (\<lambda>b.
                seqA (config_one_host_addr w n1 b a1) (config_one_host_addr w n2 b a2)))))"

text \<open>The nested loop of \<open>_config_conns_9\<close>: each node with every node after it.\<close>

fun node_pairs :: "'a list \<Rightarrow> ('a \<times> 'a) list" where
  "node_pairs [] = []"
| "node_pairs (x # xs) = map (Pair x) xs @ node_pairs xs"

definition config_conns_9 :: "world \<Rightarrow> nref \<Rightarrow> (cb_state, unit) act" where
  "config_conns_9 w self =
     forA (node_pairs (items (res_nodes (res_of w self)))) (\<lambda>(n1, n2).
       config_one_connection w self n1 n2)"

definition config_volume :: "world \<Rightarrow> nat \<times> vref \<Rightarrow> (cb_state, unit) act" where
  "config_volume w = (\<lambda>(index, v).
     let d = vols w v in
     with_block (''volume '' @ str_nat index) (\<lambda>b.
       seqA (cb_write b (''device '' @ device_for_config w v @ '';''))
      (seqA (cb_write b (''disk '' @ or_else (disk_path d) ''none'' @ '';''))
      (seqA (whenA (truthy_str (disk_path d))
               (cb_write b (''meta-disk '' @ or_else (meta_path d) ''internal'' @ '';'')))
            (case tiebreaker d of
               None \<Rightarrow> ret ()
             | Some t \<Rightarrow> cb_write b (''tiebreaker '' @ (if t then ''yes'' else ''no'') @ '';''))))))"

definition config_host :: "world \<Rightarrow> nref \<Rightarrow> nref \<Rightarrow> (cb_state, unit) act" where
  "config_host w self n =
     with_block (''on '' @ hostname (host_of w n)) (\<lambda>b.
       seqA (if is_v9 (host_of w self)
             then cb_write b (''node-id '' @ str_nat (node_id (nodes w n)) @ '';'')
             else cb_write b (''address '' @ addr (host_of w n) @ '':'' @
                    str_nat (node_port (nodes w n)) @ '';''))
            (forA (enumerate 0 (disks (nodes w n))) (config_volume w)))"

definition config_disk_block :: "world \<Rightarrow> nref \<Rightarrow> (cb_state, unit) act" where
  "config_disk_block w self =
     (let h = host_of w self; r = res_of w self; fm = fencing_mode (nodes w self) in
      with_block ''disk'' (\<lambda>b.
        seqA (cb_write b ''disk-flushes no;'')
       (seqA (cb_write b ''md-flushes no;'')
       (seqA (whenA (\<not> substr ''c-min-rate'' (disk_options r) \<and> os_id h = ''ubuntu'' \<and>
                     os_version_id h = ''18.04'')
                (cb_write b ''c-min-rate 0;''))
       (seqA (whenA (fm \<noteq> [] \<and> \<not> is_v9 h) (cb_write b (''fencing '' @ fm @ '';'')))
             (cb_write b (disk_options r)))))))"

definition config_net_block :: "world \<Rightarrow> nref \<Rightarrow> (cb_state, unit) act" where
  "config_net_block w self =
     (let h = host_of w self; r = res_of w self; fm = fencing_mode (nodes w self) in
      with_block ''net'' (\<lambda>b.
        seqA (whenA (truthy_str (res_transport r))
                (cb_write b (''transport '' @ [DQUOTE] @ the (res_transport r) @ [DQUOTE] @ '';'')))
       (seqA (whenA (res_tls r = ''yes'') (cb_write b (''tls '' @ res_tls r @ '';'')))
       (seqA (whenA (fm \<noteq> [] \<and> is_v9 h) (cb_write b (''fencing '' @ fm @ '';'')))
             (cb_write b (net_options r))))))"

definition config_proxy_block :: "world \<Rightarrow> (cb_state, unit) act" where
  "config_proxy_block w =
     with_block ''proxy'' (\<lambda>b.
       whenA (proxy_enable w)
         (seqA (if lz4_enable w then with_block ''plugin'' (\<lambda>p. cb_write p ''lz4;'')
                else whenA (zstd_enable w \<noteq> 0)
                       (with_block ''plugin'' (\<lambda>p.
                          cb_write p (''zstd levels '' @ str_nat (zstd_enable w) @ '';''))))
               (whenA (truthy_opt (memlimit w))
                  (tryA (cb_write b (''memlimit '' @ str_nat (the (memlimit w)) @ '';''))
                     (\<lambda>_. ret ())))))"

definition node_config :: "world \<Rightarrow> nref \<Rightarrow> (cb_state, unit) act" where
  "node_config w self =
     with_block (''resource '' @ res_name (res_of w self)) (\<lambda>_.
       seqA (with_block ''handlers'' (\<lambda>b. cb_write b (handlers (res_of w self))))
      (seqA (with_block ''options'' (\<lambda>b. cb_write b (resource_options (res_of w self))))
      (seqA (config_disk_block w self)
      (seqA (config_net_block w self)
      (seqA (config_proxy_block w)
      (seqA (forA (items (res_nodes (res_of w self))) (config_host w self))
            (whenA (is_v9 (host_of w self)) (config_conns_9 w self))))))))"

text \<open>\<open>Node.config\<close>: the text collected by the outermost block.\<close>

definition config :: "world \<Rightarrow> nref \<Rightarrow> exn + string" where
  "config w n =
     (case node_config w n \<lparr>cb_stack = [], cb_text = []\<rparr> of
        (Inl e, _) \<Rightarrow> Inl e
      | (Inr _, s) \<Rightarrow> Inr (concat (cb_text s)))"

section \<open>Deploying it\<close>

definition path_join :: "string \<Rightarrow> string \<Rightarrow> string" where
  "path_join a b =
     (if b \<noteq> [] \<and> hd b = CHR ''/'' then b
      else if a = [] \<or> last a = CHR ''/'' then a @ b else a @ ''/'' @ b)"

definition drbd_config_file_path :: "world \<Rightarrow> nref \<Rightarrow> string" where
  "drbd_config_file_path w n =
     drbd_config_dir (host_of w n) @ ''/'' @ job w @ ''-'' @ res_name (res_of w n) @ ''.res''"

definition drbd_global_config_file_path :: "world \<Rightarrow> href \<Rightarrow> string" where
  "drbd_global_config_file_path w h = drbd_config_dir (hosts w h) @ ''/'' @ job w @ ''.conf''"

definition deploy_command :: "world \<Rightarrow> nref \<Rightarrow> string list" where
  "deploy_command w n = [''bash'', ''-c'', ''cat > '' @ drbd_config_file_path w n]"

definition update_config :: "environment \<Rightarrow> nref \<Rightarrow> unit prog" where
  "update_config E n = bindA (getA (\<lambda>w. config_changed (nodes w n))) (\<lambda>changed.
     whenA changed
      (seqA (upd_node n (\<lambda>x. x\<lparr>config_changed := False\<rparr>))
      (bindA (getA (\<lambda>w. config w n)) (\<lambda>c.
       bindA (liftA c) (\<lambda>text.
       bindA (getA (\<lambda>w. path_join (logdir w)
                (''drbd.conf-'' @ replace_char (CHR ''/'') ''_'' (res_name (res_of w n)) @ ''-'' @
                 node_name (nodes w n)))) (\<lambda>file.
       seqA (emit (LocalWrite file text))
      (bindA (getA (\<lambda>w. (node_host (nodes w n), deploy_command w n))) (\<lambda>(h, cmd).
       bindA (host_run E h cmd (with_stdin text)) (\<lambda>_. ret ())))))))))"

text \<open>\<open>Node.run\<close> with its \<open>update_config\<close> argument.\<close>

definition node_run ::
  "environment \<Rightarrow> nref \<Rightarrow> bool \<Rightarrow> string list \<Rightarrow> run_opts \<Rightarrow> string option prog" where
  "node_run E n upd cmd opts =
     seqA (whenA upd (update_config E n))
       (bindA (getA (\<lambda>w. node_host (nodes w n))) (\<lambda>h. host_run E h cmd opts))"

definition node_cmd :: "environment \<Rightarrow> nref \<Rightarrow> string list \<Rightarrow> unit prog" where
  "node_cmd E n cmd = bindA (node_run E n True cmd run_defaults) (\<lambda>_. ret ())"

definition node_stdout :: "environment \<Rightarrow> nref \<Rightarrow> string list \<Rightarrow> string prog" where
  "node_stdout E n cmd = bindA (node_run E n True cmd with_stdout) (\<lambda>r.
     case r of None \<Rightarrow> raise TypeError | Some s \<Rightarrow> ret s)"

definition drbdadm_command :: "world \<Rightarrow> nref \<Rightarrow> string list \<Rightarrow> string list" where
  "drbdadm_command w n cmd =
     [''drbdadm'', ''-c'', drbd_global_config_file_path w (node_host (nodes w n)), ''-v''] @ cmd"

definition node_drbdadm :: "environment \<Rightarrow> nref \<Rightarrow> string list \<Rightarrow> unit prog" where
  "node_drbdadm E n cmd = bindA (getA (\<lambda>w. drbdadm_command w n cmd)) (node_cmd E n)"


section \<open>The text is well nested\<close>

definition fmt_balanced :: "string \<Rightarrow> bool" where
  "fmt_balanced s \<longleftrightarrow> (case pct_format s of Inl _ \<Rightarrow> True | Inr l \<Rightarrow> balanced l)"

text \<open>
  What the text takes from outside: names, addresses and paths without braces, and option
  strings whose own braces are balanced.
\<close>

definition volume_ok :: "world \<Rightarrow> vref \<Rightarrow> bool" where
  "volume_ok w v \<longleftrightarrow> no_braces (or_else (disk_path (vols w v)) ''none'') \<and>
     no_braces (or_else (meta_path (vols w v)) ''internal'')"

definition node_ok :: "world \<Rightarrow> nref \<Rightarrow> bool" where
  "node_ok w m \<longleftrightarrow> no_braces (node_name (nodes w m)) \<and> no_braces (hostname (host_of w m)) \<and>
     no_braces (addr (host_of w m)) \<and> list_all no_braces (addrs (host_of w m)) \<and>
     list_all (volume_ok w) (disks (nodes w m))"

definition config_inputs_ok :: "world \<Rightarrow> nref \<Rightarrow> bool" where
  "config_inputs_ok w n \<longleftrightarrow>
     (let r = res_of w n in
      no_braces (res_name r) \<and> fmt_balanced (handlers r) \<and> fmt_balanced (resource_options r) \<and>
      fmt_balanced (disk_options r) \<and> fmt_balanced (net_options r) \<and>
      no_braces (fencing_mode (nodes w n)) \<and> no_braces (or_else (res_transport r) []) \<and>
      list_all (node_ok w) (items (res_nodes r)))"

lemma set_dropWhile: "set (dropWhile P xs) \<subseteq> set xs"
  by (meson set_dropWhileD subsetI)

lemma set_skip_spec: "set (skip_spec s) \<subseteq> set s"
proof -
  define b where "b = dropWhile is_digit (dropWhile (\<lambda>c. c \<in> set ''#0- +'') s)"
  define d where
    "d = (case b of c # r \<Rightarrow> if c = CHR ''.'' then dropWhile is_digit r else b | [] \<Rightarrow> [])"
  have b: "set b \<subseteq> set s"
    unfolding b_def by (rule subset_trans [OF set_dropWhile set_dropWhile])
  have d: "set d \<subseteq> set b"
    using set_dropWhile [of is_digit] by (cases b) (auto simp: d_def)
  have "skip_spec s = (case d of c # r \<Rightarrow> if c \<in> set ''hlL'' then r else d | [] \<Rightarrow> [])"
    unfolding skip_spec_def Let_def b_def [symmetric] d_def [symmetric] by (rule refl)
  then have "set (skip_spec s) \<subseteq> set d"
    by (cases d) (simp_all add: subset_insertI split: if_split)
  with b d show ?thesis by blast
qed

lemma pct_format_set: "pct_format s = Inr l \<Longrightarrow> set l \<subseteq> set s"
proof (induction s arbitrary: l rule: pct_format.induct)
  case (2 c cs)
  show ?case
  proof (cases "c = CHR ''%''")
    case False
    then obtain l' where "pct_format cs = Inr l'" "l = c # l'"
      using "2.prems" by (cases "pct_format cs") auto
    with "2.IH"(1) [OF False] False show ?thesis by auto
  next
    case True
    then obtain r where r: "skip_spec cs = CHR ''%'' # r"
      using "2.prems" by (auto split: list.splits if_splits)
    then obtain l' where l': "pct_format r = Inr l'" "l = CHR ''%'' # l'"
      using "2.prems" True by (cases "pct_format r") auto
    have "set l' \<subseteq> set r" using True r l' by (intro "2.IH"(2)) auto
    then show ?thesis using r l' True set_skip_spec [of cs] by auto
  qed
qed simp

lemma pct_format_no_braces: "no_braces s \<Longrightarrow> pct_format s = Inr l \<Longrightarrow> balanced l"
  using pct_format_set by (intro balanced_no_braces) (auto simp: no_braces_def)

lemma write_no_braces:
  "set (blk_indent b) \<subseteq> {CHR '' ''} \<Longrightarrow> no_braces d \<Longrightarrow> emits balanced (cb_write b d)"
  by (rule emits_write_balanced) (auto intro: pct_format_no_braces)

lemma write_fmt_balanced:
  "set (blk_indent b) \<subseteq> {CHR '' ''} \<Longrightarrow> fmt_balanced d \<Longrightarrow> emits balanced (cb_write b d)"
  by (rule emits_write_balanced) (auto simp: fmt_balanced_def)

lemma no_braces_device: "no_braces (device_for_config w v)"
  by (simp add: device_for_config_def split: platform.splits)

lemma emits_config_volume:
  "volume_ok w v \<Longrightarrow> emits balanced (config_volume w (i, v))"
  unfolding config_volume_def volume_ok_def Let_def prod.case
  by (intro braces.emits_rules write_no_braces) (auto simp: no_braces_device)

lemma emits_config_host:
  assumes "node_ok w n"
  shows "emits balanced (config_host w self n)"
  unfolding config_host_def
proof (intro braces.emits_rules write_no_braces)
  fix x assume "x \<in> set (enumerate 0 (disks (nodes w n)))"
  then have "snd x \<in> set (disks (nodes w n))"
    by (metis enumerate_eq_zip prod.collapse set_zip_rightD)
  with assms have "volume_ok w (snd x)" by (auto simp: node_ok_def list_all_iff)
  then show "emits balanced (config_volume w x)"
    using emits_config_volume by (metis prod.collapse)
qed (use assms in \<open>auto simp: node_ok_def\<close>)

lemma emits_config_proxy_host:
  assumes "node_ok w n"
  shows "emits balanced (config_proxy_host w port n)"
proof (cases "addrs (host_of w n)")
  case Nil
  then have "liftA (list_item (addrs (host_of w n)) 0) = (raise IndexError :: (cb_state, string) act)"
    by (auto simp: list_item_def liftA_def raise_def)
  with assms show ?thesis
    unfolding config_proxy_host_def
    by (auto intro!: braces.emits_rules write_no_braces simp: node_ok_def)
next
  case (Cons a as)
  with assms have a: "no_braces a" by (simp add: node_ok_def)
  have "liftA (list_item (addrs (host_of w n)) 0) = (ret a :: (cb_state, string) act)"
    using Cons by (auto simp: list_item_def liftA_def ret_def)
  with assms a show ?thesis
    unfolding config_proxy_host_def
    by (auto intro!: braces.emits_rules write_no_braces simp: node_ok_def)
qed

lemma emits_config_one_connection:
  assumes "node_ok w n1" and "node_ok w n2"
  shows "emits balanced (config_one_connection w self n1 n2)"
proof -
  have path: "emits balanced (with_block ''path'' (\<lambda>b.
      seqA (config_one_host_addr w n1 b a1) (config_one_host_addr w n2 b a2)))"
    if "(a1, a2) \<in> set (zip (addrs (host_of w n1)) (addrs (host_of w n2)))" for a1 a2
    using that assms set_zip_leftD [OF that] set_zip_rightD [OF that]
    unfolding config_one_host_addr_def
    by (intro braces.emits_rules write_no_braces) (auto simp: node_ok_def list_all_iff)
  show ?thesis
    unfolding config_one_connection_def using path
    by (intro braces.emits_rules write_no_braces emits_config_proxy_host)
      (auto simp: assms split: prod.splits)
qed

lemma set_node_pairs: "(a, b) \<in> set (node_pairs xs) \<Longrightarrow> a \<in> set xs \<and> b \<in> set xs"
  by (induction xs) auto

lemma emits_node_config:
  assumes "config_inputs_ok w n"
  shows "emits balanced (node_config w n)"
proof -
  have tr: "truthy_str x \<Longrightarrow> or_else x [] = the x" for x
    by (auto simp: truthy_str_def or_else_def split: option.splits)
  have conns: "emits balanced (config_conns_9 w n)"
    unfolding config_conns_9_def using assms
    by (intro braces.emits_for)
      (auto intro!: emits_config_one_connection dest!: set_node_pairs
        simp: config_inputs_ok_def Let_def list_all_iff)
  have disk: "emits balanced (config_disk_block w n)"
    unfolding config_disk_block_def Let_def
    by (intro braces.emits_rules write_no_braces write_fmt_balanced)
      (use assms in \<open>auto simp: config_inputs_ok_def Let_def\<close>)
  have net: "emits balanced (config_net_block w n)"
    unfolding config_net_block_def Let_def
    by (intro braces.emits_rules write_no_braces write_fmt_balanced)
      (use assms in \<open>auto simp: config_inputs_ok_def Let_def tr [symmetric]\<close>)
  have proxy: "emits balanced (config_proxy_block w)"
    unfolding config_proxy_block_def
    by (intro braces.emits_rules write_no_braces) auto
  show ?thesis
    unfolding node_config_def
    by (intro braces.emits_rules write_no_braces write_fmt_balanced conns disk net proxy
        emits_config_host)
      (use assms in \<open>auto simp: config_inputs_ok_def Let_def list_all_iff\<close>)
qed

lemma emits_lines_node_config: "emits whole_lines (node_config w n)"
  unfolding node_config_def config_conns_9_def config_disk_block_def config_net_block_def
    config_proxy_block_def config_host_def config_volume_def config_one_connection_def
    config_proxy_host_def config_one_host_addr_def Let_def split_beta
  by (intro lines.emits_rules emits_write_lines TrueI; assumption?)

lemma config_emits:
  assumes "emits W (node_config w n)" and "config w n = Inr t"
  shows "W t"
proof -
  obtain r u where u: "node_config w n \<lparr>cb_stack = [], cb_text = []\<rparr> = (r, u)"
    by (cases "node_config w n \<lparr>cb_stack = [], cb_text = []\<rparr>")
  obtain ts where "cb_text u = [] @ ts" "W (concat ts)"
    using emitsE [OF assms(1) u] by auto
  with assms(2) u show ?thesis by (auto simp: config_def split: sum.splits)
qed

section \<open>Generating it succeeds\<close>

text \<open>
  \<open>write\<close> formats every line with no arguments, so a percent sign in a name, a path or an
  option string can make the generation fail. Without one it always succeeds (with the proxy
  enabled, provided that every node has an address).
\<close>

definition volume_plain :: "world \<Rightarrow> vref \<Rightarrow> bool" where
  "volume_plain w v \<longleftrightarrow> no_pct (or_else (disk_path (vols w v)) ''none'') \<and>
     no_pct (or_else (meta_path (vols w v)) ''internal'')"

definition node_plain :: "world \<Rightarrow> nref \<Rightarrow> bool" where
  "node_plain w m \<longleftrightarrow> no_pct (node_name (nodes w m)) \<and>
     no_pct (addr (host_of w m)) \<and> list_all no_pct (addrs (host_of w m)) \<and>
     (proxy_enable w \<longrightarrow> addrs (host_of w m) \<noteq> []) \<and>
     list_all (volume_plain w) (disks (nodes w m))"

definition config_plain :: "world \<Rightarrow> nref \<Rightarrow> bool" where
  "config_plain w n \<longleftrightarrow>
     (let r = res_of w n in
      no_pct (handlers r) \<and> no_pct (resource_options r) \<and> no_pct (disk_options r) \<and>
      no_pct (net_options r) \<and> no_pct (fencing_mode (nodes w n)) \<and>
      no_pct (or_else (res_transport r) []) \<and> list_all (node_plain w) (items (res_nodes r)))"

lemma no_pct_device: "no_pct (device_for_config w v)"
  by (simp add: device_for_config_def split: platform.splits)

lemma total_config_volume: "volume_plain w v \<Longrightarrow> total (config_volume w (i, v))"
  unfolding config_volume_def volume_plain_def Let_def prod.case
  by (intro total_rules total_write) (auto simp: no_pct_device)

lemma total_config_host:
  assumes "node_plain w n"
  shows "total (config_host w self n)"
  unfolding config_host_def
proof (intro total_rules total_write)
  fix x assume "x \<in> set (enumerate 0 (disks (nodes w n)))"
  then have "snd x \<in> set (disks (nodes w n))"
    by (metis enumerate_eq_zip prod.collapse set_zip_rightD)
  with assms have "volume_plain w (snd x)" by (auto simp: node_plain_def list_all_iff)
  then show "total (config_volume w x)" using total_config_volume by (metis prod.collapse)
qed (use assms in \<open>auto simp: node_plain_def\<close>)

lemma total_config_proxy_host:
  assumes "node_plain w n" and "proxy_enable w"
  shows "total (config_proxy_host w port n)"
proof -
  obtain a as where a: "addrs (host_of w n) = a # as"
    using assms by (cases "addrs (host_of w n)") (auto simp: node_plain_def)
  then have "liftA (list_item (addrs (host_of w n)) 0) = (ret a :: (cb_state, string) act)"
    by (auto simp: list_item_def liftA_def ret_def)
  with assms a show ?thesis
    unfolding config_proxy_host_def
    by (auto intro!: total_rules total_write simp: node_plain_def)
qed

lemma total_config_one_connection:
  assumes "node_plain w n1" and "node_plain w n2"
  shows "total (config_one_connection w self n1 n2)"
proof -
  have path: "total (with_block ''path'' (\<lambda>b.
      seqA (config_one_host_addr w n1 b a1) (config_one_host_addr w n2 b a2)))"
    if "(a1, a2) \<in> set (zip (addrs (host_of w n1)) (addrs (host_of w n2)))" for a1 a2
    using that assms set_zip_leftD [OF that] set_zip_rightD [OF that]
    unfolding config_one_host_addr_def
    by (intro total_rules total_write) (auto simp: node_plain_def list_all_iff)
  show ?thesis
    unfolding config_one_connection_def Let_def using path
    by (intro total_rules total_write total_config_proxy_host)
      (auto simp: assms split: prod.splits)
qed

lemma config_total:
  assumes "config_plain w n"
  shows "\<exists>t. config w n = Inr t"
proof -
  have tr: "truthy_str x \<Longrightarrow> or_else x [] = the x" for x
    by (auto simp: truthy_str_def or_else_def split: option.splits)
  have conns: "total (config_conns_9 w n)"
    unfolding config_conns_9_def using assms
    by (intro total_for)
      (auto intro!: total_config_one_connection dest!: set_node_pairs
        simp: config_plain_def Let_def list_all_iff)
  have disk: "total (config_disk_block w n)"
    unfolding config_disk_block_def Let_def
    by (intro total_rules total_write) (use assms in \<open>auto simp: config_plain_def Let_def\<close>)
  have net: "total (config_net_block w n)"
    unfolding config_net_block_def Let_def
    by (intro total_rules total_write)
      (use assms in \<open>auto simp: config_plain_def Let_def tr [symmetric]\<close>)
  have proxy: "total (config_proxy_block w)"
    unfolding config_proxy_block_def by (intro total_rules total_write) auto
  have "total (node_config w n)"
    unfolding node_config_def
    by (intro total_rules total_write conns disk net proxy total_config_host)
      (use assms in \<open>auto simp: config_plain_def Let_def list_all_iff\<close>)
  then obtain x t where "node_config w n \<lparr>cb_stack = [], cb_text = []\<rparr> = (Inr x, t)"
    unfolding total_def by blast
  then show ?thesis by (simp add: config_def)
qed

lemma config_plain_two_nodes: "config_plain two_nodes n"
  by (simp add: config_plain_def two_nodes_def empty_cluster_def sample_host_def node_plain_def
      or_else_def items_init_eq)

section \<open>Connections in the configuration\<close>

lemma node_pairs_unordered:
  assumes "distinct xs" and "a \<in> set xs" and "b \<in> set xs" and "a \<noteq> b"
  shows "count_list (node_pairs xs) (a, b) + count_list (node_pairs xs) (b, a) = 1"
proof -
  have zero: "a \<notin> set ys \<Longrightarrow> count_list (node_pairs ys) (a, b) = 0"
    "b \<notin> set ys \<Longrightarrow> count_list (node_pairs ys) (a, b) = 0" for a b :: 'a and ys
    using set_node_pairs by (fastforce simp: count_list_0_iff)+
  have one: "count_list (map (Pair x) ys) (x, b) = (if b \<in> set ys then 1 else 0)"
    if "distinct ys" for x b :: 'a and ys
    using that by (induction ys) auto
  have other: "x \<noteq> a \<Longrightarrow> count_list (map (Pair x) ys) (a, b) = 0" for x a b :: 'a and ys
    by (induction ys) auto
  show ?thesis
    using assms
  proof (induction xs)
    case (Cons x xs)
    consider "x = a" | "x = b" | "x \<noteq> a" "x \<noteq> b" by blast
    then show ?case
      by cases (use Cons in \<open>auto simp: one other zero\<close>)
  qed simp
qed

lemma length_node_pairs: "2 * length (node_pairs xs) = length xs * (length xs - 1)"
proof (induction xs)
  case (Cons x xs)
  then show ?case by (cases xs) (auto simp: algebra_simps)
qed simp

section \<open>The configuration file\<close>


lemma config_inputs_ok_two_nodes: "config_inputs_ok two_nodes n"
  by (simp add: config_inputs_ok_def two_nodes_def empty_cluster_def sample_host_def node_ok_def
      or_else_def items_init_eq fmt_balanced_def Let_def)




section \<open>A deployment that fails\<close>

text \<open>
  C35: A failed \<open>update_config\<close>, whether the text could not be generated or the host could not
  store it, is not repeated: the node is marked as up to date before the file is written, so
  the next call does nothing and later commands run with the old file.
\<close>
theorem failed_update_forgotten:
  assumes "update_config E n w = (Inl e, w')"
  shows "\<not> config_changed (nodes w' n) \<and> update_config E n w' = (Inr (), w')"
proof -
  have ch: "config_changed (nodes w n)" using assms by (cases "config_changed (nodes w n)") (simp_all add: update_config_def)
  define w1 where "w1 = snd (upd_node n (\<lambda>x. x\<lparr>config_changed := False\<rparr>) w)"
  have w1: "upd_node n (\<lambda>x. x\<lparr>config_changed := False\<rparr>) w = (Inr (), w1)"
    by (simp add: w1_def upd_node_def)
  obtain m :: "unit prog" where m: "update_config E n w = m w1" "only_effects m"
  proof
    let ?m = "bindA (getA (\<lambda>w. config w n)) (\<lambda>c.
       bindA (liftA c) (\<lambda>text.
       bindA (getA (\<lambda>w. path_join (logdir w)
                (''drbd.conf-'' @ replace_char (CHR ''/'') ''_'' (res_name (res_of w n)) @ ''-'' @
                 node_name (nodes w n)))) (\<lambda>file.
       seqA (emit (LocalWrite file text))
      (bindA (getA (\<lambda>w. (node_host (nodes w n), deploy_command w n))) (\<lambda>(h, cmd).
       bindA (host_run E h cmd (with_stdin text)) (\<lambda>_. ret ()))))))"
    show "update_config E n w = ?m w1"
      using ch w1 by (simp add: update_config_def seq_ok)
    show "only_effects ?m" by (intro effect_rules)
  qed
  have "objects w' = objects w1" using effects_objects [OF m(2)] m(1) assms by metis
  then have "nodes w' = nodes w1" by (rule objects_eqD)
  moreover have "\<not> config_changed (nodes w1 n)" by (simp add: w1_def upd_node_def)
  ultimately show ?thesis by (simp add: update_config_def)
qed

lemma host_run_status:
  "k \<noteq> 0 \<Longrightarrow> \<exists>w'. host_run (status_env k) h cmd (with_stdin t) w = (Inl (CalledProcessError k (command_string (hosts w h) cmd (with_stdin t))), w')"
  by (simp add: host_run_def ssh_exec_def status_env_def ok_env_def run_defaults_def Let_def bindA_def
      seqA_def getA_def emit_def modA_def ret_def raise_def)

lemma update_config_deploys:
  assumes "config_changed (nodes w n)" and "w1 = w\<lparr>nodes := (nodes w)(n := (nodes w n)\<lparr>config_changed := False\<rparr>)\<rparr>"
    and "config w1 n = Inr t"
  shows "\<exists>h cmd w2. update_config E n w = bindA (host_run E h cmd (with_stdin t)) (\<lambda>_. ret ()) w2"
  using assms by (auto simp: update_config_def upd_node_def bind_ok seq_ok emit_def)

theorem failed_update_forgotten_witness:
  "\<exists>e w'. update_config (status_env 1) 0 two_nodes = (Inl e, w') \<and> update_config (status_env 1) 0 w' = (Inr (), w')"
proof -
  have ch: "config_changed (nodes two_nodes 0)" by (simp add: two_nodes_def empty_cluster_def)
  define w1 where "w1 = two_nodes\<lparr>nodes := (nodes two_nodes)(0 := (nodes two_nodes 0)\<lparr>config_changed := False\<rparr>)\<rparr>"
  have pl: "config_plain w1 0"
    by (simp add: w1_def config_plain_def two_nodes_def empty_cluster_def sample_host_def
        node_plain_def or_else_def items_init_eq)
  then obtain t where t: "config w1 0 = Inr t" using config_total by blast
  obtain h cmd w2 where "update_config (status_env 1) 0 two_nodes =
      bindA (host_run (status_env 1) h cmd (with_stdin t)) (\<lambda>_. ret ()) w2"
    using update_config_deploys [OF ch w1_def t] by blast
  moreover obtain e w' where "host_run (status_env 1) h cmd (with_stdin t) w2 = (Inl e, w')"
    using host_run_status [of 1] by fastforce
  ultimately have "update_config (status_env 1) 0 two_nodes = (Inl e, w')" by (simp add: bind_err)
  then show ?thesis using failed_update_forgotten by blast
qed

end
