(* ===== verification/Collections.thy ===== *)
theory Collections
  imports Node_Config
begin

text \<open>
  The collection classes of \<open>src/python/drbdtest.py\<close> (\<open>Collection\<close>, \<open>Nodes\<close>, \<open>Volumes\<close>,
  \<open>Connections\<close>, \<open>PeerDevices\<close>) as ordered sets of references, and waiting for events on
  them: the filters each collection hands to the log scanner, \<open>Resource.logscan\<close> and
  \<open>Cluster.logscan\<close>. The checks that members are instances of the right class are the
  types of the model.
\<close>

section \<open>Collection\<close>

text \<open>\<open>res\<close> is the member's \<open>resource\<close> attribute.\<close>

definition same_resource :: "('a \<Rightarrow> rref) \<Rightarrow> 'a oset \<Rightarrow> 'a list \<Rightarrow> bool" where
  "same_resource res ms members \<longleftrightarrow>
     (case items ms of
        x # _ \<Rightarrow> list_all (\<lambda>m. res m = res x) members
      | [] \<Rightarrow> (case members of [] \<Rightarrow> True | m # r \<Rightarrow> list_all (\<lambda>x. res x = res m) r))"

definition coll_init :: "('a \<Rightarrow> 'a \<Rightarrow> bool) \<Rightarrow> ('a \<Rightarrow> rref) \<Rightarrow> 'a list \<Rightarrow> exn + 'a oset" where
  "coll_init eq res members =
     (let ms = os_init eq members in
      if list_all (\<lambda>_. same_resource res ms members) members then Inr ms else Inl AssertionError)"

definition coll_add ::
  "('a \<Rightarrow> 'a \<Rightarrow> bool) \<Rightarrow> ('a \<Rightarrow> rref) \<Rightarrow> 'a oset \<Rightarrow> 'a \<Rightarrow> exn + 'a oset" where
  "coll_add eq res ms x =
     (if same_resource res ms [x] then Inr (snd (os_add eq ms x)) else Inl AssertionError)"

definition coll_remove ::
  "('a \<Rightarrow> 'a \<Rightarrow> bool) \<Rightarrow> ('a \<Rightarrow> rref) \<Rightarrow> 'a oset \<Rightarrow> 'a \<Rightarrow> exn + 'a oset" where
  "coll_remove eq res ms x =
     (if \<not> same_resource res ms [x] then Inl AssertionError
      else if os_contains eq ms x then os_remove eq ms x else Inr ms)"

definition coll_extend ::
  "('a \<Rightarrow> 'a \<Rightarrow> bool) \<Rightarrow> ('a \<Rightarrow> rref) \<Rightarrow> 'a oset \<Rightarrow> 'a list \<Rightarrow> exn + 'a oset" where
  "coll_extend eq res ms xs =
     (if list_all (\<lambda>_. same_resource res ms xs) xs then Inr (snd (os_update eq ms xs))
      else Inl AssertionError)"

definition coll_difference ::
  "('a \<Rightarrow> 'a \<Rightarrow> bool) \<Rightarrow> ('a \<Rightarrow> rref) \<Rightarrow> 'a oset \<Rightarrow> 'a list \<Rightarrow> exn + 'a oset" where
  "coll_difference eq res ms xs =
     (if list_all (\<lambda>_. same_resource res ms xs) xs
      then coll_init eq res (items (os_difference eq ms xs)) else Inl AssertionError)"

definition coll_pop ::
  "('a \<Rightarrow> 'a \<Rightarrow> bool) \<Rightarrow> ('a \<Rightarrow> rref) \<Rightarrow> 'a oset \<Rightarrow> exn + 'a \<times> 'a oset" where
  "coll_pop eq res ms =
     (if os_len ms = 0 then Inl (RuntimeError ''Can't pop if empty'')
      else (case list_item (items ms) 0 of
              Inl e \<Rightarrow> Inl e
            | Inr x \<Rightarrow> map_sum id (Pair x) (coll_remove eq res ms x)))"

text \<open>\<open>self[i:]\<close> and \<open>self[:j]\<close> build a new collection of the same class.\<close>

definition coll_from ::
  "('a \<Rightarrow> 'a \<Rightarrow> bool) \<Rightarrow> ('a \<Rightarrow> rref) \<Rightarrow> 'a oset \<Rightarrow> nat \<Rightarrow> exn + 'a oset" where
  "coll_from eq res ms i = coll_init eq res (drop i (items ms))"

definition coll_to ::
  "('a \<Rightarrow> 'a \<Rightarrow> bool) \<Rightarrow> ('a \<Rightarrow> rref) \<Rightarrow> 'a oset \<Rightarrow> nat \<Rightarrow> exn + 'a oset" where
  "coll_to eq res ms j = coll_init eq res (take j (items ms))"

text \<open>
  \<open>Collection.property\<close>: the union of a property over the members, extending an empty
  collection by each member's value in turn.
\<close>

primrec coll_union ::
  "('b \<Rightarrow> 'b \<Rightarrow> bool) \<Rightarrow> ('b \<Rightarrow> rref) \<Rightarrow> ('a \<Rightarrow> exn + 'b oset) \<Rightarrow> 'b oset \<Rightarrow> 'a list \<Rightarrow>
   exn + 'b oset" where
  "coll_union eq res f acc [] = Inr acc"
| "coll_union eq res f acc (x # xs) =
     (case f x of
        Inl e \<Rightarrow> Inl e
      | Inr ys \<Rightarrow> (case coll_extend eq res acc (items ys) of
                     Inl e \<Rightarrow> Inl e
                   | Inr acc' \<Rightarrow> coll_union eq res f acc' xs))"

section \<open>The four collections\<close>

definition node_res :: "world \<Rightarrow> nref \<Rightarrow> rref" where
  "node_res w n = node_resource (nodes w n)"

definition vol_res :: "world \<Rightarrow> vref \<Rightarrow> rref" where
  "vol_res w v = node_res w (vol_node (vols w v))"

definition conn_res :: "world \<Rightarrow> conn \<Rightarrow> rref" where
  "conn_res w c = node_res w (conn_from c)"

definition pd_res :: "world \<Rightarrow> peer_device \<Rightarrow> rref" where
  "pd_res w p = conn_res w (pd_conn p)"

definition Nodes :: "world \<Rightarrow> nref list \<Rightarrow> exn + nref oset" where
  "Nodes w = coll_init (=) (node_res w)"

definition Volumes :: "world \<Rightarrow> vref list \<Rightarrow> exn + vref oset" where
  "Volumes w = coll_init (=) (vol_res w)"

definition Connections :: "world \<Rightarrow> conn list \<Rightarrow> exn + conn oset" where
  "Connections w = coll_init conn_eq (conn_res w)"

definition PeerDevices :: "world \<Rightarrow> peer_device list \<Rightarrow> exn + peer_device oset" where
  "PeerDevices w = coll_init pd_eq (pd_res w)"

text \<open>\<open>Connection(n1, n2)\<close> allocates a new object.\<close>

definition Connection :: "nref \<Rightarrow> nref \<Rightarrow> conn prog" where
  "Connection n1 n2 = bindA (getA (\<lambda>w. node_res w n1 = node_res w n2)) (\<lambda>ok.
     seqA (assertA ok)
    (bindA (getA next_conn) (\<lambda>i.
     seqA (modA (\<lambda>w. w\<lparr>next_conn := Suc i\<rparr>))
       (ret \<lparr>conn_ident = i, conn_from = n1, conn_to = n2\<rparr>))))"

text \<open>Properties of a node and of a volume.\<close>

definition node_volumes :: "world \<Rightarrow> nref \<Rightarrow> exn + vref oset" where
  "node_volumes w n = Volumes w (disks (nodes w n))"

primrec add_all :: "('a \<Rightarrow> 'a \<Rightarrow> bool) \<Rightarrow> ('a \<Rightarrow> rref) \<Rightarrow> 'a oset \<Rightarrow> 'a list \<Rightarrow> exn + 'a oset" where
  "add_all eq res ms [] = Inr ms"
| "add_all eq res ms (x # xs) =
     (case coll_add eq res ms x of Inl e \<Rightarrow> Inl e | Inr ms' \<Rightarrow> add_all eq res ms' xs)"

definition node_peer_devices :: "world \<Rightarrow> nref \<Rightarrow> exn + peer_device oset" where
  "node_peer_devices w n =
     add_all pd_eq (pd_res w) os_empty
       [\<lparr>pd_conn = c, pd_volume = v\<rparr>. c \<leftarrow> items (node_conns (nodes w n)), v \<leftarrow> disks (nodes w n)]"

definition volume_peer_devices :: "world \<Rightarrow> vref \<Rightarrow> exn + peer_device oset" where
  "volume_peer_devices w v =
     add_all pd_eq (pd_res w) os_empty
       [\<lparr>pd_conn = c, pd_volume = v\<rparr>. c \<leftarrow> items (node_conns (nodes w (vol_node (vols w v))))]"

definition nodes_volumes :: "world \<Rightarrow> nref oset \<Rightarrow> exn + vref oset" where
  "nodes_volumes w ns = coll_union (=) (vol_res w) (node_volumes w) os_empty (items ns)"

definition nodes_connections :: "world \<Rightarrow> nref oset \<Rightarrow> exn + conn oset" where
  "nodes_connections w ns =
     coll_union conn_eq (conn_res w) (\<lambda>n. Inr (node_conns (nodes w n))) os_empty (items ns)"

definition nodes_peer_devices :: "world \<Rightarrow> nref oset \<Rightarrow> exn + peer_device oset" where
  "nodes_peer_devices w ns =
     coll_union pd_eq (pd_res w) (node_peer_devices w) os_empty (items ns)"

definition volumes_peer_devices :: "world \<Rightarrow> vref oset \<Rightarrow> exn + peer_device oset" where
  "volumes_peer_devices w vs =
     coll_union pd_eq (pd_res w) (volume_peer_devices w) os_empty (items vs)"

definition has_disk :: "world \<Rightarrow> vref \<Rightarrow> bool" where
  "has_disk w v \<longleftrightarrow> disk_path (vols w v) \<noteq> None"

definition nodes_diskful :: "world \<Rightarrow> nref oset \<Rightarrow> exn + nref oset" where
  "nodes_diskful w ns = Nodes w (filter (\<lambda>n. list_ex (has_disk w) (disks (nodes w n))) (items ns))"

definition nodes_diskless :: "world \<Rightarrow> nref oset \<Rightarrow> exn + nref oset" where
  "nodes_diskless w ns =
     Nodes w (filter (\<lambda>n. list_all (\<lambda>v. \<not> has_disk w v) (disks (nodes w n))) (items ns))"

definition volumes_diskful :: "world \<Rightarrow> vref oset \<Rightarrow> exn + vref oset" where
  "volumes_diskful w vs = Volumes w (filter (has_disk w) (items vs))"

definition volumes_diskless :: "world \<Rightarrow> vref oset \<Rightarrow> exn + vref oset" where
  "volumes_diskless w vs = Volumes w (filter (\<lambda>v. \<not> has_disk w v) (items vs))"

fun version_min :: "version list \<Rightarrow> exn + version" where
  "version_min [] = Inl ValueError"
| "version_min (v # vs) = Inr (foldl (\<lambda>a b. if version_less b a then b else a) v vs)"

definition min_drbd_version_tuple :: "world \<Rightarrow> nref oset \<Rightarrow> exn + version" where
  "min_drbd_version_tuple w ns =
     version_min (map (\<lambda>n. drbd_version_tuple (host_of w n)) (items ns))"

definition volumes_by_vnr :: "world \<Rightarrow> rref \<Rightarrow> nat \<Rightarrow> exn + vref oset" where
  "volumes_by_vnr w r vnr =
     (case nodes_volumes w (res_nodes (ress w r)) of
        Inl e \<Rightarrow> Inl e
      | Inr vs \<Rightarrow> Volumes w (filter (\<lambda>v. vol_number (vols w v) = vnr) (items vs)))"

definition peer_devices_by_vnr :: "world \<Rightarrow> rref \<Rightarrow> nat \<Rightarrow> exn + peer_device oset" where
  "peer_devices_by_vnr w r vnr =
     (case nodes_peer_devices w (res_nodes (ress w r)) of
        Inl e \<Rightarrow> Inl e
      | Inr ps \<Rightarrow> PeerDevices w (filter (\<lambda>p. vol_number (vols w (pd_volume p)) = vnr) (items ps)))"

definition volume_by_vnr :: "world \<Rightarrow> nref \<Rightarrow> nat \<Rightarrow> exn + vref" where
  "volume_by_vnr w n vnr =
     (case volumes_by_vnr w (node_res w n) vnr of
        Inl e \<Rightarrow> Inl e
      | Inr vs \<Rightarrow> (case filter (\<lambda>v. vol_node (vols w v) = n) (items vs) of
                    [] \<Rightarrow> Inl StopIteration | v # _ \<Rightarrow> Inr v))"

definition peer_device_diskful :: "world \<Rightarrow> peer_device \<Rightarrow> exn + bool" where
  "peer_device_diskful w p =
     (let vnr = vol_number (vols w (pd_volume p)) in
      case volume_by_vnr w (conn_from (pd_conn p)) vnr of
        Inl e \<Rightarrow> Inl e
      | Inr v1 \<Rightarrow>
          if vol_disk (vols w v1) = None then Inr False
          else (case volume_by_vnr w (conn_to (pd_conn p)) vnr of
                  Inl e \<Rightarrow> Inl e
                | Inr v2 \<Rightarrow> Inr (vol_disk (vols w v2) \<noteq> None)))"

section \<open>Waiting for events\<close>

type_synonym filters = "(string \<times> string list list) list"

text \<open>\<open>if k not in filters: filters[k] = []\<close> and then \<open>filters[k].append(f)\<close>.\<close>

definition filters_append :: "filters \<Rightarrow> string \<Rightarrow> string list \<Rightarrow> filters" where
  "filters_append d k f =
     dict_put (=) d k ((case dict_get (=) d k of None \<Rightarrow> [] | Some fs \<Rightarrow> fs) @ [f])"

definition build_filters :: "('a \<Rightarrow> string) \<Rightarrow> ('a \<Rightarrow> string list) \<Rightarrow> 'a list \<Rightarrow> filters" where
  "build_filters key f xs = foldl (\<lambda>d x. filters_append d (key x) (f x)) [] xs"

definition nodes_filters :: "world \<Rightarrow> nref list \<Rightarrow> filters" where
  "nodes_filters w ns = foldl (\<lambda>d n. dict_put (=) d (node_name (nodes w n)) [[]]) [] ns"

definition volumes_filters :: "world \<Rightarrow> vref list \<Rightarrow> filters" where
  "volumes_filters w vs =
     build_filters (\<lambda>v. node_name (nodes w (vol_node (vols w v))))
       (\<lambda>v. [''volume:'' @ str_nat (vol_number (vols w v))]) vs"

definition peer_filter :: "world \<Rightarrow> conn \<Rightarrow> string list" where
  "peer_filter w c =
     (if is_v9 (host_of w (conn_from c))
      then [''peer-node-id:'' @ str_nat (node_id (nodes w (conn_to c)))] else [])"

definition connections_filters :: "world \<Rightarrow> conn list \<Rightarrow> filters" where
  "connections_filters w cs =
     build_filters (\<lambda>c. node_name (nodes w (conn_from c))) (peer_filter w) cs"

definition peer_devices_filters :: "world \<Rightarrow> peer_device list \<Rightarrow> filters" where
  "peer_devices_filters w ps =
     build_filters (\<lambda>p. node_name (nodes w (conn_from (pd_conn p))))
       (\<lambda>p. [''volume:'' @ str_nat (vol_number (vols w (pd_volume p)))] @ peer_filter w (pd_conn p)) ps"

record event_opts =
  ev_no :: "string list"
  ev_word_boundary :: bool
  ev_timeout :: "nat option"

definition event_defaults :: event_opts where
  "event_defaults = \<lparr>ev_no = [], ev_word_boundary = True, ev_timeout = None\<rparr>"

definition cluster_logscan ::
  "environment \<Rightarrow> string list \<Rightarrow> filters \<Rightarrow> string list \<Rightarrow> event_opts \<Rightarrow> string list prog" where
  "cluster_logscan E yes fs always_no opts = bindA (getA logscan_ready) (\<lambda>ready.
     if \<not> ready then raise AttributeError
     else
       let c = \<lparr>sc_yes = yes, sc_filters = fs, sc_no = ev_no opts, sc_always_no = always_no,
                sc_wordwise = ev_word_boundary opts, sc_scan_timeout = ev_timeout opts\<rparr> in
       bindA (getA (\<lambda>w. logscan_event E (trace w) c)) (\<lambda>r.
       seqA (emit (Scan c)) (liftA r)))"

definition resource_filters :: "world \<Rightarrow> rref \<Rightarrow> filters \<Rightarrow> filters" where
  "resource_filters w r fs =
     (if 1 < length (cl_resources w)
      then map (\<lambda>(k, sets). (k, map (\<lambda>f. (''name:'' @ res_name (ress w r)) # f) sets)) fs
      else fs)"

definition resource_logscan ::
  "environment \<Rightarrow> rref \<Rightarrow> string list \<Rightarrow> filters \<Rightarrow> event_opts \<Rightarrow> string list prog" where
  "resource_logscan E r yes fs opts =
     bindA (getA (\<lambda>w. (resource_filters w r fs, items (forbidden_patterns (ress w r))))) (\<lambda>(fs', no).
       cluster_logscan E yes fs' no opts)"

definition nodes_event ::
  "environment \<Rightarrow> nref oset \<Rightarrow> string list \<Rightarrow> event_opts \<Rightarrow> string list prog" where
  "nodes_event E ns yes opts =
     (case items ns of
        [] \<Rightarrow> ret []
      | n # _ \<Rightarrow> bindA (getA (\<lambda>w. (node_res w n, nodes_filters w (items ns)))) (\<lambda>(r, fs).
                   resource_logscan E r yes fs opts))"

definition volumes_event ::
  "environment \<Rightarrow> vref oset \<Rightarrow> string list \<Rightarrow> event_opts \<Rightarrow> string list prog" where
  "volumes_event E vs yes opts =
     (case items vs of
        [] \<Rightarrow> ret []
      | v # _ \<Rightarrow> bindA (getA (\<lambda>w. (vol_res w v, volumes_filters w (items vs)))) (\<lambda>(r, fs).
                   resource_logscan E r yes fs opts))"

definition connections_event ::
  "environment \<Rightarrow> conn oset \<Rightarrow> string list \<Rightarrow> event_opts \<Rightarrow> string list prog" where
  "connections_event E cs yes opts =
     (case items cs of
        [] \<Rightarrow> ret []
      | c # _ \<Rightarrow> bindA (getA (\<lambda>w. (conn_res w c, connections_filters w (items cs)))) (\<lambda>(r, fs).
                   resource_logscan E r yes fs opts))"

definition peer_devices_event ::
  "environment \<Rightarrow> peer_device oset \<Rightarrow> string list \<Rightarrow> event_opts \<Rightarrow> string list prog" where
  "peer_devices_event E ps yes opts =
     (case items ps of
        [] \<Rightarrow> ret []
      | p # _ \<Rightarrow> bindA (getA (\<lambda>w. (pd_res w p, peer_devices_filters w (items ps)))) (\<lambda>(r, fs).
                   resource_logscan E r yes fs opts))"

section \<open>Laws\<close>

lemma coll_init_InrD: "coll_init eq res xs = Inr ms \<Longrightarrow> ms = os_init eq xs"
  by (auto simp: coll_init_def Let_def split: if_splits)

lemma coll_init_single [simp]: "coll_init (=) res [x] = Inr (os_init (=) [x])"
  by (simp add: coll_init_def same_resource_def items_init_eq)

lemma coll_init_ok:
  assumes "\<forall>x \<in> set xs. res x = r" and "py_key eq"
  shows "coll_init eq res xs = Inr (os_init eq xs)"
proof -
  have sub: "set (items (snd (os_update eq s ys))) \<subseteq> set (items s) \<union> set ys" for s ys
  proof (induction ys arbitrary: s)
    case (Cons y ys)
    have "set (items (snd (os_add eq s y))) \<subseteq> set (items s) \<union> {y}"
      by (auto simp: os_add_def split: option.splits)
    with Cons [of "snd (os_add eq s y)"] show ?case by (force simp: split_beta)
  qed simp
  have "set (items (os_init eq xs)) \<subseteq> set xs"
    using sub [of os_empty xs] by (simp add: os_init_def)
  then have "same_resource res (os_init eq xs) xs"
    using assms(1) by (auto simp: same_resource_def list_all_iff split: list.splits)
  then show ?thesis by (simp add: coll_init_def Let_def list_all_iff)
qed

text \<open>
  The filters built for a node name: one filter per member on that node, in order; and a
  name is present exactly when a member has it.
\<close>

lemma dict_get_filters_append:
  "dict_get (=) (filters_append d k f) j =
     (if j = k then Some ((case dict_get (=) d k of None \<Rightarrow> [] | Some fs \<Rightarrow> fs) @ [f])
      else dict_get (=) d j)"
  by (simp add: filters_append_def dict_get_put)

lemma build_filters_get:
  "dict_get (=) (build_filters key f xs) k =
     (if k \<in> key ` set xs then Some (map f (filter (\<lambda>x. key x = k) xs)) else None)"
proof (induction xs arbitrary: k rule: rev_induct)
  case Nil
  then show ?case by (simp add: build_filters_def)
next
  case (snoc x xs)
  have step: "build_filters key f (xs @ [x]) = filters_append (build_filters key f xs) (key x) (f x)"
    by (simp add: build_filters_def)
  show ?case
    unfolding step dict_get_filters_append snoc by (auto simp: filter_empty_conv image_iff)
qed

lemma nodes_filters_get:
  "dict_get (=) (nodes_filters w ns) k =
     (if k \<in> (\<lambda>n. node_name (nodes w n)) ` set ns then Some [[]] else None)"
  by (induction ns rule: rev_induct) (auto simp: nodes_filters_def dict_get_put)

lemma effects_cluster_logscan [effect_rules]: "only_effects (cluster_logscan E yes fs no opts)"
  unfolding cluster_logscan_def by (intro effect_rules)

lemma effects_resource_logscan [effect_rules]: "only_effects (resource_logscan E r yes fs opts)"
  unfolding resource_logscan_def by (intro effect_rules)

lemma effects_list_case [effect_rules]:
  "only_effects m \<Longrightarrow> (\<And>x xs. only_effects (f x xs)) \<Longrightarrow>
   only_effects (case z of [] \<Rightarrow> m | x # xs \<Rightarrow> f x xs)"
  by (cases z) simp_all

lemma effects_events [effect_rules]:
  "only_effects (nodes_event E ns yes opts)"
  "only_effects (volumes_event E vs yes opts)"
  "only_effects (connections_event E cs yes opts)"
  "only_effects (peer_devices_event E ps yes opts)"
  unfolding nodes_event_def volumes_event_def connections_event_def peer_devices_event_def
  by (intro effect_rules)+

section \<open>What a wait for events looks for\<close>

text \<open>The prefix that tells the resources of a cluster apart when there are several.\<close>

definition resource_prefix :: "world \<Rightarrow> rref \<Rightarrow> string list" where
  "resource_prefix w r = (if 1 < length (cl_resources w) then [''name:'' @ res_name (ress w r)] else [])"

lemma dict_get_map:
  "dict_get (=) (map (\<lambda>(k, v). (k, f v)) d) k = map_option f (dict_get (=) d k)"
  by (induction d) auto

lemma resource_filters_get:
  "dict_get (=) (resource_filters w r fs) k =
     map_option (map (\<lambda>f. resource_prefix w r @ f)) (dict_get (=) fs k)"
  by (cases "dict_get (=) fs k") (simp_all add: resource_filters_def resource_prefix_def dict_get_map map_idI)

lemma resource_logscan_scan:
  assumes "resource_logscan E r yes fs opts w = (Inr out, w')"
  shows "\<exists>c. trace w' = trace w @ [Scan c] \<and> sc_yes c = yes \<and> sc_filters c = resource_filters w r fs \<and>
     sc_no c = ev_no opts \<and> sc_always_no c = items (forbidden_patterns (ress w r)) \<and>
     sc_scan_timeout c = ev_timeout opts"
  using assms unfolding resource_logscan_def cluster_logscan_def emit_def
  by (auto simp: Let_def bindA_def seqA_def getA_def modA_def liftA_def raise_def split: if_splits sum.splits)

text \<open>
  C30: A wait for events on peer devices that returns has made one scan of the log, for the
  patterns it was given, with the resource's forbidden patterns as failures; for each node name
  the scan requires one match per peer device of that node, in their order, each naming its
  volume and (from DRBD 9 on) its peer, and the resource if there are several; no other node is
  required to show anything.
\<close>
theorem peer_devices_event_scan:
  assumes "items ps = p # rest" and "peer_devices_event E ps yes opts w = (Inr out, w')"
  shows "\<exists>c. trace w' = trace w @ [Scan c] \<and> sc_yes c = yes \<and> sc_no c = ev_no opts \<and>
     sc_always_no c = items (forbidden_patterns (ress w (pd_res w p))) \<and>
     (\<forall>k. dict_get (=) (sc_filters c) k =
        (let mine = filter (\<lambda>q. node_name (nodes w (conn_from (pd_conn q))) = k) (items ps) in
         if mine = [] then None
         else Some (map (\<lambda>q. resource_prefix w (pd_res w p) @
                (''volume:'' @ str_nat (vol_number (vols w (pd_volume q)))) # peer_filter w (pd_conn q)) mine)))"
proof -
  have "resource_logscan E (pd_res w p) yes (peer_devices_filters w (items ps)) opts w = (Inr out, w')"
    using assms by (simp add: peer_devices_event_def)
  from resource_logscan_scan [OF this] obtain c where c: "trace w' = trace w @ [Scan c]" "sc_yes c = yes"
     "sc_filters c = resource_filters w (pd_res w p) (peer_devices_filters w (items ps))"
     "sc_no c = ev_no opts" "sc_always_no c = items (forbidden_patterns (ress w (pd_res w p)))" by blast
  have "k \<in> key ` set xs \<longleftrightarrow> filter (\<lambda>x. key x = k) xs \<noteq> []" for k and key :: "peer_device \<Rightarrow> string" and xs
    by (auto simp: filter_empty_conv)
  then show ?thesis
    using c by (intro exI [of _ c]) (simp add: resource_filters_get peer_devices_filters_def build_filters_get Let_def o_def)
qed

theorem peer_devices_event_scan_witness:
  "\<exists>c. trace (snd (peer_devices_event ok_env
        (os_init pd_eq [\<lparr>pd_conn = \<lparr>conn_ident = 0, conn_from = 0, conn_to = 1\<rparr>, pd_volume = 0\<rparr>])
        [''peer-device''] event_defaults two_nodes)) = [Scan c] \<and> sc_yes c = [''peer-device'']"
proof -
  let ?p = "\<lparr>pd_conn = \<lparr>conn_ident = 0, conn_from = 0, conn_to = 1\<rparr>, pd_volume = 0\<rparr>"
  have it: "items (os_init pd_eq [?p]) = ?p # []" by (simp add: pdk.items_init)
  have t: "trace two_nodes = []" by (simp add: two_nodes_def empty_cluster_def)
  obtain w' where "peer_devices_event ok_env (os_init pd_eq [?p]) [''peer-device''] event_defaults two_nodes = (Inr [], w')"
    using it by (simp add: peer_devices_event_def resource_logscan_def cluster_logscan_def emit_def ok_env_def
        two_nodes_def empty_cluster_def Let_def liftA_def bindA_def seqA_def getA_def modA_def)
  with peer_devices_event_scan [OF it this] t show ?thesis by auto
qed

end
