(* ===== verification/Node_Ops.thy ===== *)
theory Node_Ops
  imports Collections
begin

text \<open>
  The operations that drive DRBD on the nodes: the methods of \<open>Nodes\<close>, \<open>Volumes\<close>,
  \<open>Connections\<close>, \<open>PeerDevices\<close>, \<open>Node\<close>, \<open>Volume\<close> and \<open>Connection\<close> in
  \<open>src/python/drbdtest.py\<close> that run \<open>drbdadm\<close> and wait for the events it causes, and
  \<open>create_md\<close> of \<open>src/python/disktools.py\<close>.
\<close>

abbreviation evd :: event_opts where
  "evd \<equiv> event_defaults"

definition ignore :: "'a prog \<Rightarrow> unit prog" where
  "ignore m = bindA m (\<lambda>_. ret ())"

text \<open>A pure expression over the state that may raise.\<close>

definition exprA :: "(world \<Rightarrow> exn + 'a) \<Rightarrow> 'a prog" where
  "exprA f = bindA (getA f) liftA"

section \<open>Nodes\<close>

definition nodes_resource :: "nref oset \<Rightarrow> rref prog" where
  "nodes_resource ns =
     (case items ns of [] \<Rightarrow> raise StopIteration | n # _ \<Rightarrow> getA (\<lambda>w. node_res w n))"

definition nodes_run :: "environment \<Rightarrow> nref oset \<Rightarrow> string list \<Rightarrow> unit prog" where
  "nodes_run E ns cmd = forA (items ns) (\<lambda>n. node_cmd E n cmd)"

definition nodes_drbdadm :: "environment \<Rightarrow> nref oset \<Rightarrow> string list \<Rightarrow> unit prog" where
  "nodes_drbdadm E ns cmd = forA (items ns) (\<lambda>n. node_drbdadm E n cmd)"

text \<open>\<open>self.drbdadm([cmd, self.resource().name] + opts)\<close>\<close>

definition nodes_res_drbdadm ::
  "environment \<Rightarrow> nref oset \<Rightarrow> string \<Rightarrow> string list \<Rightarrow> unit prog" where
  "nodes_res_drbdadm E ns cmd opts = bindA (nodes_resource ns) (\<lambda>r.
     bindA (getA (\<lambda>w. res_name (ress w r))) (\<lambda>name. nodes_drbdadm E ns ([cmd, name] @ opts)))"

definition nodes_up :: "environment \<Rightarrow> nref oset \<Rightarrow> string list \<Rightarrow> unit prog" where
  "nodes_up E ns extra =
     seqA (nodes_res_drbdadm E ns ''up'' extra)
       (bindA (getA proxy_enable) (\<lambda>p. whenA p (nodes_res_drbdadm E ns ''proxy-up'' extra)))"

text \<open>The patterns \<open>down\<close> tolerates while it runs: those of these that are forbidden now.\<close>

definition down_patterns :: "world \<Rightarrow> rref \<Rightarrow> nref oset \<Rightarrow> exn + string list" where
  "down_patterns w r ns =
     (let fp = forbidden_patterns (ress w r);
          ps = filter (os_contains (=) fp) [''connection:BrokenPipe'', ''connection:NetworkFailure''] in
      if os_contains (=) fp ''disk:Failed''
      then (case min_drbd_version_tuple w ns of
              Inl e \<Rightarrow> Inl e
            | Inr v \<Rightarrow> Inr (if version_less v (9, 0, 0) then ps @ [''disk:Failed''] else ps))
      else Inr ps)"

definition remove_forbidden :: "rref \<Rightarrow> string list \<Rightarrow> unit prog" where
  "remove_forbidden r ps = upd_res r (\<lambda>x. x\<lparr>forbidden_patterns :=
     os_difference_update (=) (forbidden_patterns x) ps\<rparr>)"

definition add_forbidden :: "rref \<Rightarrow> string list \<Rightarrow> unit prog" where
  "add_forbidden r ps = upd_res r (\<lambda>x. x\<lparr>forbidden_patterns :=
     snd (os_update (=) (forbidden_patterns x) ps)\<rparr>)"

definition nodes_down :: "environment \<Rightarrow> nref oset \<Rightarrow> unit prog" where
  "nodes_down E ns =
     seqA (bindA (getA proxy_enable) (\<lambda>p. whenA p (nodes_res_drbdadm E ns ''proxy-down'' [])))
    (bindA (nodes_resource ns) (\<lambda>r.
     bindA (exprA (\<lambda>w. down_patterns w r ns)) (\<lambda>ps.
     seqA (remove_forbidden r ps)
    (seqA (nodes_res_drbdadm E ns ''down'' [])
    (seqA (ignore (nodes_event E ns [''destroy resource''] evd))
          (add_forbidden r ps))))))"

definition nodes_new_resource :: "environment \<Rightarrow> nref oset \<Rightarrow> unit prog" where
  "nodes_new_resource E ns =
     seqA (nodes_res_drbdadm E ns ''new-resource'' [])
          (ignore (nodes_event E ns [''create resource''] evd))"

definition nodes_new_minor :: "environment \<Rightarrow> nref oset \<Rightarrow> unit prog" where
  "nodes_new_minor E ns =
     seqA (nodes_res_drbdadm E ns ''new-minor'' [])
    (bindA (exprA (\<lambda>w. nodes_volumes w ns)) (\<lambda>vs.
       ignore (volumes_event E vs [''create device''] evd)))"

definition nodes_new_peer :: "environment \<Rightarrow> nref oset \<Rightarrow> unit prog" where
  "nodes_new_peer E ns =
     seqA (nodes_res_drbdadm E ns ''new-peer'' [])
    (bindA (exprA (\<lambda>w. nodes_volumes w ns)) (\<lambda>vs.
     bindA (exprA (\<lambda>w. volumes_peer_devices w vs)) (\<lambda>ps.
       ignore (peer_devices_event E ps [''create peer-device''] evd))))"

definition nodes_resource_options :: "environment \<Rightarrow> nref oset \<Rightarrow> string list \<Rightarrow> unit prog" where
  "nodes_resource_options E ns opts = nodes_res_drbdadm E ns ''resource-options'' opts"

definition nodes_peer_device_options :: "environment \<Rightarrow> nref oset \<Rightarrow> string list \<Rightarrow> unit prog" where
  "nodes_peer_device_options E ns opts = nodes_res_drbdadm E ns ''peer-device-options'' opts"

text \<open>
  \<open>new_path\<close> and \<open>del_path\<close>: without arguments for the paths in the configuration file, with
  a peer and a network number for one explicit path.
\<close>

definition path_command ::
  "world \<Rightarrow> string \<Rightarrow> nref \<Rightarrow> nref \<Rightarrow> nat \<Rightarrow> string \<Rightarrow> exn + string list" where
  "path_command w cmd n peer net name =
     (case list_item (addrs (host_of w n)) (int net) of
        Inl e \<Rightarrow> Inl e
      | Inr a \<Rightarrow>
          (case list_item (addrs (host_of w peer)) (int net) of
             Inl e \<Rightarrow> Inl e
           | Inr b \<Rightarrow>
               Inr [''drbdsetup'', cmd, name, str_nat (node_id (nodes w peer)),
                    ''ipv4:'' @ a @ '':'' @ str_nat (node_port (nodes w n)),
                    ''ipv4:'' @ b @ '':'' @ str_nat (node_port (nodes w peer))]))"

definition nodes_one_path ::
  "environment \<Rightarrow> nref oset \<Rightarrow> string \<Rightarrow> nref \<Rightarrow> nat \<Rightarrow> unit prog" where
  "nodes_one_path E ns cmd peer net =
     forA (items ns) (\<lambda>n.
       bindA (nodes_resource ns) (\<lambda>r.
       bindA (exprA (\<lambda>w. path_command w cmd n peer net (res_name (ress w r)))) (node_cmd E n)))"

definition nodes_new_path :: "environment \<Rightarrow> nref oset \<Rightarrow> (nref \<times> nat) option \<Rightarrow> unit prog" where
  "nodes_new_path E ns peer =
     (case peer of
        None \<Rightarrow>
          seqA (nodes_res_drbdadm E ns ''new-path'' [])
         (bindA (exprA (\<lambda>w. nodes_connections w ns)) (\<lambda>cs.
            ignore (connections_event E cs [''create path''] evd)))
      | Some (p, net) \<Rightarrow> nodes_one_path E ns ''new-path'' p net)"

definition nodes_del_path :: "environment \<Rightarrow> nref oset \<Rightarrow> (nref \<times> nat) option \<Rightarrow> unit prog" where
  "nodes_del_path E ns peer =
     (case peer of
        None \<Rightarrow>
          seqA (nodes_res_drbdadm E ns ''del-path'' [])
         (bindA (exprA (\<lambda>w. nodes_connections w ns)) (\<lambda>cs.
            ignore (connections_event E cs [''destroy path''] evd)))
      | Some (p, net) \<Rightarrow> nodes_one_path E ns ''del-path'' p net)"

section \<open>Volumes\<close>

text \<open>\<open>'{}/{}'.format(v.resource.name, v.volume)\<close>\<close>

definition vol_spec :: "world \<Rightarrow> vref \<Rightarrow> string" where
  "vol_spec w v = res_name (ress w (vol_res w v)) @ ''/'' @ str_nat (vol_number (vols w v))"

definition volumes_attach :: "environment \<Rightarrow> vref oset \<Rightarrow> unit prog" where
  "volumes_attach E vs =
     seqA (forA (items vs) (\<lambda>v. bindA (getA (\<lambda>w. (vol_node (vols w v), vol_spec w v))) (\<lambda>(n, s).
             node_drbdadm E n [''attach'', s])))
          (ignore (volumes_event E vs [''device .* disk:Attaching''] evd))"

definition detach_patterns :: "world \<Rightarrow> rref \<Rightarrow> exn + string list" where
  "detach_patterns w r =
     (if os_contains (=) (forbidden_patterns (ress w r)) ''disk:Failed''
      then (case min_drbd_version_tuple w (res_nodes (ress w r)) of
              Inl e \<Rightarrow> Inl e
            | Inr v \<Rightarrow> Inr (if version_less v (9, 0, 0) then [''disk:Failed''] else []))
      else Inr [])"

definition volumes_detach :: "environment \<Rightarrow> vref oset \<Rightarrow> bool \<Rightarrow> unit prog" where
  "volumes_detach E vs force =
     (case items vs of
        [] \<Rightarrow> ret ()
      | v0 # _ \<Rightarrow>
          bindA (getA (\<lambda>w. vol_res w v0)) (\<lambda>r.
          bindA (exprA (\<lambda>w. detach_patterns w r)) (\<lambda>ps.
          seqA (remove_forbidden r ps)
         (seqA (forA (items vs) (\<lambda>v. bindA (getA (\<lambda>w. (vol_node (vols w v), vol_spec w v))) (\<lambda>(n, s).
                  node_drbdadm E n ([''detach''] @ (if force then [''--force''] else []) @ [s]))))
         (seqA (ignore (volumes_event E vs [''device .* disk:(Failed|Detaching)''] evd))
         (seqA (ignore (volumes_event E vs [''device .* disk:Diskless''] evd))
               (add_forbidden r ps)))))))"

definition volume_new_current_uuid :: "environment \<Rightarrow> vref \<Rightarrow> unit prog" where
  "volume_new_current_uuid E v =
     bindA (getA (\<lambda>w. (vol_node (vols w v), vol_spec w v))) (\<lambda>(n, s).
       node_drbdadm E n [''new-current-uuid'', s])"

definition volume_new_minor :: "environment \<Rightarrow> vref \<Rightarrow> unit prog" where
  "volume_new_minor E v =
     bindA (getA (\<lambda>w. (vol_node (vols w v), vol_spec w v))) (\<lambda>(n, s).
       node_drbdadm E n [''new-minor'', s])"

definition volumes_new_current_uuid :: "environment \<Rightarrow> vref oset \<Rightarrow> unit prog" where
  "volumes_new_current_uuid E vs = forA (items vs) (volume_new_current_uuid E)"

definition volumes_new_minor :: "environment \<Rightarrow> vref oset \<Rightarrow> unit prog" where
  "volumes_new_minor E vs = forA (items vs) (volume_new_minor E)"

text \<open>\<open>Volume.resize\<close>: the backing device, and a blank tail if asked for.\<close>

definition disk_arg :: "world \<Rightarrow> vref \<Rightarrow> string" where
  "disk_arg w v = str_opt (disk_path (vols w v))"

definition device_size :: "environment \<Rightarrow> vref \<Rightarrow> int prog" where
  "device_size E v =
     bindA (getA (\<lambda>w. (vol_node (vols w v), disk_arg w v))) (\<lambda>(n, d).
     bindA (node_stdout E n [''blockdev'', ''--getsize64'', d]) (\<lambda>s. liftA (py_int (strip s))))"

definition volume_resize_op :: "environment \<Rightarrow> vref \<Rightarrow> string \<Rightarrow> bool \<Rightarrow> unit prog" where
  "volume_resize_op E v sz zero_out =
     bindA (if zero_out then device_size E v else ret 0) (\<lambda>old_size.
     bindA (getA (\<lambda>w. (node_host (nodes w (vol_node (vols w v))), vol_disk (vols w v)))) (\<lambda>(h, d).
     seqA (case d of None \<Rightarrow> raise AttributeError | Some dv \<Rightarrow> volume_resize E h dv sz)
       (whenA zero_out
         (bindA (device_size E v) (\<lambda>new_size.
          whenA (0 < new_size - old_size)
            (bindA (getA (\<lambda>w. (vol_node (vols w v), disk_arg w v))) (\<lambda>(n, p).
               node_cmd E n [''blkdiscard'', ''-z'', ''--offset'', str_int old_size,
                 ''--length'', str_int (new_size - old_size), p])))))))"

definition volumes_resize :: "environment \<Rightarrow> vref oset \<Rightarrow> string \<Rightarrow> bool \<Rightarrow> unit list prog" where
  "volumes_resize E vs sz zero_out =
     bindA (getA (\<lambda>w. filter (has_disk w) (items vs))) (\<lambda>ds.
       mapA ds (\<lambda>v. volume_resize_op E v sz zero_out))"

text \<open>\<open>Volume.dmsetup\<close>: the device-mapper name doubles the dashes of both parts.\<close>

definition volume_dmsetup :: "environment \<Rightarrow> vref \<Rightarrow> string \<Rightarrow> unit prog" where
  "volume_dmsetup E v cmd =
     bindA (getA (\<lambda>w. (vol_node (vols w v), volume_group (host_of w (vol_node (vols w v))),
                       disk_lv (vols w v)))) (\<lambda>(n, vg, lv).
       case lv of
         None \<Rightarrow> raise AttributeError
       | Some l \<Rightarrow> node_cmd E n [''dmsetup'', cmd,
                     replace_char (CHR ''-'') ''--'' vg @ ''-'' @ replace_char (CHR ''-'') ''--'' l])"

definition volume_suspend :: "environment \<Rightarrow> vref \<Rightarrow> unit prog" where
  "volume_suspend E v = volume_dmsetup E v ''suspend''"

definition volume_resume :: "environment \<Rightarrow> vref \<Rightarrow> unit prog" where
  "volume_resume E v = volume_dmsetup E v ''resume''"

text \<open>\<open>Volume.create_disks\<close>: the data device and, if asked for, an external metadata device.\<close>

definition volume_create_disks ::
  "environment \<Rightarrow> vref \<Rightarrow> string \<Rightarrow> string option \<Rightarrow> string option \<Rightarrow> nat option \<Rightarrow> nat option \<Rightarrow>
   unit prog" where
  "volume_create_disks E v sz meta_size max_size delay lbs =
     bindA (getA (\<lambda>w. (node_host (nodes w (vol_node (vols w v))),
                       res_name (ress w (vol_res w v)), str_nat (vol_number (vols w v))))) (\<lambda>(h, rn, k).
     let dlv = rn @ ''-disk'' @ k; mlv = rn @ ''-meta'' @ k in
     seqA (upd_vol v (\<lambda>x. x\<lparr>disk_lv := Some dlv\<rparr>))
    (bindA (create_disk E h dlv sz max_size delay lbs) (\<lambda>d.
     seqA (upd_vol v (\<lambda>x. x\<lparr>vol_disk := Some d\<rparr>))
       (whenA (truthy_str meta_size)
         (seqA (upd_vol v (\<lambda>x. x\<lparr>meta_lv := Some mlv\<rparr>))
         (bindA (create_disk E h mlv (the meta_size) None delay lbs) (\<lambda>m.
          upd_vol v (\<lambda>x. x\<lparr>vol_meta := Some m\<rparr>))))))))"

text \<open>\<open>create_md\<close> and its options.\<close>

record md_opts =
  md_bitmap_block_size :: "nat option"
  md_initial_current_uuid :: "string option"
  md_consistent :: bool
  md_uptodate :: bool
  md_peers_outdated :: bool
  md_rotate_uuids :: bool

definition md_defaults :: md_opts where
  "md_defaults = \<lparr>md_bitmap_block_size = None, md_initial_current_uuid = None,
     md_consistent = False, md_uptodate = False, md_peers_outdated = False,
     md_rotate_uuids = False\<rparr>"

definition md_uses_uuid_options :: "md_opts \<Rightarrow> bool" where
  "md_uses_uuid_options o' \<longleftrightarrow> truthy_str (md_initial_current_uuid o') \<or> md_consistent o' \<or>
     md_uptodate o' \<or> md_peers_outdated o' \<or> md_rotate_uuids o'"

definition create_md_args :: "world \<Rightarrow> nref \<Rightarrow> nat \<Rightarrow> int \<Rightarrow> md_opts \<Rightarrow> string list" where
  "create_md_args w n vnr max_peers o' =
     [''create-md'', ''--force'', res_name (res_of w n) @ ''/'' @ str_nat vnr] @
     (if is_v9 (host_of w n) then [''--max-peers='' @ str_int max_peers] else []) @
     (case md_bitmap_block_size o' of None \<Rightarrow> [] | Some b \<Rightarrow> [''--bitmap-block-size='' @ str_nat b]) @
     (if truthy_str (md_initial_current_uuid o')
      then [''--initial-current-uuid='' @ the (md_initial_current_uuid o')] else []) @
     (if md_consistent o' then [''--consistent''] else []) @
     (if md_uptodate o' then [''--uptodate''] else []) @
     (if md_peers_outdated o' then [''--peers-outdated''] else []) @
     (if md_rotate_uuids o' then [''--rotate-uuids''] else [])"

definition create_md :: "environment \<Rightarrow> nref \<Rightarrow> nat \<Rightarrow> int \<Rightarrow> md_opts \<Rightarrow> unit prog" where
  "create_md E n vnr max_peers o' =
     bindA (getA (\<lambda>w. (create_md_args w n vnr max_peers o', node_host (nodes w n),
                       version_less (drbd_version_tuple (host_of w n)) (9, 3, 0),
                       host_name (host_of w n)))) (\<lambda>(args, h, old, hn).
     seqA (assertA (md_bitmap_block_size o' = None \<or> \<not> old))
    (seqA (whenA (md_uses_uuid_options o')
             (bindA (supports_uuid_options E h) (\<lambda>ok.
                if ok then ret ()
                else raise (RuntimeError (''drbdmeta on '' @ hn @
                  '' does not support --initial-current-uuid and related options'')))))
          (node_drbdadm E n args)))"

definition volume_create_md :: "environment \<Rightarrow> vref \<Rightarrow> int option \<Rightarrow> md_opts \<Rightarrow> unit prog" where
  "volume_create_md E v max_peers o' =
     bindA (getA (\<lambda>w. (vol_node (vols w v), vol_number (vols w v),
                       int (os_len (res_nodes (ress w (vol_res w v)))) - 1))) (\<lambda>(n, vnr, others).
       create_md E n vnr
         (case max_peers of Some k \<Rightarrow> k | None \<Rightarrow> if others < 1 then 1 else others) o')"

section \<open>Connections and peer devices\<close>

definition connections_run_drbdadm ::
  "environment \<Rightarrow> conn oset \<Rightarrow> string \<Rightarrow> string \<Rightarrow> bool \<Rightarrow> string list \<Rightarrow> unit prog" where
  "connections_run_drbdadm E cs cmd state_str wait options =
     seqA (forA (items cs) (\<lambda>c.
             bindA (getA (\<lambda>w. if is_v9 (host_of w (conn_from c))
                              then res_name (ress w (conn_res w c)) @ '':'' @
                                   hostname (host_of w (conn_to c))
                              else res_name (ress w (conn_res w c)))) (\<lambda>context.
               node_drbdadm E (conn_from c) ([cmd] @ options @ [context]))))
          (whenA wait (ignore (connections_event E cs
             [''connection .* connection:'' @ state_str] evd)))"

definition connections_connect :: "environment \<Rightarrow> conn oset \<Rightarrow> bool \<Rightarrow> string list \<Rightarrow> unit prog" where
  "connections_connect E cs wait options =
     connections_run_drbdadm E cs ''connect'' ''Connecting'' wait options"

definition connections_disconnect :: "environment \<Rightarrow> conn oset \<Rightarrow> bool \<Rightarrow> bool \<Rightarrow> unit prog" where
  "connections_disconnect E cs wait force =
     connections_run_drbdadm E cs ''disconnect'' ''StandAlone'' wait (if force then [''--force''] else [])"

definition connection_run_cmd :: "environment \<Rightarrow> conn \<Rightarrow> string list \<Rightarrow> unit prog" where
  "connection_run_cmd E c args =
     bindA (getA (\<lambda>w. res_name (ress w (conn_res w c)) @ '':'' @ hostname (host_of w (conn_to c)))) (\<lambda>s.
       node_drbdadm E (conn_from c) (args @ [s]))"

definition connections_run_cmd :: "environment \<Rightarrow> conn oset \<Rightarrow> string list \<Rightarrow> unit prog" where
  "connections_run_cmd E cs args = forA (items cs) (\<lambda>c. connection_run_cmd E c args)"

definition connection_pause_sync :: "environment \<Rightarrow> conn \<Rightarrow> unit prog" where
  "connection_pause_sync E c = connection_run_cmd E c [''pause-sync'']"

definition connection_resume_sync :: "environment \<Rightarrow> conn \<Rightarrow> unit prog" where
  "connection_resume_sync E c = connection_run_cmd E c [''resume-sync'']"

definition connections_bidir_add :: "conn oset \<Rightarrow> nref \<Rightarrow> nref \<Rightarrow> conn oset prog" where
  "connections_bidir_add cs n1 n2 =
     bindA (Connection n1 n2) (\<lambda>c1.
     bindA (exprA (\<lambda>w. coll_add conn_eq (conn_res w) cs c1)) (\<lambda>cs1.
     bindA (Connection n2 n1) (\<lambda>c2.
     exprA (\<lambda>w. coll_add conn_eq (conn_res w) cs1 c2))))"

definition peer_devices_verify ::
  "environment \<Rightarrow> peer_device oset \<Rightarrow> bool \<Rightarrow> string list \<Rightarrow> unit prog" where
  "peer_devices_verify E ps wait options =
     seqA (forA (items ps) (\<lambda>p.
             bindA (getA (\<lambda>w. res_name (ress w (pd_res w p)) @ '':'' @
                      hostname (host_of w (conn_to (pd_conn p))) @ ''/'' @
                      str_nat (vol_number (vols w (pd_volume p))))) (\<lambda>s.
               node_drbdadm E (conn_from (pd_conn p)) ([''verify''] @ options @ [s]))))
          (whenA wait (ignore (peer_devices_event E ps [''peer-device .* replication:VerifyS''] evd)))"

text \<open>
  \<open>PeerDevices.from_connections\<close>: every connection with every given volume, by default the
  volumes of the first connection's node.
\<close>

definition peer_devices_from_connections ::
  "world \<Rightarrow> conn oset \<Rightarrow> vref list \<Rightarrow> exn + peer_device oset" where
  "peer_devices_from_connections w cs volumes =
     (if volumes \<noteq> []
      then PeerDevices w [\<lparr>pd_conn = c, pd_volume = v\<rparr>. c \<leftarrow> items cs, v \<leftarrow> volumes]
      else
        (case list_item (items cs) 0 of
           Inl e \<Rightarrow> Inl e
         | Inr c0 \<Rightarrow>
             (case nodes_volumes w (res_nodes (ress w (conn_res w c0))) of
                Inl e \<Rightarrow> Inl e
              | Inr vs \<Rightarrow>
                  PeerDevices w [\<lparr>pd_conn = c, pd_volume = v\<rparr>. c \<leftarrow> items cs,
                    v \<leftarrow> filter (\<lambda>v. vol_node (vols w v) = conn_from c0) (items vs)])))"

end
