(* ===== verification/Cluster_Ops.thy ===== *)
theory Cluster_Ops
  imports Node_Ops
begin

text \<open>
  Creating and changing the objects of a test: \<open>Host\<close>'s counters and storage pool, \<open>Node\<close>,
  \<open>Volume\<close>, \<open>Resource\<close> and \<open>Cluster\<close> of \<open>src/python/drbdtest.py\<close>, the functions
  \<open>connections\<close> and \<open>peer_devices\<close>, and the operations on a whole resource.
\<close>

section \<open>Hosts\<close>

definition next_minor :: "href \<Rightarrow> nat prog" where
  "next_minor h =
     seqA (upd_host h (\<lambda>x. x\<lparr>minors := Suc (minors x)\<rparr>)) (getA (\<lambda>w. minors (hosts w h)))"

definition next_port :: "href \<Rightarrow> nat prog" where
  "next_port h = bindA (getA (\<lambda>w. host_port (hosts w h))) (\<lambda>p.
     seqA (upd_host h (\<lambda>x. x\<lparr>host_port := Suc (host_port x)\<rparr>)) (ret p))"

definition host_create_storage_pool ::
  "environment \<Rightarrow> href \<Rightarrow> bool \<Rightarrow> nat option \<Rightarrow> unit prog" where
  "host_create_storage_pool E h thin granularity =
     bindA (getA (\<lambda>w. hosts w h)) (\<lambda>hst.
       if storage_pool hst \<noteq> None then raise (RuntimeError ''storage pool already created'')
       else bindA (create_storage_pool E h (storage_backend hst) (backing_device hst) thin granularity) (\<lambda>p.
              upd_host h (\<lambda>x. x\<lparr>storage_pool := Some p\<rparr>)))"

definition host_remove_storage_pool :: "environment \<Rightarrow> href \<Rightarrow> unit prog" where
  "host_remove_storage_pool E h =
     bindA (getA (\<lambda>w. storage_pool (hosts w h))) (\<lambda>sp.
       case sp of
         None \<Rightarrow> raise (RuntimeError ''no storage pool to remove'')
       | Some p \<Rightarrow> seqA (pool_remove E h p) (upd_host h (\<lambda>x. x\<lparr>storage_pool := None\<rparr>)))"

definition host_cleanup :: "environment \<Rightarrow> href \<Rightarrow> unit prog" where
  "host_cleanup E h = bindA (getA (\<lambda>w. storage_pool (hosts w h))) (\<lambda>sp.
     whenA (sp \<noteq> None) (host_remove_storage_pool E h))"

section \<open>Volumes\<close>

definition resource_next_volume :: "rref \<Rightarrow> nat prog" where
  "resource_next_volume r = bindA (getA (\<lambda>w. num_volumes (ress w r))) (\<lambda>k.
     seqA (upd_res r (\<lambda>x. x\<lparr>num_volumes := Suc (num_volumes x)\<rparr>)) (ret k))"

definition new_volume :: "nref \<Rightarrow> nat option \<Rightarrow> nat option \<Rightarrow> vref prog" where
  "new_volume n number minor =
     bindA (case number of
              Some k \<Rightarrow> ret k
            | None \<Rightarrow> bindA (getA (\<lambda>w. node_res w n)) resource_next_volume) (\<lambda>k.
     bindA (case minor of
              Some m \<Rightarrow> ret m
            | None \<Rightarrow> bindA (getA (\<lambda>w. node_host (nodes w n))) next_minor) (\<lambda>m.
     bindA (getA next_vref) (\<lambda>v.
     seqA (modA (\<lambda>w. w\<lparr>next_vref := Suc v, vols := (vols w)(v :=
             \<lparr>vol_number = k, vol_minor = m, vol_node = n, vol_disk = None, vol_meta = None,
              disk_lv = None, meta_lv = None, disk_is_online = False, tiebreaker = None\<rparr>)\<rparr>))
       (ret v))))"

section \<open>Touching the configuration\<close>

definition touch_config :: "rref \<Rightarrow> unit prog" where
  "touch_config r = bindA (getA (\<lambda>w. node_list w r)) (\<lambda>ns.
     forA ns (\<lambda>n. upd_node n (\<lambda>x. x\<lparr>config_changed := True\<rparr>)))"

definition set_net_options :: "rref \<Rightarrow> string \<Rightarrow> unit prog" where
  "set_net_options r value = seqA (upd_res r (\<lambda>x. x\<lparr>net_options := value\<rparr>)) (touch_config r)"

definition set_disk_options :: "rref \<Rightarrow> string \<Rightarrow> unit prog" where
  "set_disk_options r value = seqA (upd_res r (\<lambda>x. x\<lparr>disk_options := value\<rparr>)) (touch_config r)"

definition set_resource_options :: "rref \<Rightarrow> string \<Rightarrow> unit prog" where
  "set_resource_options r value =
     seqA (upd_res r (\<lambda>x. x\<lparr>resource_options := value\<rparr>)) (touch_config r)"

definition set_handlers :: "rref \<Rightarrow> string \<Rightarrow> unit prog" where
  "set_handlers r value = seqA (upd_res r (\<lambda>x. x\<lparr>handlers := value\<rparr>)) (touch_config r)"

definition set_tiebreaker :: "vref \<Rightarrow> bool option \<Rightarrow> unit prog" where
  "set_tiebreaker v value =
     seqA (upd_vol v (\<lambda>x. x\<lparr>tiebreaker := value\<rparr>))
       (bindA (getA (\<lambda>w. vol_res w v)) touch_config)"

definition node_set_fencing_mode :: "nref \<Rightarrow> string \<Rightarrow> unit prog" where
  "node_set_fencing_mode n value =
     upd_node n (\<lambda>x. x\<lparr>fencing_mode := value, config_changed := True\<rparr>)"

definition resource_set_fencing_mode :: "rref \<Rightarrow> string \<Rightarrow> unit prog" where
  "resource_set_fencing_mode r mode = bindA (getA (\<lambda>w. node_list w r)) (\<lambda>ns.
     forA ns (\<lambda>n. node_set_fencing_mode n mode))"

section \<open>Nodes\<close>

definition node_init :: "environment \<Rightarrow> href \<Rightarrow> rref \<Rightarrow> nat \<Rightarrow> nref prog" where
  "node_init E h r port =
     bindA (getA next_nref) (\<lambda>n.
     seqA (modA (\<lambda>w. w\<lparr>next_nref := Suc n, nodes := (nodes w)(n :=
             \<lparr>fencing_mode = [], node_host = h, node_resource = r,
              node_name = host_name (hosts w h), node_port = port, disks = [],
              node_id = os_len (res_nodes (ress w r)), config_changed = True,
              node_conns = os_empty\<rparr>)\<rparr>))
    (bindA (exprA (\<lambda>w. coll_add (=) (node_res w) (res_nodes (ress w r)) n)) (\<lambda>ns.
     seqA (upd_res r (\<lambda>x. x\<lparr>res_nodes := ns\<rparr>))
    (seqA (bindA (getA (\<lambda>w. platform_helper (hosts w h))) (\<lambda>ph.
             case ph of
               LinuxPlatform \<Rightarrow> ret ()
             | WindowsPlatform \<Rightarrow>
                 host_cmd E h [''netsh'', ''advfirewall'', ''firewall'', ''add'', ''rule'',
                   ''name=DRBDTest'' @ str_nat port, ''protocol=tcp'', ''dir=in'',
                   ''localport='' @ str_nat port, ''action=allow'']))
          (ret n)))))"

record disk_opts =
  do_meta_size :: "string option"
  do_max_size :: "string option"
  do_delay_ms :: "nat option"
  do_logical_block_size :: "nat option"
  do_zero_out :: bool

definition disk_defaults :: disk_opts where
  "disk_defaults = \<lparr>do_meta_size = None, do_max_size = None, do_delay_ms = None,
     do_logical_block_size = None, do_zero_out = False\<rparr>"

definition node_add_disk ::
  "environment \<Rightarrow> nref \<Rightarrow> nat \<Rightarrow> string option \<Rightarrow> disk_opts \<Rightarrow> vref prog" where
  "node_add_disk E n vnr sz o' =
     bindA (getA (\<lambda>w. node_host (nodes w n))) (\<lambda>h.
     seqA (bindA (getA (\<lambda>w. storage_pool (hosts w h))) (\<lambda>sp.
             whenA (sp = None) (host_create_storage_pool E h False None)))
    (bindA (getA (\<lambda>w. let ds = disks (nodes w n) in
             if length ds \<le> vnr then None else Some (vol_minor (vols w (ds ! vnr))))) (\<lambda>minor.
     bindA (new_volume n (Some vnr) minor) (\<lambda>v.
     seqA (case sz of
             None \<Rightarrow> ret ()
           | Some s \<Rightarrow>
               seqA (volume_create_disks E v s (do_meta_size o') (do_max_size o')
                       (do_delay_ms o') (do_logical_block_size o'))
                 (whenA (do_zero_out o')
                   (bindA (getA (\<lambda>w. disk_arg w v)) (\<lambda>d. node_cmd E n [''blkdiscard'', ''-z'', d]))))
    (seqA (upd_node n (\<lambda>x. x\<lparr>
             disks := (if length (disks x) \<le> vnr then disks x @ [v] else (disks x)[vnr := v]),
             config_changed := True\<rparr>))
          (ret v))))))"

definition node_remove_disks :: "environment \<Rightarrow> nref \<Rightarrow> unit prog" where
  "node_remove_disks E n =
     bindA (getA (\<lambda>w. (node_host (nodes w n), disks (nodes w n)))) (\<lambda>(h, ds).
     seqA (forA ds (\<lambda>v. bindA (getA (\<lambda>w. (vol_disk (vols w v), vol_meta (vols w v)))) (\<lambda>(d, m).
             seqA (case d of None \<Rightarrow> ret () | Some x \<Rightarrow> volume_remove E h x)
                  (case m of None \<Rightarrow> ret () | Some x \<Rightarrow> volume_remove E h x))))
          (upd_node n (\<lambda>x. x\<lparr>disks := []\<rparr>)))"

definition node_cleanup :: "environment \<Rightarrow> nref \<Rightarrow> unit prog" where
  "node_cleanup E n =
     seqA (bindA (getA (\<lambda>w. res_name (res_of w n))) (\<lambda>rn.
             ignore (node_run E n False
               [''bash'', ''-c'', ''! [ -e /proc/drbd ] || drbdsetup down '' @ rn] run_defaults)))
          (node_remove_disks E n)"

definition node_adjust :: "environment \<Rightarrow> nref \<Rightarrow> unit prog" where
  "node_adjust E n =
     seqA (update_config E n)
       (bindA (getA (\<lambda>w. res_name (res_of w n))) (\<lambda>rn. node_drbdadm E n [''adjust'', rn]))"

definition nodes_adjust :: "environment \<Rightarrow> nref oset \<Rightarrow> unit prog" where
  "nodes_adjust E ns = forA (items ns) (node_adjust E)"

definition nodes_remove_disks :: "environment \<Rightarrow> nref oset \<Rightarrow> unit prog" where
  "nodes_remove_disks E ns = forA (items ns) (node_remove_disks E)"

text \<open>The operations of a single node wrap it in a collection: \<open>Nodes([self]).op()\<close>.\<close>

definition single_node :: "nref \<Rightarrow> nref oset prog" where
  "single_node n = exprA (\<lambda>w. Nodes w [n])"

definition node_up :: "environment \<Rightarrow> nref \<Rightarrow> string list \<Rightarrow> unit prog" where
  "node_up E n extra = bindA (single_node n) (\<lambda>ns. nodes_up E ns extra)"

definition node_down :: "environment \<Rightarrow> nref \<Rightarrow> unit prog" where
  "node_down E n = bindA (single_node n) (nodes_down E)"

definition node_event :: "environment \<Rightarrow> nref \<Rightarrow> string list \<Rightarrow> event_opts \<Rightarrow> string list prog" where
  "node_event E n yes opts = bindA (single_node n) (\<lambda>ns. nodes_event E ns yes opts)"

definition nodes_attach :: "environment \<Rightarrow> nref oset \<Rightarrow> unit prog" where
  "nodes_attach E ns = bindA (exprA (\<lambda>w. nodes_volumes w ns)) (volumes_attach E)"

definition nodes_detach :: "environment \<Rightarrow> nref oset \<Rightarrow> bool \<Rightarrow> unit prog" where
  "nodes_detach E ns force = bindA (exprA (\<lambda>w. nodes_volumes w ns)) (\<lambda>vs. volumes_detach E vs force)"

definition nodes_up_unconnected :: "environment \<Rightarrow> nref oset \<Rightarrow> unit prog" where
  "nodes_up_unconnected E ns =
     seqA (nodes_new_resource E ns)
    (seqA (nodes_new_minor E ns)
    (seqA (nodes_new_peer E ns)
    (seqA (nodes_peer_device_options E ns [])
    (seqA (nodes_new_path E ns None)
    (seqA (nodes_attach E ns)
    (bindA (exprA (\<lambda>w. nodes_volumes w ns)) (\<lambda>vs.
     bindA (exprA (\<lambda>w. volumes_diskful w vs)) (\<lambda>ds.
       ignore (volumes_event E ds
         [''device .* disk:(Failed|Inconsistent|Outdated|Consistent|UpToDate)''] evd)))))))))"

text \<open>Promotion; \<open>after\<close> is the platform helper's \<open>after_becoming_primary\<close>.\<close>

definition node_primary ::
  "environment \<Rightarrow> (nref \<Rightarrow> unit prog) \<Rightarrow> nref \<Rightarrow> bool \<Rightarrow> bool \<Rightarrow> unit prog" where
  "node_primary E after n force wait =
     bindA (getA (\<lambda>w. res_name (res_of w n))) (\<lambda>rn.
     seqA (if force then
             seqA (node_drbdadm E n [''primary'', ''--force'', rn])
            (bindA (exprA (\<lambda>w. node_volumes w n)) (\<lambda>vs.
             bindA (exprA (\<lambda>w. volumes_diskful w vs)) (\<lambda>ds.
               ignore (node_event E n
                 ((if os_len ds = 0 then [] else [''device .* disk:UpToDate'']) @
                  (if wait then [''resource .* role:Primary''] else [])) evd))))
           else
             seqA (node_drbdadm E n [''primary'', rn])
                  (whenA wait (ignore (node_event E n [''resource .* role:Primary''] evd))))
          (after n))"

definition node_secondary :: "environment \<Rightarrow> nref \<Rightarrow> bool \<Rightarrow> bool \<Rightarrow> unit prog" where
  "node_secondary E n wait force =
     bindA (getA (\<lambda>w. res_name (res_of w n))) (\<lambda>rn.
     seqA (node_drbdadm E n ([''secondary'', rn] @ (if force then [''--force''] else [])))
          (whenA wait (ignore (node_event E n [''resource .* role:Secondary''] evd))))"

text \<open>\<open>with node.asPrimary(force): body\<close> demotes the node however the body ends.\<close>

definition as_primary ::
  "environment \<Rightarrow> (nref \<Rightarrow> unit prog) \<Rightarrow> nref \<Rightarrow> bool \<Rightarrow> unit prog \<Rightarrow> unit prog" where
  "as_primary E after n force body =
     seqA (node_primary E after n force True) (finallyA body (node_secondary E n True False))"

section \<open>Resources\<close>

definition initial_forbidden :: "string list" where
  "initial_forbidden =
     [''connection:Timeout'', ''connection:ProtocolError'', ''disk:Failed'', ''peer-disk:Failed'']"

definition resource_init :: "string \<Rightarrow> string option \<Rightarrow> string \<Rightarrow> rref prog" where
  "resource_init name tr tls =
     bindA (getA next_rref) (\<lambda>r.
     seqA (modA (\<lambda>w. w\<lparr>next_rref := Suc r, ress := (ress w)(r :=
             \<lparr>res_name = name, net_options = [], disk_options = [], resource_options = [],
              handlers = [], res_nodes = os_empty, num_volumes = 0, res_transport = tr,
              res_tls = tls, forbidden_patterns = os_init (=) initial_forbidden\<rparr>)\<rparr>))
       (ret r))"

definition add_connection :: "nref \<Rightarrow> nref \<Rightarrow> unit prog" where
  "add_connection n0 n1 =
     bindA (Connection n0 n1) (\<lambda>c.
     bindA (exprA (\<lambda>w. coll_add conn_eq (conn_res w) (node_conns (nodes w n0)) c)) (\<lambda>cs.
       upd_node n0 (\<lambda>x. x\<lparr>node_conns := cs\<rparr>)))"

definition create_resource :: "environment \<Rightarrow> string option \<Rightarrow> rref prog" where
  "create_resource E name =
     bindA (getA (\<lambda>w. case name of None \<Rightarrow> cl_resource_name w | Some s \<Rightarrow> s)) (\<lambda>rn.
     bindA (bindA (getA (\<lambda>w. (cl_transport w, cl_tls w))) (\<lambda>(t, s). resource_init rn t s)) (\<lambda>r.
     seqA (bindA (getA cl_hosts) (\<lambda>hs.
             forA hs (\<lambda>h. bindA (next_port h) (\<lambda>p. ignore (node_init E h r p)))))
    (seqA (bindA (getA (\<lambda>w. node_list w r)) (\<lambda>ns.
             forA ns (\<lambda>n0. forA ns (\<lambda>n1. whenA (n0 \<noteq> n1) (add_connection n0 n1)))))
    (seqA (modA (\<lambda>w. w\<lparr>cl_resources := cl_resources w @ [r]\<rparr>))
          (ret r)))))"

text \<open>\<open>Resource.add_disk\<close>: the same volume number on every node, then metadata on the diskful ones.\<close>

definition resource_add_disk ::
  "environment \<Rightarrow> rref \<Rightarrow> string \<Rightarrow> nref list option \<Rightarrow> int option \<Rightarrow> (nref \<times> nat) list \<Rightarrow>
   disk_opts \<Rightarrow> md_opts \<Rightarrow> nat prog" where
  "resource_add_disk E r sz diskful max_peers bitmap_block_sizes dopts mopts =
     bindA (resource_next_volume r) (\<lambda>vnr.
     bindA (getA (\<lambda>w. node_list w r)) (\<lambda>ns.
     bindA (foldA ns (\<lambda>acc n.
              if (case diskful of None \<Rightarrow> True | Some ds \<Rightarrow> n \<in> set ds)
              then bindA (node_add_disk E n vnr (Some sz) dopts) (\<lambda>v. ret (acc @ [v]))
              else bindA (node_add_disk E n vnr None disk_defaults) (\<lambda>_. ret acc)) []) (\<lambda>vs.
     seqA (forA vs (\<lambda>v. bindA (getA (\<lambda>w. vol_node (vols w v))) (\<lambda>n.
             volume_create_md E v max_peers
               (mopts\<lparr>md_bitmap_block_size := map_of bitmap_block_sizes n\<rparr>))))
          (ret vnr))))"

definition resource_add_node :: "rref \<Rightarrow> nref \<Rightarrow> unit prog" where
  "resource_add_node r n =
     bindA (exprA (\<lambda>w. coll_add (=) (node_res w) (res_nodes (ress w r)) n)) (\<lambda>ns.
     seqA (upd_res r (\<lambda>x. x\<lparr>res_nodes := ns\<rparr>)) (touch_config r))"

definition resource_remove_node :: "rref \<Rightarrow> nref \<Rightarrow> unit prog" where
  "resource_remove_node r n =
     bindA (exprA (\<lambda>w. coll_remove (=) (node_res w) (res_nodes (ress w r)) n)) (\<lambda>ns.
     seqA (upd_res r (\<lambda>x. x\<lparr>res_nodes := ns\<rparr>)) (touch_config r))"

definition resource_rename :: "environment \<Rightarrow> rref \<Rightarrow> string \<Rightarrow> unit prog" where
  "resource_rename E r new_name =
     bindA (getA (\<lambda>w. (res_nodes (ress w r), res_name (ress w r)))) (\<lambda>(ns, old).
     seqA (nodes_run E ns [''drbdsetup'', ''rename-resource'', old, new_name])
    (seqA (ignore (nodes_event E ns
             [''rename resource name:'' @ old @ '' new_name:'' @ new_name] evd))
    (seqA (upd_res r (\<lambda>x. x\<lparr>res_name := new_name\<rparr>))
          (touch_config r))))"

definition resource_up :: "environment \<Rightarrow> rref \<Rightarrow> string list \<Rightarrow> unit prog" where
  "resource_up E r extra = bindA (getA (\<lambda>w. res_nodes (ress w r))) (\<lambda>ns. nodes_up E ns extra)"

definition resource_down :: "environment \<Rightarrow> rref \<Rightarrow> bool \<Rightarrow> unit prog" where
  "resource_down E r concurrent = bindA (getA (\<lambda>w. res_nodes (ress w r))) (\<lambda>ns.
     if concurrent then nodes_down E ns else forA (items ns) (node_down E))"

text \<open>\<open>pds.add(PeerDevice(Connection(n1, n2), v))\<close>\<close>

definition add_peer_device ::
  "nref \<Rightarrow> nref \<Rightarrow> vref \<Rightarrow> peer_device oset \<Rightarrow> peer_device oset prog" where
  "add_peer_device n1 n2 v pds = bindA (Connection n1 n2) (\<lambda>c.
     exprA (\<lambda>w. coll_add pd_eq (pd_res w) pds \<lparr>pd_conn = c, pd_volume = v\<rparr>))"

definition first_node_volumes :: "nref list \<Rightarrow> vref list prog" where
  "first_node_volumes ns = bindA (liftA (list_item ns 0)) (\<lambda>n0.
     bindA (exprA (\<lambda>w. node_volumes w n0)) (\<lambda>vs. ret (items vs)))"

definition resource_up_wait :: "environment \<Rightarrow> rref \<Rightarrow> string list \<Rightarrow> string list \<Rightarrow> unit prog" where
  "resource_up_wait E r extra expected =
     seqA (resource_up E r extra)
    (bindA (getA (\<lambda>w. node_list w r)) (\<lambda>ns.
     bindA (foldA ns (\<lambda>acc1 n1. foldA ns (\<lambda>acc2 n2.
              if n1 \<noteq> n2
              then bindA (first_node_volumes ns) (\<lambda>vs.
                     foldA vs (\<lambda>acc3 v. add_peer_device n1 n2 v acc3) acc2)
              else ret acc2) acc1) os_empty) (\<lambda>pds.
     seqA (ignore (peer_devices_event E pds
             [''peer-device .* peer-disk:('' @ join ''|'' expected @ '')'']
             (evd\<lparr>ev_timeout := Some 30\<rparr>)))
    (seqA (add_forbidden r [''connection:BrokenPipe''])
          (add_forbidden r [''connection:NetworkFailure''])))))"

definition resource_initial_resync :: "environment \<Rightarrow> rref \<Rightarrow> nat \<Rightarrow> unit prog" where
  "resource_initial_resync E r timeout =
     bindA (getA (\<lambda>w. res_nodes (ress w r))) (\<lambda>ns.
     bindA (exprA (\<lambda>w. nodes_diskful w ns)) (\<lambda>dfs.
     bindA (exprA (\<lambda>w. nodes_diskless w ns)) (\<lambda>dls.
     bindA (foldA (items dls) (\<lambda>acc1 dln.
              bindA (first_node_volumes (items dfs)) (\<lambda>vs.
                foldA vs (\<lambda>acc2 v. foldA (items dfs) (\<lambda>acc3 dfn.
                  add_peer_device dln dfn v acc3) acc2) acc1)) os_empty) (\<lambda>pds1.
     bindA (foldA (items dfs) (\<lambda>acc1 n1.
              bindA (first_node_volumes (items dfs)) (\<lambda>vs.
                foldA vs (\<lambda>acc2 v. foldA (items dfs) (\<lambda>acc3 n2.
                  if n1 \<noteq> n2 then add_peer_device n1 n2 v acc3 else ret acc3) acc2) acc1)) pds1) (\<lambda>pds2.
     ignore (peer_devices_event E pds2 [''peer-device .* peer-disk:UpToDate'']
       (evd\<lparr>ev_timeout := Some timeout\<rparr>)))))))"

definition resource_skip_initial_sync :: "environment \<Rightarrow> rref \<Rightarrow> unit prog" where
  "resource_skip_initial_sync E r =
     bindA (getA (\<lambda>w. res_nodes (ress w r))) (\<lambda>ns.
     bindA (exprA (\<lambda>w. nodes_diskful w ns)) (\<lambda>dfs.
     bindA (liftA (list_item (items dfs) 0)) (\<lambda>n.
     bindA (exprA (\<lambda>w. nodes_volumes w ns)) (\<lambda>vs.
     bindA (getA (\<lambda>w. map (\<lambda>v. res_name (ress w r) @ ''/'' @ str_nat (vol_number (vols w v)))
                (filter (\<lambda>v. truthy_str (disk_path (vols w v))) (items vs)))) (\<lambda>specs.
     seqA (node_drbdadm E n ([''new-current-uuid'', ''--clear-bitmap''] @ set_order E specs))
          (resource_initial_resync E r 300))))))"

definition resource_remove_storage_pool :: "environment \<Rightarrow> rref \<Rightarrow> unit prog" where
  "resource_remove_storage_pool E r =
     seqA (bindA (getA (\<lambda>w. res_nodes (ress w r))) (nodes_remove_disks E))
    (seqA (upd_res r (\<lambda>x. x\<lparr>num_volumes := 0\<rparr>))
          (bindA (getA cl_hosts) (\<lambda>hs. forA hs (host_remove_storage_pool E))))"

definition resource_cleanup :: "environment \<Rightarrow> rref \<Rightarrow> unit prog" where
  "resource_cleanup E r = bindA (getA skip_cleanup) (\<lambda>skip.
     whenA (\<not> skip) (bindA (getA (\<lambda>w. node_list w r)) (\<lambda>ns. forA ns (node_cleanup E))))"

definition cluster_create_storage_pool :: "environment \<Rightarrow> bool \<Rightarrow> nat option \<Rightarrow> unit prog" where
  "cluster_create_storage_pool E thin granularity = bindA (getA cl_hosts) (\<lambda>hs.
     forA hs (\<lambda>h. host_create_storage_pool E h thin granularity))"

section \<open>Selecting connections\<close>

text \<open>
  The keyword arguments of \<open>connections()\<close>: an argument that was not given is \<open>None\<close>; an
  empty collection of nodes is given but false.
\<close>

definition given :: "nref list option \<Rightarrow> bool" where
  "given x \<longleftrightarrow> x \<noteq> None \<and> x \<noteq> Some []"

definition connection_ends ::
  "world \<Rightarrow> nref option \<Rightarrow> nref option \<Rightarrow> nref list option \<Rightarrow> nref list option \<Rightarrow>
   exn + nref list \<times> nref list" where
  "connection_ends w from_node to_node from_nodes to_nodes =
     (if from_node \<noteq> None \<and> given from_nodes
      then Inl (RuntimeError ''both from_node and from_nodes specified'')
      else let fs = (case from_node of Some n \<Rightarrow> Some [n] | None \<Rightarrow> from_nodes) in
      if to_node \<noteq> None \<and> given to_nodes
      then Inl (RuntimeError ''both to_node and to_nodes specified'')
      else let ts = (case to_node of Some n \<Rightarrow> Some [n] | None \<Rightarrow> to_nodes);
               peers = (\<lambda>xs. case xs of [] \<Rightarrow> [] | n # _ \<Rightarrow> node_list w (node_res w n)) in
      case (fs, ts) of
        (None, None) \<Rightarrow> Inl (RuntimeError ''neither from nor to specified'')
      | (None, Some t) \<Rightarrow> Inr (peers t, t)
      | (Some f, None) \<Rightarrow> Inr (f, peers f)
      | (Some f, Some t) \<Rightarrow> Inr (f, t))"

definition connections ::
  "nref option \<Rightarrow> nref option \<Rightarrow> nref list option \<Rightarrow> nref list option \<Rightarrow> bool \<Rightarrow> conn oset prog" where
  "connections from_node to_node from_nodes to_nodes bidir =
     bindA (exprA (\<lambda>w. connection_ends w from_node to_node from_nodes to_nodes)) (\<lambda>(fs, ts).
     bindA (foldA fs (\<lambda>acc1 f. foldA ts (\<lambda>acc2 t.
              if f \<noteq> t
              then bindA (Connection f t) (\<lambda>c. exprA (\<lambda>w. coll_add conn_eq (conn_res w) acc2 c))
              else ret acc2) acc1) os_empty) (\<lambda>cs.
     if bidir
     then bindA (mapA (items cs) (\<lambda>c. Connection (conn_to c) (conn_from c))) (\<lambda>rs.
            exprA (\<lambda>w. coll_extend conn_eq (conn_res w) cs rs))
     else ret cs))"

definition peer_devices ::
  "nref option \<Rightarrow> nref option \<Rightarrow> nref list option \<Rightarrow> nref list option \<Rightarrow> bool \<Rightarrow>
   peer_device oset prog" where
  "peer_devices from_node to_node from_nodes to_nodes bidir =
     bindA (connections from_node to_node from_nodes to_nodes bidir) (\<lambda>cs.
       exprA (\<lambda>w. peer_devices_from_connections w cs []))"

end
