(* ===== verification/Config_Sync.thy ===== *)
theory Config_Sync
  imports Cluster_Ops
begin

text \<open>
  What the flag \<open>config_changed\<close> is for: a node's configuration file on its host agrees
  with the object model whenever \<open>drbdadm\<close> runs there. A node is \<^emph>\<open>fresh\<close> when it is marked
  for an update or the last configuration successfully written to its host is the one its
  current state generates. \<open>cfg_step\<close> is the machine of the operations on one resource; every
  operation that succeeds keeps all its nodes fresh.
\<close>

section \<open>Freshness\<close>

definition is_deploy :: "world \<Rightarrow> nref \<Rightarrow> effect \<Rightarrow> bool" where
  "is_deploy w n e \<longleftrightarrow>
     (case e of
        Ssh c r \<Rightarrow> sc_host c = host_name (host_of w n) \<and> r = Inr 0 \<and>
                   sc_cmd c = command_string (host_of w n) (deploy_command w n) run_defaults
      | _ \<Rightarrow> False)"

definition deployed :: "world \<Rightarrow> nref \<Rightarrow> string option" where
  "deployed w n =
     (case filter (is_deploy w n) (rev (trace w)) of
        Ssh c _ # _ \<Rightarrow> sc_stdin c
      | _ \<Rightarrow> None)"

definition fresh :: "world \<Rightarrow> nref \<Rightarrow> bool" where
  "fresh w n \<longleftrightarrow> config_changed (nodes w n) \<or> (\<exists>t. config w n = Inr t \<and> deployed w n = Some t)"

text \<open>The part of the state that a configuration text is made of.\<close>

definition cfg_core :: "world \<Rightarrow> world" where
  "cfg_core w = w\<lparr>trace := [], nodes := (\<lambda>m. (nodes w m)\<lparr>config_changed := True\<rparr>),
     hosts := (\<lambda>h. (hosts w h)\<lparr>uuid_options := None\<rparr>),
     ress := (\<lambda>r. (ress w r)\<lparr>forbidden_patterns := os_empty\<rparr>)\<rparr>"

lemma cfg_core_simps [simp]:
  "hosts (cfg_core w) h = (hosts w h)\<lparr>uuid_options := None\<rparr>"
  "nodes (cfg_core w) m = (nodes w m)\<lparr>config_changed := True\<rparr>"
  "ress (cfg_core w) r = (ress w r)\<lparr>forbidden_patterns := os_empty\<rparr>" "vols (cfg_core w) = vols w" "job (cfg_core w) = job w"
  "logdir (cfg_core w) = logdir w" "proxy_enable (cfg_core w) = proxy_enable w"
  "lz4_enable (cfg_core w) = lz4_enable w" "zstd_enable (cfg_core w) = zstd_enable w"
  "memlimit (cfg_core w) = memlimit w"
  by (simp_all add: cfg_core_def)

lemma is_v9_uuid [simp]: "is_v9 (h\<lparr>uuid_options := x\<rparr>) = is_v9 h"
  by (simp add: is_v9_def)

lemma config_core: "config (cfg_core w) n = config w n"
proof -
  have d: "device_for_config (cfg_core w) = device_for_config w"
    by (rule ext) (simp add: device_for_config_def split: platform.split)
  have v: "config_volume (cfg_core w) = config_volume w"
    unfolding config_volume_def d by simp
  have h: "config_host (cfg_core w) n = config_host w n"
    unfolding config_host_def v by (rule ext) (simp cong: if_cong)
  have o: "config_one_connection (cfg_core w) n = config_one_connection w n"
    unfolding config_one_connection_def config_proxy_host_def config_one_host_addr_def
    by (intro ext) (simp cong: if_cong)
  have b: "config_disk_block (cfg_core w) n = config_disk_block w n"
    "config_net_block (cfg_core w) n = config_net_block w n"
    "config_proxy_block (cfg_core w) = config_proxy_block w"
    "config_conns_9 (cfg_core w) n = config_conns_9 w n"
    unfolding config_disk_block_def config_net_block_def config_proxy_block_def
      config_conns_9_def o Let_def by (simp_all cong: if_cong)
  show ?thesis unfolding config_def node_config_def b h by simp
qed

lemma command_string_uuid [simp]:
  "command_string (h\<lparr>uuid_options := x\<rparr>) cmd opts = command_string h cmd opts"
  by (simp add: command_string_def)

lemma deploy_command_core: "deploy_command (cfg_core w) n = deploy_command w n"
  by (simp add: deploy_command_def drbd_config_file_path_def)

lemma is_deploy_core: "is_deploy (cfg_core w) n e = is_deploy w n e"
  by (simp add: is_deploy_def deploy_command_core split: effect.splits)

lemma core_eqD:
  assumes "cfg_core w' = cfg_core w"
  shows "config w' n = config w n" and "is_deploy w' n = is_deploy w n"
    and "deploy_command w' n = deploy_command w n"
    and "node_list w' r = node_list w r"
    and "node_host (nodes w' n) = node_host (nodes w n)"
    and "node_resource (nodes w' n) = node_resource (nodes w n)"
    and "host_name (hosts w' h) = host_name (hosts w h)"
    and "command_string (hosts w' h) cmd opts = command_string (hosts w h) cmd opts"
proof -
  show "config w' n = config w n" by (metis assms config_core)
  show "is_deploy w' n = is_deploy w n" by (rule ext) (metis assms is_deploy_core)
  show "deploy_command w' n = deploy_command w n" by (metis assms deploy_command_core)
  have r: "(ress w' r)\<lparr>forbidden_patterns := os_empty\<rparr> = (ress w r)\<lparr>forbidden_patterns := os_empty\<rparr>"
    by (metis assms cfg_core_simps(3))
  have n: "(nodes w' n)\<lparr>config_changed := True\<rparr> = (nodes w n)\<lparr>config_changed := True\<rparr>"
    by (metis assms cfg_core_simps(2))
  have h: "(hosts w' h)\<lparr>uuid_options := None\<rparr> = (hosts w h)\<lparr>uuid_options := None\<rparr>"
    by (metis assms cfg_core_simps(1))
  show "node_list w' r = node_list w r" using arg_cong [OF r, of res_nodes] by simp
  show "node_host (nodes w' n) = node_host (nodes w n)"
    using arg_cong [OF n, of node_host] by simp
  show "node_resource (nodes w' n) = node_resource (nodes w n)"
    using arg_cong [OF n, of node_resource] by simp
  show "host_name (hosts w' h) = host_name (hosts w h)"
    using arg_cong [OF h, of host_name] by simp
  show "command_string (hosts w' h) cmd opts = command_string (hosts w h) cmd opts"
    by (metis h command_string_uuid)
qed

lemma objects_core: "objects w' = objects w \<Longrightarrow> cfg_core w' = cfg_core w"
proof -
  assume "objects w' = objects w"
  moreover have "cfg_core w = cfg_core (objects w)" for w
    by (simp add: cfg_core_def objects_def)
  ultimately show ?thesis by metis
qed

lemma deployed_append:
  "deployed (w\<lparr>trace := es @ fs\<rparr>) n =
     (if \<exists>e \<in> set fs. is_deploy w n e then deployed (w\<lparr>trace := fs\<rparr>) n
      else deployed (w\<lparr>trace := es\<rparr>) n)"
proof -
  have c: "is_deploy (w\<lparr>trace := gs\<rparr>) n = is_deploy w n" for gs
    by (rule core_eqD) (simp add: cfg_core_def)
  show ?thesis
  proof (cases "\<exists>e \<in> set fs. is_deploy w n e")
    case True
    then obtain x xs where "filter (is_deploy w n) (rev fs) = x # xs"
      by (metis filter_empty_conv neq_Nil_conv set_rev)
    with True show ?thesis by (simp add: deployed_def c)
  next
    case False
    then have "filter (is_deploy w n) (rev fs) = []" by (simp add: filter_empty_conv)
    with False show ?thesis by (simp add: deployed_def c)
  qed
qed

text \<open>Extending the trace by effects that are no deployment keeps a node fresh.\<close>

lemma deployed_extend:
  assumes "cfg_core w' = cfg_core w" and "trace w' = trace w @ es"
    and "\<forall>e \<in> set es. \<not> is_deploy w n e"
  shows "deployed w' n = deployed w n"
proof -
  have d: "deployed v n = deployed (w\<lparr>trace := trace v\<rparr>) n" if "cfg_core v = cfg_core w" for v
    using core_eqD(2) [OF that, of n] core_eqD(2) [of "w\<lparr>trace := trace v\<rparr>" w n]
    by (simp add: deployed_def cfg_core_def)
  show ?thesis
    unfolding d [OF assms(1)] assms(2) deployed_append using assms(3) by simp
qed

lemma fresh_extend:
  assumes "cfg_core w' = cfg_core w" and "trace w' = trace w @ es"
    and "\<forall>e \<in> set es. \<not> is_deploy w n e"
    and "config_changed (nodes w' n) = config_changed (nodes w n)"
  shows "fresh w' n = fresh w n"
  using assms(4) core_eqD(1) [OF assms(1), of n] deployed_extend [OF assms(1-3)]
  by (simp add: fresh_def)

section \<open>One command\<close>

lemma host_run_InrD:
  assumes "host_run E h cmd opts w = (Inr r, w')" and "\<not> ro_catch opts"
  shows "\<exists>c. w' = w\<lparr>trace := trace w @ [Log (host_name (hosts w h) @ '': '' @ sc_cmd c), Ssh c (Inr 0)]\<rparr> \<and>
    sc_host c = host_name (hosts w h) \<and> sc_cmd c = command_string (hosts w h) cmd opts \<and>
    sc_stdin c = ro_stdin opts"
  using assms
  by (intro exI [of _ "\<lparr>sc_host = host_name (hosts w h), sc_cmd = command_string (hosts w h) cmd opts,
        sc_stdin = ro_stdin opts, sc_env = ro_env opts, sc_timeout = ro_timeout opts\<rparr>"])
    (auto simp: host_run_def ssh_exec_def emit_def Let_def bindA_def seqA_def
      split: sum.splits if_splits)

lemma quoted_command_inj: "quoted_command c = quoted_command d \<Longrightarrow> c = d"
  by (metis sh_words_quoted option.inject)

lemma command_string_inj:
  assumes "command_string h c o1 = command_string h d o2"
    and "ro_quote o1" "ro_quote o2" "ro_ignore_netns o1 = ro_ignore_netns o2"
  shows "c = d"
  using assms by (intro quoted_command_inj) (auto simp: command_string_def Let_def split: option.splits if_splits)

lemma run_defaults_simps [simp]:
  "ro_quote run_defaults" "\<not> ro_catch run_defaults" "\<not> ro_ignore_netns run_defaults"
  "ro_stdin run_defaults = None" "\<not> ro_return_stdout run_defaults"
  by (simp_all add: run_defaults_def)

lemma command_string_stdin [simp]:
  "command_string h cmd (opts\<lparr>ro_stdin := x\<rparr>) = command_string h cmd opts"
  by (simp add: command_string_def cong: option.case_cong if_cong)

text \<open>A successful update: the flag is down and the file on the host is the current text.\<close>

lemma update_config_run:
  assumes "update_config E n w = (Inr (), w')" and "config_changed (nodes w n)"
    and w1: "w1 = w\<lparr>nodes := (nodes w)(n := (nodes w n)\<lparr>config_changed := False\<rparr>)\<rparr>"
  obtains t fl c where "config w1 n = Inr t" "sc_host c = host_name (host_of w1 n)" "sc_stdin c = Some t"
    "sc_cmd c = command_string (host_of w1 n) (deploy_command w1 n) run_defaults"
    "w' = w1\<lparr>trace := trace w1 @ [LocalWrite fl t, Log (host_name (host_of w1 n) @ '': '' @ sc_cmd c), Ssh c (Inr 0)]\<rparr>"
proof -
  have "\<exists>t fl. config w1 n = Inr t \<and> (\<exists>r. host_run E (node_host (nodes w1 n))
      (deploy_command w1 n) (with_stdin t) (w1\<lparr>trace := trace w1 @ [LocalWrite fl t]\<rparr>) = (Inr r, w'))"
    using assms(1,2)
    by (auto simp: update_config_def upd_node_def emit_def w1 [symmetric] bindA_def seqA_def
        deploy_command_def drbd_config_file_path_def split: sum.splits prod.splits)
  then obtain t fl r where t: "config w1 n = Inr t" and
    run: "host_run E (node_host (nodes w1 n)) (deploy_command w1 n) (with_stdin t)
        (w1\<lparr>trace := trace w1 @ [LocalWrite fl t]\<rparr>) = (Inr r, w')" by blast
  from host_run_InrD [OF run] that [OF t] show ?thesis by auto
qed

text \<open>An update that returns leaves the node up to date, and touches nothing else but the flag.\<close>

definition updated :: "world \<Rightarrow> nref \<Rightarrow> world \<Rightarrow> bool" where
  "updated w n w' \<longleftrightarrow> \<not> config_changed (nodes w' n) \<and> (\<exists>t. config w' n = Inr t \<and> deployed w' n = Some t) \<and>
     cfg_core w' = cfg_core w \<and> (\<exists>es. trace w' = trace w @ es \<and>
       (\<forall>c r. Ssh c r \<in> set es \<longrightarrow> sc_host c = host_name (host_of w n))) \<and>
     (\<forall>m. m \<noteq> n \<longrightarrow> config_changed (nodes w' m) = config_changed (nodes w m))"

lemma update_config_updated:
  assumes "update_config E n w = (Inr (), w')" and "fresh w n"
  shows "updated w n w'"
proof (cases "config_changed (nodes w n)")
  case False
  with assms have "w' = w" by (simp add: update_config_def)
  with False assms(2) show ?thesis by (simp add: fresh_def updated_def)
next
  case True
  define w1 where "w1 = w\<lparr>nodes := (nodes w)(n := (nodes w n)\<lparr>config_changed := False\<rparr>)\<rparr>"
  have core1: "cfg_core w1 = cfg_core w"
    unfolding cfg_core_def w1_def by (simp add: fun_eq_iff cong: if_cong)
  obtain t fl c where t: "config w1 n = Inr t" and c: "sc_host c = host_name (host_of w1 n)" "sc_stdin c = Some t"
      "sc_cmd c = command_string (host_of w1 n) (deploy_command w1 n) run_defaults"
    and w': "w' = w1\<lparr>trace := trace w1 @ [LocalWrite fl t, Log (host_name (host_of w1 n) @ '': '' @ sc_cmd c), Ssh c (Inr 0)]\<rparr>"
    by (rule update_config_run [OF assms(1) True w1_def])
  have core: "cfg_core w' = cfg_core w" using core1 by (simp add: w' cfg_core_def)
  have dep: "is_deploy w' n (Ssh c (Inr 0))"
    using c by (simp add: is_deploy_def w' deploy_command_def drbd_config_file_path_def)
  have "deployed w' n = Some t" using dep c by (simp add: deployed_def w')
  moreover have "config w' n = Inr t"
    using t core_eqD(1) [OF core, of n] core_eqD(1) [OF core1, of n] by simp
  moreover have "trace w' = trace w @ [LocalWrite fl t,
      Log (host_name (host_of w1 n) @ '': '' @ sc_cmd c), Ssh c (Inr 0)]" "sc_host c = host_name (host_of w n)"
    using c by (simp_all add: w' w1_def)
  moreover have "\<not> config_changed (nodes w' n)" "\<forall>m. m \<noteq> n \<longrightarrow> config_changed (nodes w' m) = config_changed (nodes w m)"
    by (simp_all add: w' w1_def)
  ultimately show ?thesis using core by (auto simp: updated_def)
qed

lemma update_config_ok:
  assumes "update_config E n w = (Inr (), w')" and "fresh w n"
  shows "\<not> config_changed (nodes w' n)" and "\<exists>t. config w' n = Inr t \<and> deployed w' n = Some t"
    and "cfg_core w' = cfg_core w"
    and "\<exists>es. trace w' = trace w @ es \<and>
      (\<forall>c r. Ssh c r \<in> set es \<longrightarrow> sc_host c = host_name (host_of w n))"
    and "m \<noteq> n \<Longrightarrow> config_changed (nodes w' m) = config_changed (nodes w m)"
  using update_config_updated [OF assms] unfolding updated_def by blast+

section \<open>Successful statements keep every node fresh\<close>

text \<open>
  The nodes \<open>ns\<close> of a test, on hosts with different names, in a state whose configuration
  core is \<open>C\<close>, are all fresh.
\<close>

definition synced :: "world \<Rightarrow> nref set \<Rightarrow> world \<Rightarrow> bool" where
  "synced C ns w \<longleftrightarrow> cfg_core w = C \<and> inj_on (\<lambda>n. host_name (host_of w n)) ns \<and>
     (\<forall>n \<in> ns. fresh w n)"

text \<open>A step that only extends the trace by effects on one host and changes no flag.\<close>

lemma synced_extend:
  assumes "synced C ns w" and "cfg_core w' = cfg_core w" and "trace w' = trace w @ es"
    and "\<forall>m \<in> ns. \<forall>e \<in> set es. \<not> is_deploy w m e"
    and "\<forall>m \<in> ns. config_changed (nodes w' m) = config_changed (nodes w m)"
  shows "synced C ns w'"
proof -
  have "host_name (host_of w' m) = host_name (host_of w m)" for m
    using core_eqD(5,7) [OF assms(2)] by simp
  moreover have "fresh w' m = fresh w m" if "m \<in> ns" for m
    using assms that by (intro fresh_extend) auto
  ultimately show ?thesis using assms(1,2) by (simp add: synced_def)
qed

lemma is_deploy_name: "is_deploy w n (Ssh c r) \<Longrightarrow> sc_host c = host_name (host_of w n)"
  by (simp add: is_deploy_def)

lemma keeps_emit_synced [keep_rules]:
  "\<forall>c r. e \<noteq> Ssh c r \<Longrightarrow> keeps (synced C ns) (emit e)"
  by (intro keepsI, erule synced_extend [where es = "[e]"])
    (auto simp: emit_def cfg_core_def is_deploy_def split: effect.splits)

lemma keeps_update_config [keep_rules]:
  assumes "n \<in> ns"
  shows "keeps (synced C ns) (update_config E n)"
proof (rule keepsI)
  fix w x w' assume s: "synced C ns w" and "update_config E n w = (Inr x, w')"
  then have up: "update_config E n w = (Inr (), w')" by simp
  have fr: "fresh w n" using s assms by (simp add: synced_def)
  note u = update_config_ok [OF up fr]
  obtain es where es: "trace w' = trace w @ es"
    "\<forall>c r. Ssh c r \<in> set es \<longrightarrow> sc_host c = host_name (host_of w n)" using u(4) by blast
  have "fresh w' m" if m: "m \<in> ns" for m
  proof (cases "m = n")
    case False
    have "\<not> is_deploy w m e" if "e \<in> set es" for e
    proof
      assume d: "is_deploy w m e"
      then obtain c r where e: "e = Ssh c r" by (auto simp: is_deploy_def split: effect.splits)
      with d es(2) that have "host_name (host_of w m) = host_name (host_of w n)"
        using is_deploy_name by metis
      with s m assms False show False by (auto simp: synced_def inj_on_def)
    qed
    then have "fresh w' m = fresh w m"
      using es(1) u(3) u(5) [OF False] by (intro fresh_extend) auto
    with s m show ?thesis by (simp add: synced_def)
  qed (use u(2) in \<open>simp add: fresh_def\<close>)
  moreover have "host_name (host_of w' m) = host_name (host_of w m)" for m
    using core_eqD(5,7) [OF u(3)] by simp
  ultimately show "synced C ns w'" using s u(3) by (simp add: synced_def)
qed

text \<open>A remote command other than the deployment itself.\<close>

definition no_deploy :: "string list \<Rightarrow> bool" where
  "no_deploy cmd \<longleftrightarrow> (\<forall>f. cmd \<noteq> [''bash'', ''-c'', ''cat > '' @ f])"

definition plain_opts :: "run_opts \<Rightarrow> bool" where
  "plain_opts opts \<longleftrightarrow> ro_quote opts \<and> \<not> ro_ignore_netns opts"

lemma no_deploy_hd: "cmd \<noteq> [] \<Longrightarrow> hd cmd \<noteq> ''bash'' \<Longrightarrow> no_deploy cmd"
  by (auto simp: no_deploy_def)

lemma no_deploy_Cons [simp]: "c \<noteq> ''bash'' \<Longrightarrow> no_deploy (c # cs)"
  by (simp add: no_deploy_def)

lemma no_deploy_drbdadm [simp]: "no_deploy (drbdadm_command w n cmd)"
  by (simp add: drbdadm_command_def)

lemma plain_opts_simps [simp]:
  "plain_opts run_defaults" "plain_opts (o1\<lparr>ro_return_stdout := b\<rparr>) = plain_opts o1"
  "plain_opts (o1\<lparr>ro_stdin := x\<rparr>) = plain_opts o1" "plain_opts (o1\<lparr>ro_catch := b\<rparr>) = plain_opts o1"
  by (simp_all add: plain_opts_def)

lemma keeps_host_run:
  assumes n: "n \<in> ns" and h: "\<And>w. synced C ns w \<Longrightarrow> h = node_host (nodes w n)"
    and cmd: "no_deploy cmd" and opts: "plain_opts opts"
  shows "keeps (synced C ns) (host_run E h cmd opts)"
proof (rule keepsI)
  fix w x w' assume s: "synced C ns w" and run: "host_run E h cmd opts w = (Inr x, w')"
  have ob: "objects w' = objects w" "\<exists>es. trace w' = trace w @ es"
    using effects_objects [OF effects_host_run run] effects_trace [OF effects_host_run run] .
  have core: "cfg_core w' = cfg_core w" using objects_core ob(1) .
  obtain es where es: "trace w' = trace w @ es" using ob(2) ..
  have host: "sc_host c = host_name (host_of w n) \<and> sc_cmd c = command_string (host_of w n) cmd opts"
    if "Ssh c r \<in> set es" for c r
    using run that es h [OF s]
    by (auto simp: host_run_def ssh_exec_def emit_def Let_def bindA_def seqA_def
        split: sum.splits if_splits prod.splits)
  have "\<not> is_deploy w m e" if m: "m \<in> ns" and e: "e \<in> set es" for m e
  proof
    assume d: "is_deploy w m e"
    then obtain c r where c: "e = Ssh c r" by (auto simp: is_deploy_def split: effect.splits)
    with d e host have "host_name (host_of w m) = host_name (host_of w n)"
      using is_deploy_name by metis
    with s m n have "m = n" by (auto simp: synced_def inj_on_def)
    with d c e host have "command_string (host_of w n) cmd opts =
        command_string (host_of w n) (deploy_command w n) run_defaults"
      by (auto simp: is_deploy_def)
    then have "cmd = deploy_command w n"
      by (rule command_string_inj) (use opts in \<open>auto simp: plain_opts_def\<close>)
    with cmd show False by (simp add: no_deploy_def deploy_command_def)
  qed
  moreover have "nodes w' = nodes w" using ob(1) by (rule objects_eqD)
  ultimately show "synced C ns w'" by (intro synced_extend [OF s core es]) auto
qed

lemma keeps_node_run [keep_rules]:
  assumes "n \<in> ns" and "no_deploy cmd" and "plain_opts opts"
  shows "keeps (synced C ns) (node_run E n True cmd opts)"
proof -
  have "keeps (synced C ns) (host_run E (node_host (nodes s n)) cmd opts)"
    if s: "synced C ns s" for s
  proof (rule keeps_host_run [OF assms(1) _ assms(2,3)])
    fix w assume "synced C ns w"
    with s show "node_host (nodes s n) = node_host (nodes w n)"
      using core_eqD(5) [of s w n] by (simp add: synced_def)
  qed
  then show ?thesis
    unfolding node_run_def
    by (intro keeps_seq keeps_when keeps_bind_get keeps_update_config assms(1))
qed

lemma keeps_node_cmd [keep_rules]:
  "n \<in> ns \<Longrightarrow> no_deploy cmd \<Longrightarrow> keeps (synced C ns) (node_cmd E n cmd)"
  unfolding node_cmd_def by (intro keep_rules plain_opts_simps)

lemma keeps_node_stdout [keep_rules]:
  "n \<in> ns \<Longrightarrow> no_deploy cmd \<Longrightarrow> keeps (synced C ns) (node_stdout E n cmd)"
  unfolding node_stdout_def by (intro keep_rules) simp_all

lemma keeps_node_drbdadm [keep_rules]:
  "n \<in> ns \<Longrightarrow> keeps (synced C ns) (node_drbdadm E n cmd)"
  unfolding node_drbdadm_def by (intro keeps_bind_get keeps_node_cmd) simp_all

lemma keeps_forbidden [keep_rules]:
  "keeps (synced C ns) (remove_forbidden r ps)" "keeps (synced C ns) (add_forbidden r ps)"
proof -
  have core: "cfg_core (w\<lparr>ress := (ress w)(r := (ress w r)\<lparr>forbidden_patterns := f\<rparr>)\<rparr>) = cfg_core w"
    for w f by (simp add: cfg_core_def fun_eq_iff cong: if_cong)
  show "keeps (synced C ns) (remove_forbidden r ps)" "keeps (synced C ns) (add_forbidden r ps)"
    unfolding remove_forbidden_def add_forbidden_def upd_res_def
    by (rule keepsI, erule synced_extend [where es = "[]"], auto simp: core)+
qed

lemma keeps_logscan [keep_rules]: "keeps (synced C ns) (resource_logscan E r yes fs opts)"
  unfolding resource_logscan_def cluster_logscan_def by (intro keep_rules) simp

lemma keeps_events [keep_rules]:
  "keeps (synced C ns) (nodes_event E xs yes opts)"
  "keeps (synced C ns) (volumes_event E vs yes opts)"
  "keeps (synced C ns) (connections_event E cs yes opts)"
  "keeps (synced C ns) (peer_devices_event E ps yes opts)"
  unfolding nodes_event_def volumes_event_def connections_event_def peer_devices_event_def
  by (intro keep_rules)+

lemma keeps_exprA [keep_rules]: "keeps I (exprA f)"
  unfolding exprA_def by (intro keep_rules)

lemma keeps_ignore [keep_rules]: "keeps I m \<Longrightarrow> keeps I (ignore m)"
  unfolding ignore_def by (intro keep_rules)

lemma keeps_nodes_res_drbdadm [keep_rules]:
  "set (items xs) \<subseteq> ns \<Longrightarrow> keeps (synced C ns) (nodes_res_drbdadm E xs cmd opts)"
  unfolding nodes_res_drbdadm_def nodes_resource_def nodes_drbdadm_def
  by (intro keep_rules) auto

lemma keeps_nodes_up [keep_rules]:
  "set (items xs) \<subseteq> ns \<Longrightarrow> keeps (synced C ns) (nodes_up E xs extra)"
  unfolding nodes_up_def by (intro keep_rules)

lemma keeps_nodes_down [keep_rules]:
  "set (items xs) \<subseteq> ns \<Longrightarrow> keeps (synced C ns) (nodes_down E xs)"
  unfolding nodes_down_def nodes_resource_def by (intro keep_rules)

lemma synced_vols: "synced C ns w \<Longrightarrow> vols w = vols C"
  by (auto simp: synced_def)

lemma keeps_volumes_attach [keep_rules]:
  "\<forall>v \<in> set (items vs). vol_node (vols C v) \<in> ns \<Longrightarrow> keeps (synced C ns) (volumes_attach E vs)"
  unfolding volumes_attach_def by (intro keep_rules) (auto dest: synced_vols)

lemma keeps_volumes_detach [keep_rules]:
  "\<forall>v \<in> set (items vs). vol_node (vols C v) \<in> ns \<Longrightarrow> keeps (synced C ns) (volumes_detach E vs f)"
  unfolding volumes_detach_def by (intro keep_rules) (auto dest: synced_vols)

lemma keeps_connections_run_drbdadm [keep_rules]:
  "\<forall>c \<in> set (items cs). conn_from c \<in> ns \<Longrightarrow>
   keeps (synced C ns) (connections_run_drbdadm E cs cmd st wt opts)"
  unfolding connections_run_drbdadm_def by (intro keep_rules) auto

lemma keeps_connect [keep_rules]:
  "\<forall>c \<in> set (items cs). conn_from c \<in> ns \<Longrightarrow> keeps (synced C ns) (connections_connect E cs wt opts)"
  "\<forall>c \<in> set (items cs). conn_from c \<in> ns \<Longrightarrow> keeps (synced C ns) (connections_disconnect E cs wt f)"
  unfolding connections_connect_def connections_disconnect_def by (intro keep_rules; simp)+

lemma keeps_verify [keep_rules]:
  "\<forall>p \<in> set (items ps). conn_from (pd_conn p) \<in> ns \<Longrightarrow>
   keeps (synced C ns) (peer_devices_verify E ps wt opts)"
  unfolding peer_devices_verify_def by (intro keep_rules) auto

lemma keeps_secondary [keep_rules]:
  "n \<in> ns \<Longrightarrow> keeps (synced C ns) (node_secondary E n wt force)"
  unfolding node_secondary_def node_event_def single_node_def by (intro keep_rules)

lemma keeps_supports_uuid_options:
  assumes "n \<in> ns" and "\<And>w. synced C ns w \<Longrightarrow> h = node_host (nodes w n)"
  shows "keeps (synced C ns) (supports_uuid_options E h)"
proof -
  have core: "cfg_core (w\<lparr>hosts := (hosts w)(h := (hosts w h)\<lparr>uuid_options := x\<rparr>)\<rparr>) = cfg_core w"
    for w x by (simp add: cfg_core_def fun_eq_iff cong: if_cong)
  have "keeps (synced C ns) (upd_host h (\<lambda>y. y\<lparr>uuid_options := x\<rparr>))" for x
    unfolding upd_host_def
    by (rule keepsI, erule synced_extend [where es = "[]"]) (auto simp: core)
  moreover have "no_deploy [''bash'', ''-c'',
      ''drbdmeta - v09 /dev/null internal create-md 3 --initial-current-uuid 2>&1 || true'']"
    by (simp add: no_deploy_def)
  ultimately show ?thesis
    unfolding supports_uuid_options_def host_stdout_def
    by (intro keep_rules keeps_host_run [OF assms]; simp)
qed

lemma keeps_create_md [keep_rules]:
  assumes "n \<in> ns"
  shows "keeps (synced C ns) (create_md E n vnr mp opts)"
proof -
  have host: "node_host (nodes s n) = node_host (nodes w n)" if "synced C ns s" "synced C ns w" for s w
    using that core_eqD(5) [of s w n] by (simp add: synced_def)
  show ?thesis
    unfolding create_md_def
    by (intro keep_rules keeps_supports_uuid_options [OF assms] assms) (auto intro: host)
qed

lemma keeps_volume_create_md [keep_rules]:
  "vol_node (vols C v) \<in> ns \<Longrightarrow> keeps (synced C ns) (volume_create_md E v mp opts)"
  unfolding volume_create_md_def by (intro keep_rules) (auto dest: synced_vols)

section \<open>Changing the configuration\<close>

definition flag_nodes :: "nref set \<Rightarrow> world \<Rightarrow> world" where
  "flag_nodes ns w = w\<lparr>nodes := (\<lambda>n. if n \<in> ns then (nodes w n)\<lparr>config_changed := True\<rparr> else nodes w n)\<rparr>"

lemma flag_nodes_insert:
  "flag_nodes ns (w\<lparr>nodes := (nodes w)(n := (nodes w n)\<lparr>config_changed := True\<rparr>)\<rparr>) =
   flag_nodes (insert n ns) w"
  unfolding flag_nodes_def
  by (simp cong: if_cong, rule arg_cong [where f = "\<lambda>N. w\<lparr>nodes := N\<rparr>"], rule ext) simp

lemma touch_config_eq: "touch_config r w = (Inr (), flag_nodes (set (node_list w r)) w)"
proof -
  have "forA xs (\<lambda>n. upd_node n (\<lambda>x. x\<lparr>config_changed := True\<rparr>)) w = (Inr (), flag_nodes (set xs) w)"
    for xs
  proof (induction xs arbitrary: w)
    case Nil
    then show ?case by (simp add: flag_nodes_def)
  next
    case (Cons x xs)
    have "upd_node x (\<lambda>x. x\<lparr>config_changed := True\<rparr>) w =
        (Inr (), w\<lparr>nodes := (nodes w)(x := (nodes w x)\<lparr>config_changed := True\<rparr>)\<rparr>)"
      by (simp add: upd_node_def)
    then show ?case by (simp add: seq_ok Cons flag_nodes_insert)
  qed
  then show ?thesis by (simp add: touch_config_def)
qed

lemma flag_nodes_simps [simp]:
  "hosts (flag_nodes ns w) = hosts w" "ress (flag_nodes ns w) = ress w" "vols (flag_nodes ns w) = vols w"
  "trace (flag_nodes ns w) = trace w" "node_host (nodes (flag_nodes ns w) n) = node_host (nodes w n)"
  "config_changed (nodes (flag_nodes ns w) n) = (n \<in> ns \<or> config_changed (nodes w n))"
  by (simp_all add: flag_nodes_def)

definition hosts_distinct :: "rref \<Rightarrow> world \<Rightarrow> bool" where
  "hosts_distinct r w \<longleftrightarrow> inj_on (\<lambda>n. host_name (host_of w n)) (set (node_list w r))"

lemma hosts_distinct_cong:
  "node_list w' r = node_list w r \<Longrightarrow> (\<And>n. host_name (host_of w' n) = host_name (host_of w n)) \<Longrightarrow>
   hosts_distinct r w' = hosts_distinct r w"
  by (simp add: hosts_distinct_def)

text \<open>The invariant of a resource: its nodes are on different hosts and fresh.\<close>

definition all_fresh :: "rref \<Rightarrow> world \<Rightarrow> bool" where
  "all_fresh r w \<longleftrightarrow> hosts_distinct r w \<and> (\<forall>n \<in> set (node_list w r). fresh w n)"

lemma all_fresh_synced: "all_fresh r w = synced (cfg_core w) (set (node_list w r)) w"
  by (simp add: all_fresh_def synced_def hosts_distinct_def)

lemma all_fresh_keep:
  assumes "keeps (synced (cfg_core w) (set (node_list w r))) m" and "all_fresh r w"
    and "m w = (Inr x, w')"
  shows "all_fresh r w'"
proof -
  have s: "synced (cfg_core w) (set (node_list w r)) w'"
    using keepsD [OF assms(1) _ assms(3)] assms(2) by (simp add: all_fresh_synced)
  then have "cfg_core w' = cfg_core w" by (simp add: synced_def)
  with s show ?thesis using core_eqD(4) [of w' w r] by (simp add: all_fresh_synced)
qed

lemma all_fresh_flagged:
  "hosts_distinct r w \<Longrightarrow> \<forall>n \<in> set (node_list w r). config_changed (nodes w n) \<Longrightarrow> all_fresh r w"
  by (simp add: all_fresh_def fresh_def)

lemma all_fresh_touch:
  assumes "hosts_distinct r w" and "touch_config r w = (Inr x, w')"
  shows "all_fresh r w'"
  using assms by (intro all_fresh_flagged) (auto simp: touch_config_eq hosts_distinct_def)

text \<open>A node's fencing mode is part of its own configuration only.\<close>

lemma config_fencing_other:
  assumes "m \<noteq> n"
  shows "config (w\<lparr>nodes := (nodes w)(n := (nodes w n)\<lparr>fencing_mode := v, config_changed := b\<rparr>)\<rparr>) m = config w m"
    (is "config ?w m = _")
proof -
  have nd: "node_host (nodes ?w k) = node_host (nodes w k)" "node_name (nodes ?w k) = node_name (nodes w k)"
    "node_port (nodes ?w k) = node_port (nodes w k)" "node_id (nodes ?w k) = node_id (nodes w k)"
    "disks (nodes ?w k) = disks (nodes w k)" "node_resource (nodes ?w k) = node_resource (nodes w k)" for k
    by simp_all
  have m: "nodes ?w m = nodes w m" using assms by simp
  have d: "device_for_config ?w = device_for_config w"
    by (rule ext) (simp add: device_for_config_def split: platform.split)
  have v: "config_volume ?w = config_volume w" unfolding config_volume_def d by simp
  have h: "config_host ?w m = config_host w m"
    unfolding config_host_def v nd by (rule ext) (simp cong: if_cong)
  have o: "config_one_connection ?w m = config_one_connection w m"
    unfolding config_one_connection_def config_proxy_host_def config_one_host_addr_def nd
    by (intro ext) (simp cong: if_cong)
  have b: "config_disk_block ?w m = config_disk_block w m"
    "config_net_block ?w m = config_net_block w m"
    "config_proxy_block ?w = config_proxy_block w"
    "config_conns_9 ?w m = config_conns_9 w m"
    unfolding config_disk_block_def config_net_block_def config_proxy_block_def
      config_conns_9_def o Let_def m by (simp_all cong: if_cong)
  show ?thesis unfolding config_def node_config_def b h nd by simp
qed

lemma all_fresh_fencing:
  assumes "all_fresh r w" and "node_set_fencing_mode n v w = (Inr x, w')"
  shows "all_fresh r w'"
proof -
  have w': "w' = w\<lparr>nodes := (nodes w)(n := (nodes w n)\<lparr>fencing_mode := v, config_changed := True\<rparr>)\<rparr>"
    using assms(2) by (simp add: node_set_fencing_mode_def upd_node_def)
  have "is_deploy w' m = is_deploy w m" for m
    by (auto simp: fun_eq_iff is_deploy_def w' deploy_command_def drbd_config_file_path_def
        split: effect.splits)
  then have d: "deployed w' m = deployed w m" for m by (simp add: deployed_def w')
  have "fresh w' m" if "m \<in> set (node_list w r)" for m
  proof (cases "m = n")
    case False
    with assms(1) that d config_fencing_other [OF False, where w = w and v = v and b = True]
    show ?thesis by (simp add: all_fresh_def fresh_def w')
  qed (simp add: fresh_def w')
  moreover have "hosts_distinct r w' = hosts_distinct r w"
    by (rule hosts_distinct_cong) (simp_all add: w')
  moreover have "node_list w' r = node_list w r" by (simp add: w')
  ultimately show ?thesis using assms(1) by (simp add: all_fresh_def)
qed

section \<open>Adding a disk\<close>

text \<open>
  While \<open>Resource.add_disk\<close> runs, the configuration core changes with every node, so nothing
  can be said about the files; but every node handled so far (\<open>S\<close>) stays marked, and the
  volumes created so far (\<open>V\<close>) belong to nodes of the resource.
\<close>

definition adding :: "rref \<Rightarrow> nref list \<Rightarrow> nref set \<Rightarrow> vref set \<Rightarrow> world \<Rightarrow> bool" where
  "adding r ns S V w \<longleftrightarrow> node_list w r = ns \<and> hosts_distinct r w \<and>
     (\<forall>n \<in> S. config_changed (nodes w n)) \<and> (\<forall>v \<in> V. vol_node (vols w v) \<in> set ns)"

lemma adding_step:
  assumes "adding r ns S V w" and "ress w' = ress w"
    and "\<And>n. host_name (host_of w' n) = host_name (host_of w n)"
    and "\<And>n. n \<in> S' \<Longrightarrow> n \<in> S \<and> config_changed (nodes w n) \<longrightarrow> config_changed (nodes w' n)"
    and "\<And>n. n \<in> S' \<Longrightarrow> n \<notin> S \<Longrightarrow> config_changed (nodes w' n)"
    and "\<And>v. v \<in> V' \<Longrightarrow> vol_node (vols w' v) \<in> set ns \<or> v \<in> V \<and> vol_node (vols w' v) = vol_node (vols w v)"
  shows "adding r ns S' V' w'"
proof -
  have "hosts_distinct r w' = hosts_distinct r w"
    by (rule hosts_distinct_cong) (simp_all add: assms)
  with assms show ?thesis unfolding adding_def by metis
qed

lemma keeps_effects_adding:
  assumes "only_effects m"
  shows "keeps (adding r ns S V) m"
proof (rule keepsI)
  fix w x w' assume a: "adding r ns S V w" and "m w = (Inr x, w')"
  then have "objects w' = objects w" using effects_objects [OF assms] by blast
  from objects_eqD [OF this] show "adding r ns S V w'" by (intro adding_step [OF a]) simp_all
qed

lemma keeps_update_config_adding:
  assumes "n \<notin> S"
  shows "keeps (adding r ns S V) (update_config E n)"
proof -
  have "keeps (adding r ns S V) (upd_node n (\<lambda>x. x\<lparr>config_changed := False\<rparr>))"
    by (intro keepsI, erule adding_step) (use assms in \<open>auto simp: upd_node_def\<close>)
  then show ?thesis
    unfolding update_config_def
    by (intro keeps_bind_get keeps_when keeps_seq keeps_bind [OF keeps_effects_adding] keeps_case_prod
        keeps_effects_adding [OF eff.within_basic(1)] keeps_effects_adding [OF effects_emit] effect_rules)
qed

lemma keeps_node_cmd_adding: "n \<notin> S \<Longrightarrow> keeps (adding r ns S V) (node_cmd E n cmd)"
  unfolding node_cmd_def node_run_def
  by (intro keep_rules keeps_update_config_adding keeps_effects_adding effect_rules)

lemma keeps_upd_host_adding:
  "(\<And>x. host_name (f x) = host_name x) \<Longrightarrow> keeps (adding r ns S V) (upd_host h f)"
  by (intro keepsI, erule adding_step) (auto simp: upd_host_def)

lemma keeps_upd_vol_adding:
  "(\<And>x. vol_node (f x) = vol_node x) \<Longrightarrow> keeps (adding r ns S V) (upd_vol v f)"
  by (intro keepsI, erule adding_step) (auto simp: upd_vol_def)

lemma keeps_create_pool_adding: "keeps (adding r ns S V) (host_create_storage_pool E h thin g)"
  unfolding host_create_storage_pool_def
  by (intro keep_rules keeps_effects_adding effect_rules keeps_upd_host_adding) simp

lemma keeps_create_disks_adding:
  "keeps (adding r ns S V) (volume_create_disks E v sz ms mx dl lbs)"
  unfolding volume_create_disks_def
  by (intro keep_rules keeps_upd_vol_adding keeps_effects_adding effect_rules) simp_all

lemma adding_new_volume:
  assumes "n \<in> set ns"
  shows "triple (adding r ns S V) (new_volume n (Some k) mn) (\<lambda>v. adding r ns S (insert v V)) (\<lambda>_ _. True)"
proof (rule tripleI)
  fix w v w' assume a: "adding r ns S V w" and "new_volume n (Some k) mn w = (Inr v, w')"
  then have "ress w' = ress w" "nodes w' = nodes w" "host_name (hosts w' h) = host_name (hosts w h)"
    "u \<noteq> v \<longrightarrow> vols w' u = vols w u" "vol_node (vols w' v) = n" for h u
    by (auto simp: new_volume_def next_minor_def upd_host_def bindA_def seqA_def split: option.splits)
  then show "adding r ns S (insert v V) w'"
    using assms by (intro adding_step [OF a]) (simp_all, metis)
qed simp

lemma adding_node_add_disk:
  assumes n: "n \<in> set ns"
  shows "triple (adding r ns S V) (node_add_disk E n vnr sz opts)
    (\<lambda>v. adding r ns (insert n S) (insert v V)) (\<lambda>_ _. True)"
proof (rule triple_conseq [where P' = "adding r ns (S - {n}) V"])
  let ?A = "adding r ns (S - {n})"
  have nS: "n \<notin> S - {n}" by simp
  have fin: "triple (?A (insert v V)) (seqA (upd_node n (\<lambda>x. x\<lparr>
             disks := (if length (disks x) \<le> vnr then disks x @ [v] else (disks x)[vnr := v]),
             config_changed := True\<rparr>)) (ret v)) (\<lambda>v. adding r ns (insert n S) (insert v V)) (\<lambda>_ _. True)"
    for v
    by (rule tripleI, erule adding_step) (auto simp: upd_node_def seqA_def bindA_def)
  have body: "keeps (?A W) (case sz of
             None \<Rightarrow> ret ()
           | Some s \<Rightarrow>
               seqA (volume_create_disks E v s (do_meta_size opts) (do_max_size opts)
                       (do_delay_ms opts) (do_logical_block_size opts))
                 (whenA (do_zero_out opts)
                   (bindA (getA (\<lambda>w. disk_arg w v)) (\<lambda>d. node_cmd E n [''blkdiscard'', ''-z'', d]))))"
    for v W
    by (intro keep_rules keeps_create_disks_adding keeps_node_cmd_adding nS)
  have pool: "keeps (?A V) (bindA (getA (\<lambda>w. storage_pool (hosts w h))) (\<lambda>sp.
             whenA (sp = None) (host_create_storage_pool E h False None)))" for h
    by (intro keep_rules keeps_create_pool_adding)
  have get: "triple I (getA f) (\<lambda>_. I) (\<lambda>_ _. True)" for I :: "world \<Rightarrow> bool" and f :: "world \<Rightarrow> 'z"
    by (rule tripleI) auto
  show "triple (?A V) (node_add_disk E n vnr sz opts)
    (\<lambda>v. adding r ns (insert n S) (insert v V)) (\<lambda>_ _. True)"
    unfolding node_add_disk_def
    by (rule triple_bind [OF get], rule triple_seq [OF pool [unfolded keeps_def]],
        rule triple_bind [OF get], rule triple_bind [OF adding_new_volume [OF n]],
        rule triple_seq [OF body [unfolded keeps_def] fin])
qed (auto simp: adding_def)

lemma adding_loop:
  assumes "set xs \<subseteq> set ns"
  shows "triple (adding r ns S (set acc))
    (foldA xs (\<lambda>acc n. if d n
              then bindA (node_add_disk E n vnr sz o1) (\<lambda>v. ret (acc @ [v]))
              else bindA (node_add_disk E n vnr None o2) (\<lambda>_. ret acc)) acc)
    (\<lambda>vs. adding r ns (S \<union> set xs) (set vs)) (\<lambda>_ _. True)"
  using assms
proof (induction xs arbitrary: S acc)
  case Nil
  then show ?case by (auto simp: triple_def)
next
  case (Cons n xs)
  have n: "n \<in> set ns" using Cons.prems by simp
  have "triple (adding r ns S (set acc)) (bindA (node_add_disk E n vnr sz o1) (\<lambda>v. ret (acc @ [v])))
      (\<lambda>vs. adding r ns (insert n S) (set vs)) (\<lambda>_ _. True)"
    by (rule triple_bind [OF adding_node_add_disk [OF n]]) (auto simp: triple_def)
  moreover have "triple (adding r ns S (set acc)) (bindA (node_add_disk E n vnr None o2) (\<lambda>_. ret acc))
      (\<lambda>vs. adding r ns (insert n S) (set vs)) (\<lambda>_ _. True)"
    by (rule triple_bind [OF adding_node_add_disk [OF n]]) (auto simp: triple_def adding_def)
  ultimately have "triple (adding r ns S (set acc)) (if d n
      then bindA (node_add_disk E n vnr sz o1) (\<lambda>v. ret (acc @ [v]))
      else bindA (node_add_disk E n vnr None o2) (\<lambda>_. ret acc))
      (\<lambda>vs. adding r ns (insert n S) (set vs)) (\<lambda>_ _. True)" by simp
  from triple_bind [OF this Cons.IH] show ?case using Cons.prems by simp
qed

lemma all_fresh_add_disk:
  assumes "hosts_distinct r w"
    and "resource_add_disk E r sz diskful mp bbs dopts mopts w = (Inr k, w')"
  shows "all_fresh r w'"
proof -
  define ns where "ns = node_list w r"
  define w1 where "w1 = w\<lparr>ress := (ress w)(r := (ress w r)\<lparr>num_volumes := Suc (num_volumes (ress w r))\<rparr>)\<rparr>"
  have "node_list w1 r = ns" by (simp add: w1_def ns_def)
  moreover have "hosts_distinct r w1 = hosts_distinct r w"
    by (rule hosts_distinct_cong) (simp_all add: w1_def)
  ultimately have a: "adding r ns {} (set []) w1" using assms(1) by (simp add: adding_def)
  obtain vs w2 where fold: "foldA ns (\<lambda>acc n. if (case diskful of None \<Rightarrow> True | Some ds \<Rightarrow> n \<in> set ds)
      then bindA (node_add_disk E n (num_volumes (ress w r)) (Some sz) dopts) (\<lambda>v. ret (acc @ [v]))
      else bindA (node_add_disk E n (num_volumes (ress w r)) None disk_defaults) (\<lambda>_. ret acc)) [] w1 = (Inr vs, w2)"
    and md: "forA vs (\<lambda>v. bindA (getA (\<lambda>w. vol_node (vols w v))) (\<lambda>n. volume_create_md E v mp
        (mopts\<lparr>md_bitmap_block_size := map_of bbs n\<rparr>))) w2 = (Inr (), w')"
    using assms(2) unfolding resource_add_disk_def resource_next_volume_def upd_res_def
    by (auto elim!: bind_InrE seq_InrE simp: w1_def ns_def)
  have a2: "adding r ns (set ns) (set vs) w2"
    using triple_okD [OF adding_loop a fold] by simp
  then have f: "all_fresh r w2" by (auto simp: adding_def intro: all_fresh_flagged)
  have "keeps (synced (cfg_core w2) (set (node_list w2 r)))
      (forA vs (\<lambda>v. bindA (getA (\<lambda>w. vol_node (vols w v))) (\<lambda>n. volume_create_md E v mp
        (mopts\<lparr>md_bitmap_block_size := map_of bbs n\<rparr>))))"
    using a2 by (intro keeps_for keeps_bind_get keeps_volume_create_md) (simp add: adding_def)
  from all_fresh_keep [OF this f md] show ?thesis .
qed

section \<open>The operations on a resource as a machine\<close>

inductive cfg_step :: "environment \<Rightarrow> rref \<Rightarrow> world \<Rightarrow> world \<Rightarrow> bool" for E r where
  net: "set_net_options r s w = (Inr (), w') \<Longrightarrow> cfg_step E r w w'"
| disk: "set_disk_options r s w = (Inr (), w') \<Longrightarrow> cfg_step E r w w'"
| options: "set_resource_options r s w = (Inr (), w') \<Longrightarrow> cfg_step E r w w'"
| handlers: "set_handlers r s w = (Inr (), w') \<Longrightarrow> cfg_step E r w w'"
| fencing: "node_set_fencing_mode n s w = (Inr (), w') \<Longrightarrow> cfg_step E r w w'"
| tiebreaker: "vol_res w v = r \<Longrightarrow> set_tiebreaker v b w = (Inr (), w') \<Longrightarrow> cfg_step E r w w'"
| rename: "resource_rename E r s w = (Inr (), w') \<Longrightarrow> cfg_step E r w w'"
| remove_node: "resource_remove_node r n w = (Inr (), w') \<Longrightarrow> cfg_step E r w w'"
| add_disk: "resource_add_disk E r sz dfl mp bbs dopts mopts w = (Inr k, w') \<Longrightarrow> cfg_step E r w w'"
| command: "n \<in> set (node_list w r) \<Longrightarrow> no_deploy cmd \<Longrightarrow> node_cmd E n cmd w = (Inr (), w') \<Longrightarrow>
    cfg_step E r w w'"
| drbdadm: "n \<in> set (node_list w r) \<Longrightarrow> node_drbdadm E n cmd w = (Inr (), w') \<Longrightarrow> cfg_step E r w w'"
| up: "set (items ns) \<subseteq> set (node_list w r) \<Longrightarrow> nodes_up E ns extra w = (Inr (), w') \<Longrightarrow>
    cfg_step E r w w'"
| down: "set (items ns) \<subseteq> set (node_list w r) \<Longrightarrow> nodes_down E ns w = (Inr (), w') \<Longrightarrow>
    cfg_step E r w w'"
| secondary: "n \<in> set (node_list w r) \<Longrightarrow> node_secondary E n wt force w = (Inr (), w') \<Longrightarrow>
    cfg_step E r w w'"
| attach: "\<forall>v \<in> set (items vs). vol_node (vols w v) \<in> set (node_list w r) \<Longrightarrow>
    volumes_attach E vs w = (Inr (), w') \<Longrightarrow> cfg_step E r w w'"
| detach: "\<forall>v \<in> set (items vs). vol_node (vols w v) \<in> set (node_list w r) \<Longrightarrow>
    volumes_detach E vs force w = (Inr (), w') \<Longrightarrow> cfg_step E r w w'"
| connect: "\<forall>c \<in> set (items cs). conn_from c \<in> set (node_list w r) \<Longrightarrow>
    connections_connect E cs wt opts w = (Inr (), w') \<Longrightarrow> cfg_step E r w w'"
| disconnect: "\<forall>c \<in> set (items cs). conn_from c \<in> set (node_list w r) \<Longrightarrow>
    connections_disconnect E cs wt force w = (Inr (), w') \<Longrightarrow> cfg_step E r w w'"
| verify: "\<forall>p \<in> set (items ps). conn_from (pd_conn p) \<in> set (node_list w r) \<Longrightarrow>
    peer_devices_verify E ps wt opts w = (Inr (), w') \<Longrightarrow> cfg_step E r w w'"

text \<open>Changing the resource and then touching all its nodes.\<close>

lemma all_fresh_res_touch:
  assumes "hosts_distinct r w" and "set (items (res_nodes (f (ress w r)))) \<subseteq> set (node_list w r)"
    and "seqA (upd_res r f) (touch_config r) w = (Inr (), w')"
  shows "all_fresh r w'"
proof -
  let ?w = "w\<lparr>ress := (ress w)(r := f (ress w r))\<rparr>"
  have "hosts_distinct r ?w"
    using assms(1,2) by (auto simp: hosts_distinct_def intro: inj_on_subset)
  moreover have "touch_config r ?w = (Inr (), w')" using assms(3) by (simp add: upd_res_def)
  ultimately show ?thesis by (rule all_fresh_touch)
qed

lemma set_items_coll_remove:
  assumes "coll_remove eq res s x = Inr t"
  shows "set (items t) \<subseteq> set (items s)"
proof -
  have "set (list_remove eq xs k) \<subseteq> set xs" for xs k
    by (induction xs) auto
  then show ?thesis
    using assms unfolding coll_remove_def os_remove_def os_discard_def
    by (simp split: if_splits) (metis oset.select_convs(1))
qed

lemma all_fresh_tiebreaker:
  assumes "all_fresh r w" and "vol_res w v = r" and "set_tiebreaker v b w = (Inr (), w')"
  shows "all_fresh r w'"
proof -
  let ?w = "w\<lparr>vols := (vols w)(v := (vols w v)\<lparr>tiebreaker := b\<rparr>)\<rparr>"
  have "touch_config r ?w = (Inr (), w')"
    using assms(2,3) by (simp add: set_tiebreaker_def upd_vol_def vol_res_def node_res_def)
  moreover have "hosts_distinct r ?w"
    using assms(1) hosts_distinct_cong [of ?w r w] by (simp add: all_fresh_def)
  ultimately show ?thesis by (intro all_fresh_touch)
qed

lemma all_fresh_rename:
  assumes "all_fresh r w" and "resource_rename E r s w = (Inr (), w')"
  shows "all_fresh r w'"
proof -
  let ?ns = "res_nodes (ress w r)"
  let ?pre = "seqA (nodes_run E ?ns [''drbdsetup'', ''rename-resource'', res_name (ress w r), s])
      (ignore (nodes_event E ?ns [''rename resource name:'' @ res_name (ress w r) @ '' new_name:'' @ s] evd))"
  let ?post = "seqA (upd_res r (\<lambda>x. x\<lparr>res_name := s\<rparr>)) (touch_config r)"
  have "seqA ?pre ?post w = (Inr (), w')"
    using assms(2) by (simp add: resource_rename_def seq_assoc)
  then obtain x w1 where pre: "?pre w = (Inr x, w1)" and post: "?post w1 = (Inr (), w')"
    by (rule seq_InrE)
  have "keeps (synced (cfg_core w) (set (node_list w r))) ?pre"
    unfolding nodes_run_def by (intro keeps_seq keeps_for keeps_node_cmd keeps_ignore keeps_events) simp_all
  from all_fresh_keep [OF this assms(1) pre] have "all_fresh r w1" .
  then show ?thesis
    by (intro all_fresh_res_touch [OF _ _ post]) (simp_all add: all_fresh_def)
qed

lemma cfg_step_fresh:
  assumes "cfg_step E r w w'" and "all_fresh r w"
  shows "all_fresh r w'"
proof -
  have hd: "hosts_distinct r w" using assms(2) by (simp add: all_fresh_def)
  note touch = all_fresh_res_touch [OF hd]
  note keep = all_fresh_keep [where w = w, OF _ assms(2)]
  from assms(1) show ?thesis
  proof cases
    case net
    then show ?thesis by (intro touch) (auto simp: set_net_options_def)
  next
    case disk
    then show ?thesis by (intro touch) (auto simp: set_disk_options_def)
  next
    case options
    then show ?thesis by (intro touch) (auto simp: set_resource_options_def)
  next
    case handlers
    then show ?thesis by (intro touch) (auto simp: set_handlers_def)
  next
    case (remove_node n)
    then obtain ns where "coll_remove (=) (node_res w) (res_nodes (ress w r)) n = Inr ns"
      "seqA (upd_res r (\<lambda>x. x\<lparr>res_nodes := ns\<rparr>)) (touch_config r) w = (Inr (), w')"
      by (auto simp: resource_remove_node_def exprA_def elim!: bind_InrE)
    then show ?thesis by (intro touch) (auto dest: set_items_coll_remove)
  next
    case (add_disk sz dfl mp bbs dopts mopts k)
    with hd show ?thesis by (intro all_fresh_add_disk)
  next
    case fencing
    with assms(2) show ?thesis by (rule all_fresh_fencing)
  next
    case tiebreaker
    with assms(2) show ?thesis by (rule all_fresh_tiebreaker)
  next
    case rename
    with assms(2) show ?thesis by (rule all_fresh_rename)
  qed (auto elim!: keep [rotated] intro!: keep_rules)
qed

lemma cfg_reach_fresh: "(cfg_step E r)\<^sup>*\<^sup>* w w' \<Longrightarrow> all_fresh r w \<Longrightarrow> all_fresh r w'"
  by (induction rule: rtranclp_induct) (auto intro: cfg_step_fresh)

lemma update_config_frame:
  assumes "update_config E n w = (Inr (), w')"
  shows "\<exists>es. w' = w\<lparr>nodes := (nodes w)(n := (nodes w n)\<lparr>config_changed := False\<rparr>), trace := trace w @ es\<rparr>"
proof (cases "config_changed (nodes w n)")
  case False
  then have "(nodes w)(n := (nodes w n)\<lparr>config_changed := False\<rparr>) = nodes w" by auto
  with False assms show ?thesis by (auto simp: update_config_def intro!: exI [of _ "[]"])
next
  case True
  with assms show ?thesis
    by (auto simp: update_config_def upd_node_def emit_def bindA_def seqA_def
        dest!: host_run_InrD split: prod.splits sum.splits)
qed

lemma node_drbdadm_last:
  assumes "node_drbdadm E n cmd w = (Inr (), w')"
  shows "\<exists>c. last (trace w') = Ssh c (Inr 0) \<and> sc_host c = host_name (host_of w' n) \<and>
    sc_cmd c = command_string (host_of w' n) (drbdadm_command w' n cmd) run_defaults"
    and "\<not> config_changed (nodes w' n)" and "ress w' = ress w"
proof -
  obtain w1 r where up: "update_config E n w = (Inr (), w1)" and
    run: "host_run E (node_host (nodes w1 n)) (drbdadm_command w n cmd) run_defaults w1 = (Inr r, w')"
    using assms by (auto simp: node_drbdadm_def node_cmd_def node_run_def elim!: bind_InrE seq_InrE)
  obtain es where w1: "w1 = w\<lparr>nodes := (nodes w)(n := (nodes w n)\<lparr>config_changed := False\<rparr>),
      trace := trace w @ es\<rparr>" using update_config_frame [OF up] by blast
  from host_run_InrD [OF run] show "\<exists>c. last (trace w') = Ssh c (Inr 0) \<and>
      sc_host c = host_name (host_of w' n) \<and>
      sc_cmd c = command_string (host_of w' n) (drbdadm_command w' n cmd) run_defaults"
    and "\<not> config_changed (nodes w' n)" and "ress w' = ress w"
    by (auto simp: w1 drbdadm_command_def drbd_global_config_file_path_def)
qed

text \<open>In the environment where every command succeeds, a command of a node succeeds if the
  configuration can be generated.\<close>

lemma host_run_ok_env_any: "\<exists>r. fst (host_run ok_env h cmd opts w) = Inr r"
  by (simp add: host_run_def ssh_exec_def emit_def Let_def bindA_def seqA_def ok_env_def)

lemma node_drbdadm_ok_env:
  assumes "config w n = Inr t"
  shows "\<exists>w'. node_drbdadm ok_env n cmd w = (Inr (), w')"
proof -
  have core: "cfg_core (w\<lparr>nodes := (nodes w)(n := (nodes w n)\<lparr>config_changed := False\<rparr>)\<rparr>) = cfg_core w"
    unfolding cfg_core_def by (simp add: fun_eq_iff cong: if_cong)
  have run: "\<exists>u w'. host_run ok_env h cmd opts w = (Inr u, w')" for h cmd opts w
    using host_run_ok_env_any by (metis prod.collapse)
  have void: "\<exists>w'. bindA (host_run ok_env h cmd opts) (\<lambda>_. ret ()) w = (Inr (), w')" for h cmd opts w
    using run [of h cmd opts w] by (auto simp: bindA_def)
  have "\<exists>w'. update_config ok_env n w = (Inr (), w')"
  proof (cases "config_changed (nodes w n)")
    case True
    with assms core_eqD(1) [OF core, of n] show ?thesis
      by (simp add: update_config_def upd_node_def emit_def lift_Inr) (rule void)
  qed (simp add: update_config_def)
  then obtain w1 where "update_config ok_env n w = (Inr (), w1)" ..
  moreover obtain u w2 where
    "host_run ok_env (node_host (nodes w1 n)) (drbdadm_command w n cmd) run_defaults w1 = (Inr u, w2)"
    using run by metis
  ultimately show ?thesis
    by (simp add: node_drbdadm_def node_cmd_def node_run_def bindA_def seqA_def)
qed



end
