(* ===== verification/Cluster_Props.thy ===== *)
theory Cluster_Props
  imports Cluster_Ops
begin

text \<open>
  What the operations on a whole cluster guarantee: the connections selected by \<open>connections()\<close>,
  the nodes and connections of a new resource, the numbering of its volumes, and the patterns
  that are forbidden while a resource goes down.
\<close>

section \<open>Sets of connections\<close>

definition ends :: "conn oset \<Rightarrow> (nref \<times> nref) list" where
  "ends cs = map (\<lambda>c. (conn_from c, conn_to c)) (items cs)"

text \<open>The connections of one resource: \<open>cs\<close> is a proper set of them.\<close>

definition conns_of :: "world \<Rightarrow> rref \<Rightarrow> conn oset \<Rightarrow> bool" where
  "conns_of w r cs \<longleftrightarrow> os_inv conn_eq cs \<and> (\<forall>c \<in> set (items cs). conn_res w c = r)"

lemma conns_of_empty [simp]: "conns_of w r os_empty" and ends_empty [simp]: "ends os_empty = []"
  by (simp_all add: conns_of_def ends_def)

lemma conns_of_next_conn [simp]: "conns_of (w\<lparr>next_conn := k\<rparr>) r cs = conns_of w r cs"
  by (simp add: conns_of_def conn_res_def node_res_def)

lemma coll_add_conn:
  assumes cs: "conns_of w r cs" and c: "conn_res w c = r"
  shows "\<exists>cs'. coll_add conn_eq (conn_res w) cs c = Inr cs' \<and> conns_of w r cs' \<and>
     ends cs' = ref_add (ends cs) (conn_from c, conn_to c)"
proof -
  have inv: "os_inv conn_eq cs" using cs by (simp add: conns_of_def)
  have same: "same_resource (conn_res w) cs [c]"
    using cs c by (auto simp: same_resource_def conns_of_def split: list.splits)
  have it: "items (snd (os_add conn_eq cs c)) =
      (if \<exists>x \<in> set (items cs). conn_eq x c then items cs else items cs @ [c])"
    by (rule items_os_add [OF inv])
  have "(\<exists>x \<in> set (items cs). conn_eq x c) \<longleftrightarrow> (conn_from c, conn_to c) \<in> set (ends cs)"
    unfolding ends_def conn_eq_def set_map image_iff prod.inject by metis
  then have "ends (snd (os_add conn_eq cs c)) = ref_add (ends cs) (conn_from c, conn_to c)"
    using it by (auto simp: ref_add_def ends_def)
  moreover have "conns_of w r (snd (os_add conn_eq cs c))"
    using cs c it connk.os_inv_add [OF inv] by (auto simp: conns_of_def)
  ultimately show ?thesis using same by (simp add: coll_add_def)
qed

lemma Connection_ok:
  "node_res w f = node_res w t \<Longrightarrow>
   Connection f t w = (Inr \<lparr>conn_ident = next_conn w, conn_from = f, conn_to = t\<rparr>, w\<lparr>next_conn := Suc (next_conn w)\<rparr>)"
  by (simp add: Connection_def)

lemma distinct_foldl_ref_add: "distinct xs \<Longrightarrow> distinct (foldl ref_add xs ys)"
  by (induction ys arbitrary: xs) (simp_all add: ref_add_def)

lemma set_foldl_ref_add: "set (foldl ref_add xs ys) = set xs \<union> set ys"
  by (induction ys arbitrary: xs) (auto simp: ref_add_def)

section \<open>Selecting connections\<close>

definition select_pair :: "conn oset \<Rightarrow> nref \<times> nref \<Rightarrow> conn oset prog" where
  "select_pair acc p = (case p of (f, t) \<Rightarrow>
     if f \<noteq> t
     then bindA (Connection f t) (\<lambda>c. exprA (\<lambda>w. coll_add conn_eq (conn_res w) acc c))
     else ret acc)"

lemma foldA_append: "foldA (xs @ ys) f acc = bindA (foldA xs f acc) (foldA ys f)"
proof (induction xs arbitrary: acc)
  case (Cons x xs)
  have "foldA (xs @ ys) f = (\<lambda>a. bindA (foldA xs f a) (foldA ys f))" using Cons by (rule ext)
  then show ?case by (simp add: bind_assoc)
qed simp

lemma foldA_map: "foldA (map h xs) g acc = foldA xs (\<lambda>a x. g a (h x)) acc"
proof (induction xs arbitrary: acc)
  case (Cons x xs)
  have "foldA (map h xs) g = foldA xs (\<lambda>a x. g a (h x))" using Cons by (rule ext)
  then show ?case by simp
qed simp

lemma foldA_product:
  "foldA fs (\<lambda>acc1 f. foldA ts (\<lambda>acc2 t. g acc2 (f, t)) acc1) acc = foldA (List.product fs ts) g acc"
proof (induction fs arbitrary: acc)
  case (Cons f fs)
  have "foldA (List.product fs ts) g = (\<lambda>acc. foldA fs (\<lambda>acc1 f. foldA ts (\<lambda>acc2 t. g acc2 (f, t)) acc1) acc)"
    using Cons by (rule ext [OF sym])
  then show ?case by (simp add: foldA_append foldA_map)
qed simp

lemma select_pairs:
  assumes "conns_of w r acc" and "\<forall>(f, t) \<in> set ps. node_res w f = r \<and> node_res w t = r"
  shows "\<exists>cs k. foldA ps select_pair acc w = (Inr cs, w\<lparr>next_conn := k\<rparr>) \<and> conns_of w r cs \<and>
     ends cs = foldl ref_add (ends acc) (filter (\<lambda>(f, t). f \<noteq> t) ps)"
  using assms
proof (induction ps arbitrary: acc w)
  case Nil
  then show ?case by (intro exI [of _ acc] exI [of _ "next_conn w"]) simp
next
  case (Cons p ps)
  obtain f t where p: "p = (f, t)" by (cases p)
  show ?case
  proof (cases "f = t")
    case True
    then show ?thesis using Cons p by (simp add: select_pair_def)
  next
    case False
    let ?c = "\<lparr>conn_ident = next_conn w, conn_from = f, conn_to = t\<rparr>"
    let ?w = "w\<lparr>next_conn := Suc (next_conn w)\<rparr>"
    have res: "conn_res w ?c = r" using Cons.prems p by (simp add: conn_res_def)
    have eq: "conn_res ?w = conn_res w" by (rule ext) (simp add: conn_res_def node_res_def)
    obtain cs' where cs': "coll_add conn_eq (conn_res w) acc ?c = Inr cs'" "conns_of w r cs'"
      "ends cs' = ref_add (ends acc) (f, t)"
      using coll_add_conn [OF Cons.prems(1) res] by auto
    have step: "select_pair acc p w = (Inr cs', ?w)"
      using Cons.prems False p cs'(1) by (simp add: select_pair_def bind_ok [OF Connection_ok] exprA_def eq)
    have nr: "node_res ?w = node_res w" by (rule ext) (simp add: node_res_def)
    have "\<exists>cs k. foldA ps select_pair cs' ?w = (Inr cs, ?w\<lparr>next_conn := k\<rparr>) \<and> conns_of ?w r cs \<and>
        ends cs = foldl ref_add (ends cs') (filter (\<lambda>(f, t). f \<noteq> t) ps)"
      using Cons.prems cs'(2) by (intro Cons.IH) (simp_all add: nr)
    then show ?thesis using step False by (auto simp: p bind_ok cs'(3))
  qed
qed

text \<open>The opposite connections that \<open>bidir\<close> adds.\<close>

lemma reverse_connections:
  assumes "\<forall>c \<in> set cs. node_res w (conn_from c) = node_res w (conn_to c)"
  shows "\<exists>rs k. mapA cs (\<lambda>c. Connection (conn_to c) (conn_from c)) w = (Inr rs, w\<lparr>next_conn := k\<rparr>) \<and>
     map (\<lambda>c. (conn_from c, conn_to c)) rs = map (\<lambda>c. (conn_to c, conn_from c)) cs"
  using assms
proof (induction cs arbitrary: w)
  case Nil
  then show ?case by (intro exI [of _ "[]"] exI [of _ "next_conn w"]) simp
next
  case (Cons c cs)
  let ?w = "w\<lparr>next_conn := Suc (next_conn w)\<rparr>"
  have nr: "node_res ?w = node_res w" by (rule ext) (simp add: node_res_def)
  obtain rs k where "mapA cs (\<lambda>c. Connection (conn_to c) (conn_from c)) ?w = (Inr rs, ?w\<lparr>next_conn := k\<rparr>)"
    "map (\<lambda>c. (conn_from c, conn_to c)) rs = map (\<lambda>c. (conn_to c, conn_from c)) cs"
    using Cons.IH [of ?w] Cons.prems by (auto simp: nr)
  moreover have "Connection (conn_to c) (conn_from c) w =
      (Inr \<lparr>conn_ident = next_conn w, conn_from = conn_to c, conn_to = conn_from c\<rparr>, ?w)"
    using Cons.prems by (intro Connection_ok) simp
  ultimately show ?case by (auto simp: bind_ok)
qed

lemma coll_extend_conns:
  assumes cs: "conns_of w r cs" and rs: "\<forall>c \<in> set rs. conn_res w c = r"
  shows "\<exists>cs'. coll_extend conn_eq (conn_res w) cs rs = Inr cs' \<and>
     ends cs' = foldl ref_add (ends cs) (map (\<lambda>c. (conn_from c, conn_to c)) rs)"
proof -
  have same: "same_resource (conn_res w) cs rs"
    using cs rs by (auto simp: same_resource_def conns_of_def list_all_iff split: list.splits)
  have "ends (snd (os_update conn_eq cs rs)) = foldl ref_add (ends cs) (map (\<lambda>c. (conn_from c, conn_to c)) rs)"
    using cs rs
  proof (induction rs arbitrary: cs)
    case (Cons c rs)
    obtain cs' where cs': "coll_add conn_eq (conn_res w) cs c = Inr cs'" "conns_of w r cs'"
      "ends cs' = ref_add (ends cs) (conn_from c, conn_to c)"
      using coll_add_conn [OF Cons.prems(1), of c] Cons.prems(2) by auto
    then have "cs' = snd (os_add conn_eq cs c)" by (auto simp: coll_add_def split: if_splits)
    with Cons cs' show ?case by (simp add: split_beta)
  qed simp
  then show ?thesis using same by (simp add: coll_extend_def list_all_iff)
qed

lemma connections_step:
  assumes "connection_ends w fn tn fns tns = Inr (fs, ts)"
  shows "connections fn tn fns tns bidir w =
     bindA (foldA (List.product fs ts) select_pair os_empty) (\<lambda>cs.
       if bidir
       then bindA (mapA (items cs) (\<lambda>c. Connection (conn_to c) (conn_from c))) (\<lambda>rs.
              exprA (\<lambda>w. coll_extend conn_eq (conn_res w) cs rs))
       else ret cs) w"
proof -
  have "foldA fs (\<lambda>acc1 f. foldA ts (\<lambda>acc2 t.
          if f \<noteq> t
          then bindA (Connection f t) (\<lambda>c. exprA (\<lambda>w. coll_add conn_eq (conn_res w) acc2 c))
          else ret acc2) acc1) os_empty = foldA (List.product fs ts) select_pair os_empty"
    using foldA_product [of fs ts select_pair os_empty] by (simp add: select_pair_def)
  then show ?thesis using assms by (simp add: connections_def exprA_def bind_assoc lift_Inr)
qed

lemma add_reversed:
  assumes "conns_of w r cs" and "\<forall>c \<in> set (items cs). node_res w (conn_from c) = r \<and> node_res w (conn_to c) = r"
    and "distinct (ends cs)"
  obtains rs cs' k where "mapA (items cs) (\<lambda>c. Connection (conn_to c) (conn_from c)) w = (Inr rs, w\<lparr>next_conn := k\<rparr>)"
    "coll_extend conn_eq (conn_res w) cs rs = Inr cs'" "distinct (ends cs')"
    "set (ends cs') = set (ends cs) \<union> {(f, t). (t, f) \<in> set (ends cs)}"
proof -
  obtain rs k where rs: "mapA (items cs) (\<lambda>c. Connection (conn_to c) (conn_from c)) w = (Inr rs, w\<lparr>next_conn := k\<rparr>)"
    "map (\<lambda>c. (conn_from c, conn_to c)) rs = map (\<lambda>c. (conn_to c, conn_from c)) (items cs)"
    using reverse_connections [of "items cs" w] assms(2) by auto
  have "\<forall>c \<in> set rs. conn_res w c = r"
  proof
    fix c assume "c \<in> set rs"
    then have "(conn_from c, conn_to c) \<in> set (map (\<lambda>c. (conn_to c, conn_from c)) (items cs))"
      unfolding rs(2) [symmetric] by force
    then show "conn_res w c = r" using assms(2) by (auto simp: conn_res_def)
  qed
  then obtain cs' where cs': "coll_extend conn_eq (conn_res w) cs rs = Inr cs'"
    "ends cs' = foldl ref_add (ends cs) (map (\<lambda>c. (conn_to c, conn_from c)) (items cs))"
    using coll_extend_conns [OF assms(1)] rs(2) by metis
  have swap: "set (map (\<lambda>c. (conn_to c, conn_from c)) (items cs)) = {(f, t). (t, f) \<in> set (ends cs)}"
    by (force simp: ends_def)
  have "distinct (ends cs')" "set (ends cs') = set (ends cs) \<union> {(f, t). (t, f) \<in> set (ends cs)}"
    unfolding cs'(2) set_foldl_ref_add swap using assms(3) by (simp_all add: distinct_foldl_ref_add)
  with that rs(1) cs'(1) show ?thesis by blast
qed



section \<open>A new resource\<close>

lemma add_connection_step:
  assumes "node_res w a = r" and "node_res w b = r" and "conns_of w r (node_conns (nodes w a))"
  shows "\<exists>cs. add_connection a b w =
       (Inr (), w\<lparr>next_conn := Suc (next_conn w), nodes := (nodes w)(a := (nodes w a)\<lparr>node_conns := cs\<rparr>)\<rparr>) \<and>
     conns_of w r cs \<and> ends cs = ref_add (ends (node_conns (nodes w a))) (a, b)"
proof -
  let ?c = "\<lparr>conn_ident = next_conn w, conn_from = a, conn_to = b\<rparr>"
  let ?w = "w\<lparr>next_conn := Suc (next_conn w)\<rparr>"
  have res: "conn_res w ?c = r" using assms by (simp add: conn_res_def)
  have eq: "conn_res ?w = conn_res w" by (rule ext) (simp add: conn_res_def node_res_def)
  obtain cs where cs: "coll_add conn_eq (conn_res w) (node_conns (nodes w a)) ?c = Inr cs" "conns_of w r cs"
    "ends cs = ref_add (ends (node_conns (nodes w a))) (a, b)"
    using coll_add_conn [OF assms(3) res] by auto
  have "node_res w a = node_res w b" using assms by simp
  from Connection_ok [OF this] show ?thesis
    using cs by (auto simp: add_connection_def bind_ok exprA_def eq lift_Inr upd_node_def)
qed

definition connect_pair :: "nref \<times> nref \<Rightarrow> unit prog" where
  "connect_pair p = whenA (fst p \<noteq> snd p) (add_connection (fst p) (snd p))"

lemma for_map: "forA (map h zs) f = forA zs (\<lambda>z. f (h z))"
  by (induction zs) simp_all

lemma for_product: "forA xs (\<lambda>a. forA ys (\<lambda>b. f (a, b))) = forA (List.product xs ys) f"
  by (induction xs) (simp_all add: for_append for_map)

lemma connect_pairs:
  assumes "\<forall>(a, b) \<in> set ps. node_res w a = r \<and> node_res w b = r \<and> conns_of w r (node_conns (nodes w a))"
  shows "\<exists>F k. forA ps connect_pair w =
       (Inr (), w\<lparr>next_conn := k, nodes := (\<lambda>n. (nodes w n)\<lparr>node_conns := F n\<rparr>)\<rparr>) \<and>
     (\<forall>n. ends (F n) = foldl ref_add (ends (node_conns (nodes w n))) (filter (\<lambda>(a, b). a = n \<and> a \<noteq> b) ps))"
  using assms
proof (induction ps arbitrary: w)
  case Nil
  then show ?case
    by (intro exI [of _ "\<lambda>n. node_conns (nodes w n)"] exI [of _ "next_conn w"]) simp
next
  case (Cons p ps)
  obtain a b where p: "p = (a, b)" by (cases p)
  show ?case
  proof (cases "a = b")
    case True
    then show ?thesis using Cons p by (auto simp: connect_pair_def cong: conj_cong)
  next
    case False
    obtain cs where cs: "add_connection a b w =
       (Inr (), w\<lparr>next_conn := Suc (next_conn w), nodes := (nodes w)(a := (nodes w a)\<lparr>node_conns := cs\<rparr>)\<rparr>)"
     "conns_of w r cs" "ends cs = ref_add (ends (node_conns (nodes w a))) (a, b)"
      using add_connection_step [of w a r b] Cons.prems p by auto
    let ?w = "w\<lparr>next_conn := Suc (next_conn w), nodes := (nodes w)(a := (nodes w a)\<lparr>node_conns := cs\<rparr>)\<rparr>"
    have nr: "node_res ?w = node_res w" by (auto simp: fun_eq_iff node_res_def)
    have "conn_res ?w = conn_res w" by (auto simp: fun_eq_iff conn_res_def nr)
    then have co: "conns_of ?w r x = conns_of w r x" for x by (simp add: conns_of_def)
    obtain F k where F: "forA ps connect_pair ?w =
       (Inr (), ?w\<lparr>next_conn := k, nodes := (\<lambda>n. (nodes ?w n)\<lparr>node_conns := F n\<rparr>)\<rparr>)"
     "\<forall>n. ends (F n) = foldl ref_add (ends (node_conns (nodes ?w n))) (filter (\<lambda>(a, b). a = n \<and> a \<noteq> b) ps)"
      using Cons.IH [of ?w] Cons.prems cs(2) unfolding nr co by fastforce
    have "(\<lambda>n. (nodes ?w n)\<lparr>node_conns := F n\<rparr>) = (\<lambda>n. (nodes w n)\<lparr>node_conns := F n\<rparr>)"
      by (auto simp: fun_eq_iff)
    then have "forA (p # ps) connect_pair w =
       (Inr (), w\<lparr>next_conn := k, nodes := (\<lambda>n. (nodes w n)\<lparr>node_conns := F n\<rparr>)\<rparr>)"
      using F(1) cs(1) False by (simp add: p connect_pair_def seq_ok)
    moreover have "ends (F n) = foldl ref_add (ends (node_conns (nodes w n)))
        (filter (\<lambda>(a, b). a = n \<and> a \<noteq> b) (p # ps))" for n
      using F(2) cs(3) False by (simp add: p)
    ultimately show ?thesis by blast
  qed
qed

text \<open>The node that \<open>create_resource\<close> makes for the host \<open>h\<close>, as the \<open>i\<close>-th one.\<close>

definition fresh_node :: "world \<Rightarrow> rref \<Rightarrow> href \<Rightarrow> nat \<Rightarrow> node" where
  "fresh_node w r h i =
     \<lparr>fencing_mode = [], node_host = h, node_resource = r, node_name = host_name (hosts w h),
      node_port = host_port (hosts w h), disks = [], node_id = i, config_changed = True, node_conns = os_empty\<rparr>"

text \<open>After the first \<open>k\<close> hosts.\<close>

definition nodes_made :: "world \<Rightarrow> rref \<Rightarrow> href list \<Rightarrow> nat \<Rightarrow> world \<Rightarrow> bool" where
  "nodes_made w0 r hs k w \<longleftrightarrow>
     os_inv (=) (res_nodes (ress w r)) \<and> node_list w r = [next_nref w0..<next_nref w0 + k] \<and>
     next_nref w = next_nref w0 + k \<and> (\<forall>i < k. nodes w (next_nref w0 + i) = fresh_node w0 r (hs ! i) i) \<and>
     (\<forall>h. h \<notin> set (take k hs) \<longrightarrow> hosts w h = hosts w0 h) \<and>
     res_name (ress w r) = res_name (ress w0 r) \<and> cl_resources w = cl_resources w0"

lemma make_node:
  assumes made: "nodes_made w0 r hs k w" and k: "k < length hs" and hs: "distinct hs"
    and linux: "platform_helper (hosts w0 (hs ! k)) = LinuxPlatform"
  shows "\<exists>w'. bindA (next_port (hs ! k)) (\<lambda>p. ignore (node_init E (hs ! k) r p)) w = (Inr (), w') \<and>
     nodes_made w0 r hs (Suc k) w'"
proof -
  let ?h = "hs ! k" and ?n = "next_nref w" and ?ns = "res_nodes (ress w r)"
  have new: "?h \<notin> set (take k hs)"
    using hs k by (auto simp: in_set_conv_nth nth_eq_iff_index_eq)
  then have host: "hosts w ?h = hosts w0 ?h" using made by (simp add: nodes_made_def)
  define w1 where "w1 = w\<lparr>hosts := (hosts w)(?h := (hosts w ?h)\<lparr>host_port := Suc (host_port (hosts w ?h))\<rparr>),
    next_nref := Suc ?n, nodes := (nodes w)(?n := fresh_node w0 r ?h k)\<rparr>"
  define ns' where "ns' = snd (os_add (=) ?ns ?n)"
  define w2 where "w2 = w1\<lparr>ress := (ress w)(r := (ress w r)\<lparr>res_nodes := ns'\<rparr>)\<rparr>"
  have inv: "os_inv (=) ?ns" and list: "items ?ns = [next_nref w0..<next_nref w0 + k]"
    and n: "?n = next_nref w0 + k" using made by (simp_all add: nodes_made_def)
  have len: "os_len ?ns = k" by (simp add: os_len_def list)
  have old: "nodes w1 m = fresh_node w0 r (hs ! (m - next_nref w0)) (m - next_nref w0)"
    if "m \<in> set (items ?ns)" for m
    using that made by (auto simp: w1_def list n nodes_made_def le_iff_add)
  have "same_resource (node_res w1) ?ns [?n]"
    using old by (auto simp: same_resource_def node_res_def fresh_node_def w1_def split: list.splits)
  then have add: "coll_add (=) (node_res w1) ?ns ?n = Inr ns'" by (simp add: coll_add_def ns'_def)
  have items': "items ns' = [next_nref w0..<next_nref w0 + Suc k]"
    using items_add_ref [OF inv, of ?n] by (simp add: ns'_def ref_add_def list n)
  have "next_port ?h w = (Inr (host_port (hosts w ?h)), w\<lparr>hosts := (hosts w)(?h := (hosts w ?h)\<lparr>host_port := Suc (host_port (hosts w ?h))\<rparr>)\<rparr>)"
    by (simp add: next_port_def upd_host_def)
  then have "bindA (next_port ?h) (\<lambda>p. ignore (node_init E ?h r p)) w = (Inr (), w2)"
    using add linux
    by (simp add: bind_ok node_init_def ignore_def exprA_def upd_res_def bindA_def seqA_def getA_def modA_def
        ret_def liftA_def w2_def w1_def fresh_node_def host len)
  moreover have "nodes_made w0 r hs (Suc k) w2"
    using made items' eqk.os_inv_add [OF inv, of ?n] k
    by (auto simp: nodes_made_def w2_def w1_def ns'_def n less_Suc_eq take_Suc_conv_app_nth)
  ultimately show ?thesis by blast
qed

lemma make_nodes:
  assumes start: "nodes_made w0 r hs 0 w0" and hs: "distinct hs"
    and linux: "\<forall>h \<in> set hs. platform_helper (hosts w0 h) = LinuxPlatform"
  shows "k \<le> length hs \<Longrightarrow> \<exists>w'. forA (take k hs) (\<lambda>h. bindA (next_port h) (\<lambda>p. ignore (node_init E h r p))) w0 = (Inr (), w') \<and>
     nodes_made w0 r hs k w'"
proof (induction k)
  case 0
  then show ?case using start by simp
next
  case (Suc k)
  then obtain w1 where w1: "forA (take k hs) (\<lambda>h. bindA (next_port h) (\<lambda>p. ignore (node_init E h r p))) w0 = (Inr (), w1)"
    "nodes_made w0 r hs k w1" by auto
  obtain w2 where "bindA (next_port (hs ! k)) (\<lambda>p. ignore (node_init E (hs ! k) r p)) w1 = (Inr (), w2)"
     "nodes_made w0 r hs (Suc k) w2"
    using make_node [OF w1(2) _ hs] Suc.prems linux by fastforce
  then show ?case
    using w1(1) Suc.prems by (simp add: take_Suc_conv_app_nth for_append seq_ok)
qed

lemma mesh_conns:
  assumes "distinct ns" and "n \<in> set ns"
  shows "distinct (foldl ref_add [] (filter (\<lambda>(a, b). a = n \<and> a \<noteq> b) (List.product ns ns)))"
    and "set (foldl ref_add [] (filter (\<lambda>(a, b). a = n \<and> a \<noteq> b) (List.product ns ns))) = {(n, m) | m. m \<in> set ns \<and> m \<noteq> n}"
  using assms by (auto simp: distinct_foldl_ref_add set_foldl_ref_add)

text \<open>
  C2: On Linux hosts, \<open>Cluster.create_resource\<close> succeeds and adds a resource with one node per
  host, in the order of the hosts; the nodes have the identifiers 0, 1, 2, ..., the next free port
  of their host, no volume and an outdated configuration, and each node has exactly one
  connection to every other node of the resource and none to itself.
\<close>
theorem create_resource_mesh:
  assumes "distinct (cl_hosts w)"
    and "\<forall>h \<in> set (cl_hosts w). platform_helper (hosts w h) = LinuxPlatform"
  shows "\<exists>r w'. create_resource E name w = (Inr r, w') \<and> cl_resources w' = cl_resources w @ [r] \<and>
     res_name (ress w' r) = (case name of None \<Rightarrow> cl_resource_name w | Some s \<Rightarrow> s) \<and>
     distinct (node_list w' r) \<and> length (node_list w' r) = length (cl_hosts w) \<and>
     (\<forall>i < length (cl_hosts w).
        let h = cl_hosts w ! i; n = node_list w' r ! i; nd = nodes w' n in
        node_host nd = h \<and> node_resource nd = r \<and> node_id nd = i \<and> node_port nd = host_port (hosts w h) \<and>
        disks nd = [] \<and> config_changed nd \<and> distinct (ends (node_conns nd)) \<and>
        set (ends (node_conns nd)) = {(n, m) | m. m \<in> set (node_list w' r) \<and> m \<noteq> n})"
proof -
  let ?hs = "cl_hosts w"
  define r where "r = next_rref w"
  define rn where "rn = (case name of None \<Rightarrow> cl_resource_name w | Some s \<Rightarrow> s)"
  obtain w0 where init: "bindA (getA (\<lambda>w. (cl_transport w, cl_tls w))) (\<lambda>(t, s). resource_init rn t s) w = (Inr r, w0)"
    and w0: "cl_hosts w0 = ?hs" "hosts w0 = hosts w" "cl_resources w0 = cl_resources w" "res_name (ress w0 r) = rn"
      "res_nodes (ress w0 r) = os_empty"
    by (simp add: resource_init_def r_def)
  have start: "nodes_made w0 r ?hs 0 w0" using w0 by (simp add: nodes_made_def)
  obtain w1 where w1: "forA ?hs (\<lambda>h. bindA (next_port h) (\<lambda>p. ignore (node_init E h r p))) w0 = (Inr (), w1)"
    "nodes_made w0 r ?hs (length ?hs) w1"
    using make_nodes [OF start assms(1), of "length ?hs" E] assms(2) w0(2) by auto
  let ?ns = "node_list w1 r"
  have ns: "?ns = [next_nref w0..<next_nref w0 + length ?hs]" using w1(2) by (simp add: nodes_made_def)
  have nd: "nodes w1 (?ns ! i) = fresh_node w0 r (?hs ! i) i" if "i < length ?hs" for i
    using that w1(2) by (simp add: ns nodes_made_def)
  have fresh: "node_res w1 n = r \<and> node_conns (nodes w1 n) = os_empty" if "n \<in> set ?ns" for n
    using that nd by (metis (no_types, lifting) fresh_node_def in_set_conv_nth length_upt add_diff_cancel_left' node.select_convs(3,9) node_res_def ns)
  obtain F k where F: "forA (List.product ?ns ?ns) connect_pair w1 =
       (Inr (), w1\<lparr>next_conn := k, nodes := (\<lambda>n. (nodes w1 n)\<lparr>node_conns := F n\<rparr>)\<rparr>)"
     "\<forall>n. ends (F n) = foldl ref_add (ends (node_conns (nodes w1 n))) (filter (\<lambda>(a, b). a = n \<and> a \<noteq> b) (List.product ?ns ?ns))"
    using connect_pairs [of "List.product ?ns ?ns" w1 r] fresh by fastforce
  define w2 where "w2 = w1\<lparr>next_conn := k, nodes := (\<lambda>n. (nodes w1 n)\<lparr>node_conns := F n\<rparr>)\<rparr>"
  have mesh: "forA ?ns (\<lambda>n0. forA ?ns (\<lambda>n1. whenA (n0 \<noteq> n1) (add_connection n0 n1))) w1 = (Inr (), w2)"
    using F(1) for_product [of ?ns ?ns connect_pair] by (simp add: connect_pair_def w2_def)
  define w' where "w' = w2\<lparr>cl_resources := cl_resources w2 @ [r]\<rparr>"
  have run: "create_resource E name w = (Inr r, w')"
    using init w0(1) w1(1) mesh
    by (simp add: create_resource_def rn_def [symmetric] bind_ok seq_ok w'_def)
  have list': "node_list w' r = ?ns" and nodes': "nodes w' n = (nodes w1 n)\<lparr>node_conns := F n\<rparr>" for n
    by (simp_all add: w'_def w2_def)
  have "distinct (ends (F n)) \<and> set (ends (F n)) = {(n, m) | m. m \<in> set ?ns \<and> m \<noteq> n}" if "n \<in> set ?ns" for n
    using mesh_conns [of ?ns n] F(2) fresh [OF that] that by (simp add: ns)
  moreover have "?ns ! i \<in> set ?ns" if "i < length ?hs" for i using that by (simp add: ns)
  ultimately show ?thesis
    using nd run w1(2) w0
    by (intro exI [of _ r] exI [of _ w'])
      (simp add: list' nodes' Let_def fresh_node_def rn_def w'_def w2_def nodes_made_def)
qed

theorem create_resource_mesh_witness:
  "\<exists>r w'. create_resource ok_env None (empty_cluster [0, 1, 2]) = (Inr r, w') \<and> length (node_list w' r) = 3"
proof -
  let ?w = "empty_cluster [0, 1, 2]"
  have "distinct (cl_hosts ?w)" "\<forall>h \<in> set (cl_hosts ?w). platform_helper (hosts ?w h) = LinuxPlatform"
    by (simp_all add: empty_cluster_def sample_host_def)
  from create_resource_mesh [OF this, of ok_env None] obtain r w' where
    "create_resource ok_env None ?w = (Inr r, w')" "length (node_list w' r) = length (cl_hosts ?w)" by blast
  then show ?thesis by (auto simp: empty_cluster_def)
qed

section \<open>Commands on nodes\<close>

text \<open>
  The state without the trace and without the flag that says a configuration file is outdated:
  running commands on nodes and waiting for events leave it alone, however they end.
\<close>

definition core :: "world \<Rightarrow> world" where
  "core w = w\<lparr>trace := [], nodes := (\<lambda>n. (nodes w n)\<lparr>config_changed := False\<rparr>)\<rparr>"

interpretation cr: step_rel "\<lambda>w w'. core w' = core w"
  by unfold_locales simp_all

abbreviation keeps_core :: "'a prog \<Rightarrow> bool" where
  "keeps_core \<equiv> cr.within"

lemmas keeps_coreD = cr.withinD
lemmas core_pres = cr.within_rules

lemma core_effects: "only_effects m \<Longrightarrow> keeps_core m"
proof (rule cr.withinI)
  fix w r w' assume "only_effects m" "m w = (r, w')"
  then have "objects w' = objects w" by (rule effects_objects)
  moreover have "core v = core (objects v)" for v by (simp add: core_def objects_def)
  ultimately show "core w' = core w" by metis
qed

lemma core_update_config: "keeps_core (update_config E n)"
proof -
  have flag: "keeps_core (upd_node n (\<lambda>x. x\<lparr>config_changed := False\<rparr>))"
    unfolding upd_node_def by (rule cr.within_mod) (auto simp: core_def fun_eq_iff)
  show ?thesis
    unfolding update_config_def by (intro core_pres flag core_effects [OF effects_host_run] core_effects effect_rules)
qed

lemma core_drbdadm:
  "keeps_core (node_cmd E n cmd)" "keeps_core (node_drbdadm E n cmd)"
  unfolding node_drbdadm_def node_cmd_def node_run_def
  by (intro core_pres core_update_config core_effects effect_rules)+

lemma core_nodes_resource: "keeps_core (nodes_resource ns)"
  unfolding nodes_resource_def by (cases "items ns") (simp_all add: core_pres)

lemma core_nodes_res_drbdadm: "keeps_core (nodes_res_drbdadm E ns cmd opts)"
  unfolding nodes_res_drbdadm_def nodes_drbdadm_def
  by (intro core_pres core_nodes_resource core_drbdadm)

lemma core_event: "keeps_core (ignore (nodes_event E ns yes opts))"
  unfolding ignore_def by (intro core_effects effect_rules)

lemma same_core:
  assumes "core w' = core w"
  shows "ress w' = ress w" "proxy_enable w' = proxy_enable w" "hosts w' = hosts w"
    "node_res w' = node_res w" "node_host (nodes w' n) = node_host (nodes w n)"
proof -
  have "ress (core w') = ress (core w)" "proxy_enable (core w') = proxy_enable (core w)"
    "hosts (core w') = hosts (core w)" "node_resource (nodes (core w') n) = node_resource (nodes (core w) n)"
    "node_host (nodes (core w') n) = node_host (nodes (core w) n)" for n using assms by simp_all
  then show "ress w' = ress w" "proxy_enable w' = proxy_enable w" "hosts w' = hosts w"
    "node_res w' = node_res w" "node_host (nodes w' n) = node_host (nodes w n)"
    by (auto simp: core_def node_res_def fun_eq_iff)
qed

section \<open>Patterns forbidden while a resource goes down\<close>

lemma down_patterns_mem:
  "os_inv (=) (forbidden_patterns (ress w r)) \<Longrightarrow> down_patterns w r ns = Inr ps \<Longrightarrow>
   set ps \<subseteq> set (items (forbidden_patterns (ress w r))) \<and>
   set (items (forbidden_patterns (ress w r))) \<inter> {''connection:BrokenPipe'', ''connection:NetworkFailure''} \<subseteq> set ps"
  by (auto simp: down_patterns_def Let_def split: if_splits sum.splits)

lemma down_patterns_ok: "items ns \<noteq> [] \<Longrightarrow> \<exists>ps. down_patterns w r ns = Inr ps"
  by (cases "items ns") (auto simp: down_patterns_def Let_def min_drbd_version_tuple_def)

text \<open>The state after \<open>down\<close> stopped forbidding its patterns.\<close>

lemma nodes_down_split:
  assumes "nodes_down E ns w = (x, w')" and "items ns = n # rest" and "r = node_res w n"
    and "os_inv (=) (forbidden_patterns (ress w r))"
  obtains (proxy) e where "x = Inl e" "proxy_enable w" "core w' = core w"
  | (down) ps w1 where "set ps \<subseteq> set (items (forbidden_patterns (ress w r)))"
      "set (items (forbidden_patterns (ress w r))) \<inter> {''connection:BrokenPipe'', ''connection:NetworkFailure''} \<subseteq> set ps"
      "ress w1 = (ress w)(r := (ress w r)\<lparr>forbidden_patterns := os_difference_update (=) (forbidden_patterns (ress w r)) ps\<rparr>)"
      "seqA (nodes_res_drbdadm E ns ''down'' []) (seqA (ignore (nodes_event E ns [''destroy resource''] evd)) (add_forbidden r ps)) w1 = (x, w')"
proof -
  let ?p = "bindA (getA proxy_enable) (\<lambda>p. whenA p (nodes_res_drbdadm E ns ''proxy-down'' []))"
  have kp: "keeps_core ?p" by (intro core_pres core_nodes_res_drbdadm)
  obtain y w0 where p: "?p w = (y, w0)" by (cases "?p w")
  have c: "core w0 = core w" using kp p by (rule keeps_coreD)
  show thesis
  proof (cases y)
    case (Inl e)
    have "proxy_enable w" using p Inl by (cases "proxy_enable w") simp_all
    moreover have "x = Inl e" "w' = w0" using assms(1) p Inl by (simp_all add: nodes_down_def seq_err)
    ultimately show thesis using c by (intro proxy) simp_all
  next
    case (Inr u)
    have r0: "node_res w0 n = r" "ress w0 = ress w" using same_core [OF c] assms(3) by simp_all
    obtain ps where ps: "down_patterns w0 r ns = Inr ps" using down_patterns_ok [of ns] assms(2) by auto
    define w1 where "w1 = w0\<lparr>ress := (ress w0)(r := (ress w0 r)\<lparr>forbidden_patterns := os_difference_update (=) (forbidden_patterns (ress w0 r)) ps\<rparr>)\<rparr>"
    have "seqA (nodes_res_drbdadm E ns ''down'' []) (seqA (ignore (nodes_event E ns [''destroy resource''] evd)) (add_forbidden r ps)) w1 = (x, w')"
      using assms(1,2) p Inr ps r0
      by (simp add: nodes_down_def seq_ok nodes_resource_def exprA_def bind_assoc lift_Inr remove_forbidden_def upd_res_def w1_def)
    moreover have "os_inv (=) (forbidden_patterns (ress w0 r))" using assms(4) r0 by simp
    note down_patterns_mem [OF this ps]
    ultimately show thesis using r0 by (intro down [of ps w1]) (simp_all add: w1_def)
  qed
qed

lemma down_commands_keep:
  assumes "seqA (nodes_res_drbdadm E ns cmd opts) (seqA (ignore (nodes_event E ns yes ev)) m) w1 = (x, w')"
  obtains (failed) e where "x = Inl e" "ress w' = ress w1"
  | (ended) w2 where "ress w2 = ress w1" "m w2 = (x, w')"
proof -
  let ?c = "nodes_res_drbdadm E ns cmd opts" and ?v = "ignore (nodes_event E ns yes ev)"
  have k: "keeps_core (seqA ?c ?v)" by (intro core_pres core_nodes_res_drbdadm core_event)
  obtain y w2 where y: "seqA ?c ?v w1 = (y, w2)" by (cases "seqA ?c ?v w1")
  have r: "ress w2 = ress w1" using same_core(1) [OF keeps_coreD [OF k y]] .
  have run: "seqA (seqA ?c ?v) m w1 = (x, w')" using assms by (simp add: seq_assoc)
  show thesis
  proof (cases y)
    case (Inl e)
    then have "x = Inl e" "w' = w2" using run y by (simp_all add: seq_err)
    then show thesis using r by (intro failed) simp_all
  next
    case (Inr u)
    then show thesis using run y r by (intro ended) (simp_all add: seq_ok)
  qed
qed

text \<open>
  C26: \<open>Nodes.down\<close> that returns has restored what is forbidden in the log of the resource: the set
  of forbidden patterns is the one before the call (those it tolerated meanwhile are back), and
  no other resource is affected.
\<close>
theorem nodes_down_restores_patterns:
  assumes "items ns = n # rest" and "r = node_res w n" and "os_inv (=) (forbidden_patterns (ress w r))"
    and "nodes_down E ns w = (Inr (), w')"
  shows "set (items (forbidden_patterns (ress w' r))) = set (items (forbidden_patterns (ress w r))) \<and>
    (\<forall>q. q \<noteq> r \<longrightarrow> ress w' q = ress w q)"
  using assms(4,1,2,3)
proof (cases rule: nodes_down_split)
  case (down ps w1)
  let ?fp = "forbidden_patterns (ress w r)" and ?d = "os_difference_update (=) (forbidden_patterns (ress w r)) ps"
  from down(4) show ?thesis
  proof (cases rule: down_commands_keep)
    case (ended w2)
    have inv: "os_inv (=) ?d" using assms(3) by simp
    then have "x \<in> set (items (snd (os_update (=) ?d ps))) \<longleftrightarrow> x \<in> set (items ?d) \<or> x \<in> set ps" for x
      using eqk.contains_update [OF inv, of ps x] eqk.os_inv_update [OF inv, of ps] by simp
    moreover have "set (items ?d) = set (items ?fp) - set ps"
      using items_difference_update_eq [OF assms(3)] by auto
    ultimately have "set (items (snd (os_update (=) ?d ps))) = set (items ?fp)" using down(1) by auto
    moreover have "ress w' = (ress w1)(r := (ress w1 r)\<lparr>forbidden_patterns := snd (os_update (=) (forbidden_patterns (ress w1 r)) ps)\<rparr>)"
      using ended(2) unfolding ended(1) [symmetric] by (auto simp: add_forbidden_def upd_res_def)
    ultimately show ?thesis by (simp add: down(3))
  qed simp
qed simp

text \<open>
  C36: When \<open>Nodes.down\<close> raises (without a proxy), the patterns for a broken connection stay
  allowed: they are no longer forbidden for the resource, although they may have been before.
\<close>
theorem nodes_down_failure_allows:
  assumes "items ns = n # rest" and "r = node_res w n" and "os_inv (=) (forbidden_patterns (ress w r))"
    and "\<not> proxy_enable w" and "nodes_down E ns w = (Inl e, w')"
    and "p = ''connection:BrokenPipe'' \<or> p = ''connection:NetworkFailure''"
  shows "p \<notin> set (items (forbidden_patterns (ress w' r)))"
  using assms(5,1,2,3)
proof (cases rule: nodes_down_split)
  case (proxy e)
  then show ?thesis using assms(4) by simp
next
  case (down ps w1)
  from down(4) show ?thesis
  proof (cases rule: down_commands_keep)
    case (failed e)
    then show ?thesis
      using assms(6) down(2,3) items_difference_update_eq [OF assms(3)] by auto
  next
    case (ended w2)
    then show ?thesis by (simp add: add_forbidden_def upd_res_def)
  qed
qed

lemma host_cmd_status:
  "k \<noteq> 0 \<Longrightarrow> \<exists>w'. host_run (status_env k) h cmd run_defaults w = (Inl (CalledProcessError k (command_string (hosts w h) cmd run_defaults)), w')"
  by (simp add: host_run_def ssh_exec_def status_env_def ok_env_def run_defaults_def Let_def bindA_def
      seqA_def getA_def emit_def modA_def ret_def raise_def)

text \<open>With up-to-date configurations a command on a node is only the remote command.\<close>

lemma node_drbdadm_clean:
  "\<not> config_changed (nodes w n) \<Longrightarrow>
   node_drbdadm E n cmd w = bindA (host_run E (node_host (nodes w n)) (drbdadm_command w n cmd) run_defaults) (\<lambda>_. ret ()) w"
  by (simp add: node_drbdadm_def node_cmd_def node_run_def update_config_def bind_assoc seqA_def bindA_def getA_def)

lemma node_drbdadm_fails:
  assumes "\<not> config_changed (nodes w n)" and "k \<noteq> 0"
  shows "\<exists>e w'. node_drbdadm (status_env k) n cmd w = (Inl e, w')"
proof -
  obtain w' where "host_run (status_env k) (node_host (nodes w n)) (drbdadm_command w n cmd) run_defaults w =
      (Inl (CalledProcessError k (command_string (host_of w n) (drbdadm_command w n cmd) run_defaults)), w')"
    using host_cmd_status [OF assms(2)] by blast
  then show ?thesis by (auto simp: node_drbdadm_clean [OF assms(1)] bind_err)
qed

definition all_clean :: "world \<Rightarrow> bool" where
  "all_clean w \<longleftrightarrow> (\<forall>n. \<not> config_changed (nodes w n)) \<and> \<not> proxy_enable w \<and> logscan_ready w"

lemma all_clean_effects: "only_effects m \<Longrightarrow> m w = (x, w') \<Longrightarrow> all_clean w \<Longrightarrow> all_clean w'"
proof -
  assume "only_effects m" "m w = (x, w')" and c: "all_clean w"
  then have "objects w' = objects w" by (intro effects_objects)
  then have "nodes (objects w') = nodes (objects w)" "proxy_enable (objects w') = proxy_enable (objects w)"
    "logscan_ready (objects w') = logscan_ready (objects w)" by simp_all
  with c show "all_clean w'" by (simp add: all_clean_def objects_def)
qed

lemma nodes_res_drbdadm_ok:
  assumes "all_clean w" and "items ns \<noteq> []"
  shows "\<exists>w'. nodes_res_drbdadm ok_env ns cmd opts w = (Inr (), w') \<and> all_clean w'"
proof -
  have node: "\<exists>w'. node_drbdadm ok_env n c w = (Inr (), w') \<and> all_clean w'" if cl: "all_clean w" for n c w
  proof -
    obtain w' where w': "host_run ok_env (node_host (nodes w n)) (drbdadm_command w n c) run_defaults w = (Inr None, w')"
      using host_run_ok_env by blast
    have "all_clean w'" using all_clean_effects [OF effects_host_run w' cl] .
    with w' cl show ?thesis by (simp add: node_drbdadm_clean all_clean_def bind_ok)
  qed
  have "\<exists>w'. forA xs (\<lambda>n. node_drbdadm ok_env n c) w = (Inr (), w') \<and> all_clean w'" if "all_clean w" for xs c w
    using that
  proof (induction xs arbitrary: w)
    case (Cons x xs)
    then obtain w1 where "node_drbdadm ok_env x c w = (Inr (), w1)" "all_clean w1" using node by blast
    with Cons.IH show ?case by (simp add: seq_ok)
  qed simp
  note loop = this [OF assms(1)]
  show ?thesis
    using assms(2) loop [of "items ns"]
    by (cases "items ns") (simp_all add: nodes_res_drbdadm_def nodes_resource_def nodes_drbdadm_def del: forA.simps)
qed

lemma nodes_down_clean:
  assumes "items ns = n # rest" and "all_clean w"
  shows "\<exists>ps w1. all_clean w1 \<and> nodes_down E ns w = seqA (nodes_res_drbdadm E ns ''down'' [])
      (seqA (ignore (nodes_event E ns [''destroy resource''] evd)) (add_forbidden (node_res w n) ps)) w1"
proof -
  obtain ps where ps: "down_patterns w (node_res w n) ns = Inr ps" using down_patterns_ok [of ns] assms(1) by auto
  let ?w = "w\<lparr>ress := (ress w)(node_res w n := (ress w (node_res w n))\<lparr>forbidden_patterns :=
      os_difference_update (=) (forbidden_patterns (ress w (node_res w n))) ps\<rparr>)\<rparr>"
  have "bindA (getA proxy_enable) (\<lambda>p. whenA p (nodes_res_drbdadm E ns ''proxy-down'' [])) w = (Inr (), w)"
    using assms(2) by (simp add: all_clean_def)
  then show ?thesis
    using assms ps
    by (intro exI [of _ ps] exI [of _ ?w])
      (simp add: nodes_down_def nodes_resource_def exprA_def bind_assoc lift_Inr remove_forbidden_def upd_res_def all_clean_def seq_ok)
qed

lemma down_fails:
  assumes "items ns = n # rest" and "all_clean w" and "k \<noteq> 0"
  shows "\<exists>e w'. nodes_down (status_env k) ns w = (Inl e, w')"
proof -
  obtain ps w1 where w1: "all_clean w1" "nodes_down (status_env k) ns w = seqA (nodes_res_drbdadm (status_env k) ns ''down'' [])
      (seqA (ignore (nodes_event (status_env k) ns [''destroy resource''] evd)) (add_forbidden (node_res w n) ps)) w1"
    using nodes_down_clean [OF assms(1,2)] by blast
  obtain e w' where "node_drbdadm (status_env k) n [''down'', res_name (ress w1 (node_res w1 n))] w1 = (Inl e, w')"
    using node_drbdadm_fails [OF _ assms(3)] w1(1) unfolding all_clean_def by blast
  then have "nodes_res_drbdadm (status_env k) ns ''down'' [] w1 = (Inl e, w')"
    using assms(1) by (simp add: nodes_res_drbdadm_def nodes_resource_def nodes_drbdadm_def seq_err)
  with w1(2) show ?thesis by (auto simp: seq_err)
qed

lemma down_succeeds:
  assumes "items ns = n # rest" and "all_clean w"
  shows "\<exists>w'. nodes_down ok_env ns w = (Inr (), w')"
proof -
  obtain ps w1 where w1: "all_clean w1" "nodes_down ok_env ns w = seqA (nodes_res_drbdadm ok_env ns ''down'' [])
      (seqA (ignore (nodes_event ok_env ns [''destroy resource''] evd)) (add_forbidden (node_res w n) ps)) w1"
    using nodes_down_clean [OF assms] by blast
  obtain w2 where w2: "nodes_res_drbdadm ok_env ns ''down'' [] w1 = (Inr (), w2)" "all_clean w2"
    using nodes_res_drbdadm_ok [OF w1(1), of ns] assms(1) by auto
  then have "\<exists>w3. ignore (nodes_event ok_env ns [''destroy resource''] evd) w2 = (Inr (), w3)"
    using assms(1) by (simp add: all_clean_def ignore_def nodes_event_def resource_logscan_def cluster_logscan_def
        emit_def ok_env_def Let_def bindA_def seqA_def getA_def modA_def ret_def liftA_def)
  then obtain w3 where w3: "ignore (nodes_event ok_env ns [''destroy resource''] evd) w2 = (Inr (), w3)" by blast
  show ?thesis using w1(2) w2(1) w3 by (simp add: seq_ok add_forbidden_def upd_res_def)
qed

definition clean_nodes :: world where
  "clean_nodes = two_nodes\<lparr>nodes := (\<lambda>n. (nodes two_nodes n)\<lparr>config_changed := False\<rparr>)\<rparr>"

lemma clean_nodes_down:
  "items (os_init (=) [0, 1]) = 0 # [1 :: nref]" "node_res clean_nodes 0 = 0" "\<not> proxy_enable clean_nodes"
  "os_inv (=) (forbidden_patterns (ress clean_nodes 0))" "all_clean clean_nodes"
  "''connection:BrokenPipe'' \<in> set (items (forbidden_patterns (ress clean_nodes 0)))"
  by (simp_all add: clean_nodes_def two_nodes_def empty_cluster_def items_init_eq node_res_def eqk.os_inv_init all_clean_def)

theorem nodes_down_failure_allows_witness:
  "\<exists>e w'. nodes_down (status_env 1) (os_init (=) [0, 1]) clean_nodes = (Inl e, w') \<and>
     ''connection:BrokenPipe'' \<in> set (items (forbidden_patterns (ress clean_nodes 0))) \<and>
     ''connection:BrokenPipe'' \<notin> set (items (forbidden_patterns (ress w' 0)))"
proof -
  obtain e w' where d: "nodes_down (status_env 1) (os_init (=) [0, 1]) clean_nodes = (Inl e, w')"
    using down_fails [OF clean_nodes_down(1,5), of 1] by auto
  have "''connection:BrokenPipe'' \<notin> set (items (forbidden_patterns (ress w' 0)))"
    using nodes_down_failure_allows [OF clean_nodes_down(1) clean_nodes_down(2) [symmetric] clean_nodes_down(4,3) d] by simp
  with d clean_nodes_down(6) show ?thesis by blast
qed

theorem nodes_down_restores_patterns_witness:
  "\<exists>w'. nodes_down ok_env (os_init (=) [0, 1]) clean_nodes = (Inr (), w') \<and>
     ''connection:BrokenPipe'' \<in> set (items (forbidden_patterns (ress w' 0)))"
proof -
  obtain w' where d: "nodes_down ok_env (os_init (=) [0, 1]) clean_nodes = (Inr (), w')"
    using down_succeeds [OF clean_nodes_down(1,5)] by blast
  show ?thesis
    using nodes_down_restores_patterns [OF clean_nodes_down(1) clean_nodes_down(2) [symmetric] clean_nodes_down(4) d]
      d clean_nodes_down(6) by blast
qed

end
