(* ===== verification/Volume_Props.thy ===== *)
theory Volume_Props
  imports Cluster_Props
begin

text \<open>
  The volumes of a resource: \<open>Resource.add_disk\<close> gives the same number to the new volume of
  every node, which is its position in the node's list of disks.
\<close>

section \<open>Statements that create no volume\<close>

text \<open>Resources, the disks of the nodes, and the volumes.\<close>

definition frame :: "world \<Rightarrow> (rref \<Rightarrow> resource) \<times> (nref \<Rightarrow> rref \<times> vref list) \<times> nat" where
  "frame w = (ress w, (\<lambda>m. (node_resource (nodes w m), disks (nodes w m))), next_vref w)"

interpretation fr: step_rel "\<lambda>w w'. frame w' = frame w \<and> vols w' = vols w"
  by unfold_locales simp_all

abbreviation keeps_frame :: "'a prog \<Rightarrow> bool" where
  "keeps_frame \<equiv> fr.within"

lemmas keeps_frameD = fr.withinD
lemmas frame_rules = fr.within_rules

lemma frame_core: "keeps_core m \<Longrightarrow> keeps_frame m"
proof (rule fr.withinI)
  fix w r w' assume "keeps_core m" "m w = (r, w')"
  then have c: "core w' = core w" by (rule keeps_coreD)
  have "ress (core w') = ress (core w)" "vols (core w') = vols (core w)" "next_vref (core w') = next_vref (core w)"
    "node_resource (nodes (core w') n) = node_resource (nodes (core w) n)"
    "disks (nodes (core w') n) = disks (nodes (core w) n)" for n using c by simp_all
  then have "ress w' = ress w" "vols w' = vols w" "next_vref w' = next_vref w"
    "\<And>n. node_resource (nodes w' n) = node_resource (nodes w n)" "\<And>n. disks (nodes w' n) = disks (nodes w n)"
    unfolding core_def by simp_all
  then show "frame w' = frame w \<and> vols w' = vols w" unfolding frame_def by simp
qed

lemmas frame_effects = frame_core [OF core_effects]

lemma frame_upd_host: "keeps_frame (upd_host h f)"
  unfolding upd_host_def by (rule fr.within_mod) (simp add: frame_def)

lemma frame_create_pool: "keeps_frame (host_create_storage_pool E h thin g)"
  unfolding host_create_storage_pool_def
  by (intro frame_rules frame_upd_host frame_effects effect_rules)

lemma frame_create_md: "keeps_frame (volume_create_md E v mp o')"
  unfolding volume_create_md_def create_md_def supports_uuid_options_def
  by (intro frame_rules frame_upd_host frame_core [OF core_drbdadm(2)] frame_effects effects_host_stdout)

section \<open>One disk\<close>

text \<open>Nothing but the new volume \<open>v\<close> has changed.\<close>

definition one_new :: "world \<Rightarrow> vref \<Rightarrow> nat \<Rightarrow> nref \<Rightarrow> world \<Rightarrow> bool" where
  "one_new w0 v k n w \<longleftrightarrow> ress w = ress w0 \<and>
     (\<forall>m. node_resource (nodes w m) = node_resource (nodes w0 m) \<and> disks (nodes w m) = disks (nodes w0 m)) \<and>
     next_vref w = Suc v \<and> (\<forall>u. u \<noteq> v \<longrightarrow> vols w u = vols w0 u) \<and>
     vol_number (vols w v) = k \<and> vol_node (vols w v) = n"

lemma one_new_frame: "keeps_frame m \<Longrightarrow> keeps (\<lambda>w. one_new w0 v k n w \<and> P (vols w v)) m"
proof (rule keepsI)
  fix s x t assume k: "keeps_frame m" and i: "one_new w0 v k n s \<and> P (vols s v)" and r: "m s = (Inr x, t)"
  have "frame t = frame s" "vols t = vols s" using keeps_frameD [OF k r] by simp_all
  then show "one_new w0 v k n t \<and> P (vols t v)" using i by (auto simp: one_new_def frame_def fun_eq_iff)
qed

lemma one_new_upd_vol:
  assumes "\<And>x. vol_number (f x) = vol_number x \<and> vol_node (f x) = vol_node x" and "\<And>x. P x \<Longrightarrow> Q (f x)"
  shows "triple (\<lambda>w. one_new w0 v k n w \<and> P (vols w v)) (upd_vol v f) (\<lambda>_ w. one_new w0 v k n w \<and> Q (vols w v)) (\<lambda>_ _. True)"
  by (rule tripleI) (auto simp: upd_vol_def one_new_def assms)

lemma create_disks_new:
  "triple (\<lambda>w. one_new w0 v k n w) (volume_create_disks E v sz ms mx dl lbs)
     (\<lambda>_ w. one_new w0 v k n w \<and> vol_disk (vols w v) \<noteq> None) (\<lambda>_ _. True)"
proof -
  let ?I = "\<lambda>P w. one_new w0 v k n w \<and> P (vols w v)"
  let ?some = "\<lambda>x. vol_disk x \<noteq> None"
  have disk: "triple (?I P) (create_disk E h a b c d e) (\<lambda>_. ?I P) (\<lambda>_ _. True)" for P h a b c d e
    using one_new_frame [OF frame_effects [OF effects_create_disk]] unfolding keeps_def by blast
  have lv: "triple (?I (\<lambda>_. True)) (upd_vol v (\<lambda>x. x\<lparr>disk_lv := Some l\<rparr>)) (\<lambda>_. ?I (\<lambda>_. True)) (\<lambda>_ _. True)" for l
    by (rule one_new_upd_vol) simp_all
  have set: "triple (?I (\<lambda>_. True)) (upd_vol v (\<lambda>x. x\<lparr>vol_disk := Some d\<rparr>)) (\<lambda>_. ?I ?some) (\<lambda>_ _. True)" for d
    by (rule one_new_upd_vol) simp_all
  have mlv: "triple (?I ?some) (upd_vol v (\<lambda>x. x\<lparr>meta_lv := Some l\<rparr>)) (\<lambda>_. ?I ?some) (\<lambda>_ _. True)" for l
    by (rule one_new_upd_vol) simp_all
  have mset: "triple (?I ?some) (upd_vol v (\<lambda>x. x\<lparr>vol_meta := Some d\<rparr>)) (\<lambda>_. ?I ?some) (\<lambda>_ _. True)" for d
    by (rule one_new_upd_vol) simp_all
  have inner: "triple (?I ?some) (seqA (upd_vol v (\<lambda>x. x\<lparr>meta_lv := Some l\<rparr>))
         (bindA (create_disk E h l s None d e) (\<lambda>m. upd_vol v (\<lambda>x. x\<lparr>vol_meta := Some m\<rparr>)))) (\<lambda>_. ?I ?some) (\<lambda>_ _. True)" for h l s d e
    by (rule triple_seq [OF mlv], rule triple_bind [OF disk], rule mset)
  have skip: "triple (?I ?some) (ret ()) (\<lambda>_. ?I ?some) (\<lambda>_ _. True)" by (simp add: triple_def)
  have meta: "triple (?I ?some) (whenA b (seqA (upd_vol v (\<lambda>x. x\<lparr>meta_lv := Some l\<rparr>))
         (bindA (create_disk E h l s None d e) (\<lambda>m. upd_vol v (\<lambda>x. x\<lparr>vol_meta := Some m\<rparr>))))) (\<lambda>_. ?I ?some) (\<lambda>_ _. True)" for b h l s d e
    by (cases b) (simp_all only: when_True when_False inner skip)
  show ?thesis
  proof (rule tripleI)
    fix w x t assume i: "one_new w0 v k n w" and r: "volume_create_disks E v sz ms mx dl lbs w = (Inr x, t)"
    obtain h rn kk where g: "(node_host (nodes w (vol_node (vols w v))), res_name (ress w (vol_res w v)), str_nat (vol_number (vols w v))) = (h, rn, kk)"
      by auto
    have "triple (?I (\<lambda>_. True)) (seqA (upd_vol v (\<lambda>x. x\<lparr>disk_lv := Some (rn @ ''-disk'' @ kk)\<rparr>))
    (bindA (create_disk E h (rn @ ''-disk'' @ kk) sz mx dl lbs) (\<lambda>d.
     seqA (upd_vol v (\<lambda>x. x\<lparr>vol_disk := Some d\<rparr>))
       (whenA (truthy_str ms)
         (seqA (upd_vol v (\<lambda>x. x\<lparr>meta_lv := Some (rn @ ''-meta'' @ kk)\<rparr>))
         (bindA (create_disk E h (rn @ ''-meta'' @ kk) (the ms) None dl lbs) (\<lambda>m.
          upd_vol v (\<lambda>x. x\<lparr>vol_meta := Some m\<rparr>)))))))) (\<lambda>_. ?I ?some) (\<lambda>_ _. True)"
      by (rule triple_seq [OF lv], rule triple_bind [OF disk], rule triple_seq [OF set], rule meta)
    then show "one_new w0 v k n t \<and> vol_disk (vols t v) \<noteq> None"
      using i r g by (fastforce simp: volume_create_disks_def Let_def elim!: triple_okD)
  qed simp
qed

lemma new_volume_result:
  assumes "new_volume n (Some k) None w = (Inr v, w')"
  shows "v = next_vref w \<and> one_new w v k n w' \<and> vol_disk (vols w' v) = None"
  using assms
  by (auto simp: new_volume_def next_minor_def upd_host_def seqA_def bindA_def getA_def modA_def ret_def one_new_def)

text \<open>The effect of \<open>Node.add_disk\<close> on the state when the number is the next position.\<close>

definition disk_added :: "world \<Rightarrow> nref \<Rightarrow> nat \<Rightarrow> bool \<Rightarrow> vref \<Rightarrow> world \<Rightarrow> bool" where
  "disk_added w n k full v w' \<longleftrightarrow> v = next_vref w \<and> next_vref w' = Suc v \<and> ress w' = ress w \<and>
     (\<forall>u. u \<noteq> v \<longrightarrow> vols w' u = vols w u) \<and> vol_number (vols w' v) = k \<and> vol_node (vols w' v) = n \<and>
     (vol_disk (vols w' v) \<noteq> None \<longleftrightarrow> full) \<and>
     (\<forall>m. node_resource (nodes w' m) = node_resource (nodes w m) \<and>
        disks (nodes w' m) = (if m = n then disks (nodes w m) @ [v] else disks (nodes w m)))"

lemma one_new_frame_eq: "frame w1 = frame w \<Longrightarrow> vols w1 = vols w \<Longrightarrow> one_new w1 v k n w' = one_new w v k n w'"
  by (auto simp: one_new_def frame_def fun_eq_iff)

lemma frame_next: "frame w1 = frame w \<Longrightarrow> next_vref w1 = next_vref w"
  by (simp add: frame_def)

lemma frame_disks: "frame w1 = frame w \<Longrightarrow> disks (nodes w1 n) = disks (nodes w n)"
  by (auto simp: frame_def fun_eq_iff)

lemma node_add_disk_result:
  assumes run: "node_add_disk E n k sz o' w = (Inr v, w')" and k: "length (disks (nodes w n)) = k"
  shows "disk_added w n k (sz \<noteq> None) v w'"
proof -
  define h where "h = node_host (nodes w n)"
  let ?pool = "bindA (getA (\<lambda>w. storage_pool (hosts w h))) (\<lambda>sp. whenA (sp = None) (host_create_storage_pool E h False None))"
  let ?zero = "\<lambda>v. whenA (do_zero_out o') (bindA (getA (\<lambda>w. disk_arg w v)) (\<lambda>d. node_cmd E n [''blkdiscard'', ''-z'', d]))"
  let ?disks = "\<lambda>v. case sz of None \<Rightarrow> ret () | Some s \<Rightarrow>
      seqA (volume_create_disks E v s (do_meta_size o') (do_max_size o') (do_delay_ms o') (do_logical_block_size o')) (?zero v)"
  let ?fin = "\<lambda>v. seqA (upd_node n (\<lambda>x. x\<lparr>
             disks := (if length (disks x) \<le> k then disks x @ [v] else (disks x)[k := v]), config_changed := True\<rparr>)) (ret v)"
  have "seqA ?pool (bindA (getA (\<lambda>w. let ds = disks (nodes w n) in
      if length ds \<le> k then None else Some (vol_minor (vols w (ds ! k))))) (\<lambda>minor.
     bindA (new_volume n (Some k) minor) (\<lambda>v. seqA (?disks v) (?fin v)))) w = (Inr v, w')"
    using run by (simp add: node_add_disk_def h_def)
  then obtain w1 where pool: "?pool w = (Inr (), w1)" and rest: "bindA (getA (\<lambda>w. let ds = disks (nodes w n) in
      if length ds \<le> k then None else Some (vol_minor (vols w (ds ! k))))) (\<lambda>minor.
     bindA (new_volume n (Some k) minor) (\<lambda>v. seqA (?disks v) (?fin v))) w1 = (Inr v, w')"
    by (elim seq_InrE) auto
  have f1: "frame w1 = frame w" "vols w1 = vols w"
    using keeps_frameD [where m = ?pool and s = w] pool by (simp_all add: frame_rules frame_create_pool del: bind_getA)
  have d1: "disks (nodes w1 n) = disks (nodes w n)" using frame_disks [OF f1(1)] .
  have "bindA (new_volume n (Some k) None) (\<lambda>v. seqA (?disks v) (?fin v)) w1 = (Inr v, w')"
    using rest k d1 by (simp add: Let_def)
  then obtain u w2 where nv: "new_volume n (Some k) None w1 = (Inr u, w2)" and r2: "seqA (?disks u) (?fin u) w2 = (Inr v, w')"
    by (elim bind_InrE)
  obtain z w3 where "?disks u w2 = (Inr z, w3)" and fin: "?fin u w3 = (Inr v, w')"
    by (rule seq_InrE [OF r2])
  then have r3: "?disks u w2 = (Inr (), w3)" by simp
  have new: "u = next_vref w" "one_new w u k n w2" "vol_disk (vols w2 u) = None"
    using new_volume_result [OF nv] frame_next [OF f1(1)] one_new_frame_eq [OF f1] by metis+
  have w3: "one_new w u k n w3 \<and> (vol_disk (vols w3 u) \<noteq> None \<longleftrightarrow> sz \<noteq> None)"
  proof (cases sz)
    case None
    then show ?thesis using r3 new by simp
  next
    case (Some s)
    then have "seqA (volume_create_disks E u s (do_meta_size o') (do_max_size o') (do_delay_ms o') (do_logical_block_size o')) (?zero u) w2 = (Inr (), w3)"
      using r3 by simp
    then obtain w4 where c: "volume_create_disks E u s (do_meta_size o') (do_max_size o') (do_delay_ms o') (do_logical_block_size o') w2 = (Inr (), w4)"
      and z: "?zero u w4 = (Inr (), w3)" by (rule seq_InrE) simp
    have w4: "one_new w u k n w4 \<and> vol_disk (vols w4 u) \<noteq> None" using triple_okD [OF create_disks_new new(2) c] .
    have "keeps_frame (?zero u)" by (intro frame_rules frame_core [OF core_drbdadm(1)])
    from keepsD [OF one_new_frame [OF this, where P = "\<lambda>x. vol_disk x \<noteq> None"] w4 z] Some show ?thesis by simp
  qed
  have "v = u" "w' = w3\<lparr>nodes := (nodes w3)(n := (nodes w3 n)\<lparr>disks := disks (nodes w3 n) @ [u], config_changed := True\<rparr>)\<rparr>"
    using fin w3 k by (auto simp: upd_node_def one_new_def)
  then show ?thesis using w3 new(1) by (auto simp: disk_added_def one_new_def)
qed

section \<open>A disk on every node\<close>

definition volumes_numbered :: "world \<Rightarrow> rref \<Rightarrow> bool" where
  "volumes_numbered w r \<longleftrightarrow> (\<forall>n \<in> set (node_list w r).
     length (disks (nodes w n)) = num_volumes (ress w r) \<and>
     (\<forall>i < num_volumes (ress w r). let v = disks (nodes w n) ! i in
        v < next_vref w \<and> vol_number (vols w v) = i \<and> vol_node (vols w v) = n))"

text \<open>
  While the disks number \<open>k\<close> are added: the nodes in \<open>done\<close> have theirs, with a backing
  device where \<open>full\<close> says so, and everything older is unchanged.
\<close>

definition adding_disks :: "world \<Rightarrow> nref list \<Rightarrow> nat \<Rightarrow> (nref \<Rightarrow> bool) \<Rightarrow> nref set \<Rightarrow> world \<Rightarrow> bool" where
  "adding_disks w0 ns k full D w \<longleftrightarrow> ress w = ress w0 \<and> next_vref w0 \<le> next_vref w \<and>
     (\<forall>u < next_vref w0. vols w u = vols w0 u) \<and>
     (\<forall>n. n \<notin> D \<longrightarrow> disks (nodes w n) = disks (nodes w0 n)) \<and>
     (\<forall>n \<in> D. \<exists>v. disks (nodes w n) = disks (nodes w0 n) @ [v] \<and> next_vref w0 \<le> v \<and> v < next_vref w \<and>
        vol_number (vols w v) = k \<and> vol_node (vols w v) = n \<and> (vol_disk (vols w v) \<noteq> None \<longleftrightarrow> full n))"

lemma adding_disks_step:
  assumes "adding_disks w0 ns k full D w" and "disk_added w n k (full n) v w'" and "n \<notin> D"
  shows "adding_disks w0 ns k full (insert n D) w'"
  unfolding adding_disks_def
proof (intro conjI allI impI ballI)
  fix m assume "m \<in> insert n D"
  then consider "m = n" | "m \<in> D" "m \<noteq> n" by blast
  then show "\<exists>v. disks (nodes w' m) = disks (nodes w0 m) @ [v] \<and> next_vref w0 \<le> v \<and> v < next_vref w' \<and>
        vol_number (vols w' v) = k \<and> vol_node (vols w' v) = m \<and> (vol_disk (vols w' v) \<noteq> None \<longleftrightarrow> full m)"
  proof cases
    case 1
    then show ?thesis using assms by (intro exI [of _ v]) (auto simp: adding_disks_def disk_added_def)
  next
    case 2
    then obtain u where "disks (nodes w m) = disks (nodes w0 m) @ [u]" "next_vref w0 \<le> u" "u < next_vref w"
      "vol_number (vols w u) = k" "vol_node (vols w u) = m" "vol_disk (vols w u) \<noteq> None \<longleftrightarrow> full m"
      using assms(1) unfolding adding_disks_def by blast
    then show ?thesis using assms(2) 2 by (intro exI [of _ u]) (simp add: disk_added_def)
  qed
qed (use assms in \<open>auto simp: adding_disks_def disk_added_def\<close>)

lemma add_disk_loop:
  assumes "adding_disks w0 ns0 k full D w" and "distinct ns" and "set ns \<inter> D = {}"
    and "\<forall>n \<in> set ns. length (disks (nodes w0 n)) = k"
    and "foldA ns (\<lambda>acc n. if full n
              then bindA (node_add_disk E n k (Some sz) dopts) (\<lambda>v. ret (acc @ [v]))
              else bindA (node_add_disk E n k None disk_defaults) (\<lambda>_. ret acc)) acc w = (Inr vs, w')"
  shows "adding_disks w0 ns0 k full (D \<union> set ns) w'"
  using assms
proof (induction ns arbitrary: D w acc)
  case (Cons n ns)
  let ?step = "\<lambda>acc n. if full n
              then bindA (node_add_disk E n k (Some sz) dopts) (\<lambda>v. ret (acc @ [v]))
              else bindA (node_add_disk E n k None disk_defaults) (\<lambda>_. ret acc)"
  have nD: "n \<notin> D" using Cons.prems(3) by simp
  then have len: "length (disks (nodes w n)) = k" using Cons.prems(1,4) by (simp add: adding_disks_def)
  obtain acc1 w1 where s: "?step acc n w = (Inr acc1, w1)" and rest: "foldA ns ?step acc1 w1 = (Inr vs, w')"
    using Cons.prems(5) by (auto elim: bind_InrE)
  obtain v where "disk_added w n k (full n) v w1"
  proof (cases "full n")
    case True
    then obtain v where "node_add_disk E n k (Some sz) dopts w = (Inr v, w1)" using s by (auto elim!: bind_InrE)
    from node_add_disk_result [OF this len] True show thesis by (intro that) simp
  next
    case False
    then obtain v where "node_add_disk E n k None disk_defaults w = (Inr v, w1)" using s by (auto elim!: bind_InrE)
    from node_add_disk_result [OF this len] False show thesis by (intro that) simp
  qed
  then have "adding_disks w0 ns0 k full (insert n D) w1" using Cons.prems(1) nD by (intro adding_disks_step)
  from Cons.IH [OF this _ _ _ rest] Cons.prems show ?case by (simp add: insert_commute)
qed simp

lemma resource_add_disk_run:
  assumes "resource_add_disk E r sz diskful max_peers bbs dopts mopts w = (Inr vnr, w')"
    and "distinct (node_list w r)" and "\<forall>n \<in> set (node_list w r). length (disks (nodes w n)) = num_volumes (ress w r)"
    and full: "\<And>n. full n = (case diskful of None \<Rightarrow> True | Some ds \<Rightarrow> n \<in> set ds)"
    and w0: "w0 = w\<lparr>ress := (ress w)(r := (ress w r)\<lparr>num_volumes := Suc (num_volumes (ress w r))\<rparr>)\<rparr>"
  obtains w1 where "vnr = num_volumes (ress w r)" "adding_disks w0 (node_list w r) vnr full (set (node_list w r)) w1"
    "frame w' = frame w1" "vols w' = vols w1"
proof -
  define k where "k = num_volumes (ress w r)"
  define ns where "ns = node_list w r"
  let ?fold = "foldA ns (\<lambda>acc n. if full n
              then bindA (node_add_disk E n k (Some sz) dopts) (\<lambda>v. ret (acc @ [v]))
              else bindA (node_add_disk E n k None disk_defaults) (\<lambda>_. ret acc)) []"
  let ?md = "\<lambda>vs. forA vs (\<lambda>v. bindA (getA (\<lambda>w. vol_node (vols w v))) (\<lambda>n.
             volume_create_md E v max_peers (mopts\<lparr>md_bitmap_block_size := map_of bbs n\<rparr>)))"
  have nxt: "resource_next_volume r w = (Inr k, w0)"
    by (simp add: resource_next_volume_def upd_res_def k_def w0)
  have "bindA ?fold (\<lambda>vs. seqA (?md vs) (ret k)) w0 = (Inr vnr, w')"
    using assms(1) by (simp add: resource_add_disk_def bind_ok nxt full ns_def w0)
  then obtain vs w1 where f: "?fold w0 = (Inr vs, w1)" and m: "seqA (?md vs) (ret k) w1 = (Inr vnr, w')"
    by (rule bind_InrE)
  obtain x where md: "?md vs w1 = (Inr x, w')" "vnr = k" using m by (rule seq_InrE) auto
  have kf: "keeps_frame (?md vs)" by (intro frame_rules frame_create_md)
  have num: "\<forall>n \<in> set ns. length (disks (nodes w0 n)) = k" using assms(3) by (simp add: w0 ns_def k_def)
  have "adding_disks w0 ns k full {} w0" by (simp add: adding_disks_def)
  from add_disk_loop [OF this _ _ num f] assms(2) have "adding_disks w0 ns k full (set ns) w1"
    by (simp add: ns_def)
  then show ?thesis using that keeps_frameD [OF kf md(1)] md(2) by (simp add: k_def ns_def)
qed

lemma numbered_old:
  assumes "volumes_numbered w r" and "n \<in> set (node_list w r)" and "u \<in> set (disks (nodes w n))"
  shows "u < next_vref w"
proof -
  have "length (disks (nodes w n)) = num_volumes (ress w r)" "\<forall>i < num_volumes (ress w r). disks (nodes w n) ! i < next_vref w"
    using assms(1,2) by (simp_all add: volumes_numbered_def Let_def)
  then show ?thesis using assms(3) by (auto simp: in_set_conv_nth)
qed

lemma volumes_numbered_extend:
  assumes "volumes_numbered w r" and "node_list w' r = node_list w r"
    and "num_volumes (ress w' r) = Suc (num_volumes (ress w r))" and "next_vref w \<le> next_vref w'"
    and old: "\<forall>u < next_vref w. vols w' u = vols w u"
    and new: "\<And>n. n \<in> set (node_list w r) \<Longrightarrow> \<exists>v. disks (nodes w' n) = disks (nodes w n) @ [v] \<and> v < next_vref w' \<and>
      vol_number (vols w' v) = num_volumes (ress w r) \<and> vol_node (vols w' v) = n"
  shows "volumes_numbered w' r"
  unfolding volumes_numbered_def assms(2,3) Let_def
proof (intro ballI conjI allI impI)
  let ?k = "num_volumes (ress w r)"
  fix n assume n: "n \<in> set (node_list w r)"
  have before: "length (disks (nodes w n)) = ?k" "\<forall>i < ?k. disks (nodes w n) ! i < next_vref w \<and>
      vol_number (vols w (disks (nodes w n) ! i)) = i \<and> vol_node (vols w (disks (nodes w n) ! i)) = n"
    using assms(1) n by (simp_all add: volumes_numbered_def Let_def)
  obtain v where v: "disks (nodes w' n) = disks (nodes w n) @ [v]" "v < next_vref w'" "vol_number (vols w' v) = ?k"
    "vol_node (vols w' v) = n"
    using new [OF n] by blast
  show "length (disks (nodes w' n)) = Suc ?k" using v(1) before by simp
  fix i assume "i < Suc ?k"
  then have "disks (nodes w' n) ! i < next_vref w' \<and> vol_number (vols w' (disks (nodes w' n) ! i)) = i \<and>
      vol_node (vols w' (disks (nodes w' n) ! i)) = n"
    using v before old less_le_trans [OF _ assms(4)] by (cases "i = ?k") (simp_all add: nth_append)
  then show "disks (nodes w' n) ! i < next_vref w'" "vol_number (vols w' (disks (nodes w' n) ! i)) = i"
    "vol_node (vols w' (disks (nodes w' n) ! i)) = n" by simp_all
qed

text \<open>
  C5: \<open>Resource.add_disk\<close> that returns has given every node of the resource one more volume. Its
  number is the one returned, the number of volumes the resource had before, which is also its
  position in the node's list of disks; it has a backing device exactly on the nodes asked for,
  and the earlier volumes are untouched. The agreement of numbers and positions is kept.
\<close>
theorem add_disk_numbers:
  assumes "volumes_numbered w r" and "distinct (node_list w r)"
    and "resource_add_disk E r sz diskful max_peers bbs dopts mopts w = (Inr vnr, w')"
  shows "volumes_numbered w' r \<and> vnr = num_volumes (ress w r) \<and> num_volumes (ress w' r) = Suc vnr \<and>
     node_list w' r = node_list w r \<and>
     (\<forall>n \<in> set (node_list w r). \<exists>v. disks (nodes w' n) = disks (nodes w n) @ [v] \<and> vol_number (vols w' v) = vnr \<and>
        (vol_disk (vols w' v) \<noteq> None \<longleftrightarrow> (case diskful of None \<Rightarrow> True | Some ds \<Rightarrow> n \<in> set ds)) \<and>
        (\<forall>u \<in> set (disks (nodes w n)). vols w' u = vols w u))"
proof -
  define full where "full n = (case diskful of None \<Rightarrow> True | Some ds \<Rightarrow> n \<in> set ds)" for n
  define w0 where "w0 = w\<lparr>ress := (ress w)(r := (ress w r)\<lparr>num_volumes := Suc (num_volumes (ress w r))\<rparr>)\<rparr>"
  have len: "\<forall>n \<in> set (node_list w r). length (disks (nodes w n)) = num_volumes (ress w r)"
    using assms(1) by (simp add: volumes_numbered_def)
  obtain w1 where vnr: "vnr = num_volumes (ress w r)" and a: "adding_disks w0 (node_list w r) vnr full (set (node_list w r)) w1"
    and fr: "frame w' = frame w1" "vols w' = vols w1"
    by (rule resource_add_disk_run [OF assms(3,2) len full_def w0_def])
  have nd0: "nodes w0 = nodes w" "vols w0 = vols w" "next_vref w0 = next_vref w" by (simp_all add: w0_def)
  have res': "ress w' = ress w0" and disks': "disks (nodes w' n) = disks (nodes w1 n)" and nv': "next_vref w' = next_vref w1" for n
    using fr(1) a frame_disks [OF fr(1)] frame_next [OF fr(1)] by (simp_all add: frame_def adding_disks_def)
  have list': "node_list w' r = node_list w r" and nm': "num_volumes (ress w' r) = Suc vnr" by (simp_all add: res' w0_def vnr)
  have old: "\<forall>u < next_vref w. vols w' u = vols w u" using a fr(2) nd0 by (simp add: adding_disks_def)
  have le: "next_vref w \<le> next_vref w'" using a nv' nd0 by (simp add: adding_disks_def)
  have new: "\<exists>v. disks (nodes w' n) = disks (nodes w n) @ [v] \<and> v < next_vref w' \<and> vol_number (vols w' v) = vnr \<and>
        vol_node (vols w' v) = n \<and> (vol_disk (vols w' v) \<noteq> None \<longleftrightarrow> full n)" if "n \<in> set (node_list w r)" for n
    using a that unfolding adding_disks_def disks' nv' fr(2) nd0 by blast
  have "volumes_numbered w' r"
    using volumes_numbered_extend [OF assms(1) list' _ le old] new nm' vnr by blast
  moreover have "\<forall>u \<in> set (disks (nodes w n)). vols w' u = vols w u" if "n \<in> set (node_list w r)" for n
    using numbered_old [OF assms(1) that] old by blast
  ultimately show ?thesis using new vnr list' nm' unfolding full_def [symmetric] by blast
qed

definition pooled_nodes :: world where
  "pooled_nodes = two_nodes\<lparr>hosts := (\<lambda>h. (sample_host h)\<lparr>storage_pool := Some (LvmPool ''/dev/vdb'' False None)\<rparr>)\<rparr>"

lemma pooled_nodes_simps [simp]:
  "node_list pooled_nodes r = [0, 1]" "num_volumes (ress pooled_nodes r) = 0"
  "disks (nodes pooled_nodes n) = []" "next_vref pooled_nodes = 0"
  by (simp_all add: pooled_nodes_def two_nodes_def empty_cluster_def items_init_eq)

lemma diskless_result:
  assumes "storage_pool (hosts w (node_host (nodes w n))) \<noteq> None" and "length (disks (nodes w n)) \<le> k"
  shows "\<exists>v w'. node_add_disk E n k None o' w = (Inr v, w') \<and>
    (\<forall>m. storage_pool (hosts w' m) = storage_pool (hosts w m)) \<and> (\<forall>m. node_host (nodes w' m) = node_host (nodes w m)) \<and>
    (\<forall>m. m \<noteq> n \<longrightarrow> disks (nodes w' m) = disks (nodes w m))"
proof -
  have "bindA (getA (\<lambda>w. storage_pool (hosts w (node_host (nodes w n))))) (\<lambda>sp. whenA (sp = None) X) w = (Inr (), w)" for X
    using assms(1) by auto
  then show ?thesis
    using assms(2) unfolding node_add_disk_def new_volume_def next_minor_def upd_host_def upd_node_def seqA_def
    by (auto simp: bindA_def getA_def modA_def ret_def whenA_def assms)
qed

text \<open>A diskless volume on both nodes.\<close>

theorem add_disk_numbers_witness:
  "\<exists>w'. resource_add_disk ok_env 0 ''10M'' (Some []) None [] disk_defaults md_defaults pooled_nodes = (Inr 0, w') \<and>
     volumes_numbered w' 0 \<and> length (disks (nodes w' 1)) = 1"
proof -
  let ?s = "\<lambda>acc n. bindA (node_add_disk ok_env n 0 None disk_defaults) (\<lambda>_. ret acc)"
  define w0 where "w0 = pooled_nodes\<lparr>ress := (ress pooled_nodes)(0 := (ress pooled_nodes 0)\<lparr>num_volumes := Suc 0\<rparr>)\<rparr>"
  have p: "storage_pool (hosts w0 h) \<noteq> None" "disks (nodes w0 n) = []" for h n
    by (simp_all add: w0_def) (simp add: pooled_nodes_def)
  obtain v1 w1 where 1: "node_add_disk ok_env 0 0 None disk_defaults w0 = (Inr v1, w1)"
    "\<forall>m. storage_pool (hosts w1 m) = storage_pool (hosts w0 m)" "\<forall>m. m \<noteq> 0 \<longrightarrow> disks (nodes w1 m) = disks (nodes w0 m)"
    using diskless_result [of w0 0 0 ok_env disk_defaults] p by auto
  obtain v2 w2 where 2: "node_add_disk ok_env 1 0 None disk_defaults w1 = (Inr v2, w2)"
    using diskless_result [of w1 1 0 ok_env disk_defaults] 1 p by auto
  have nxt: "resource_next_volume 0 pooled_nodes = (Inr 0, w0)"
    by (simp add: resource_next_volume_def upd_res_def w0_def)
  have nl: "node_list w0 0 = [0, 1]" by (simp add: w0_def)
  have run: "resource_add_disk ok_env 0 ''10M'' (Some []) None [] disk_defaults md_defaults pooled_nodes = (Inr 0, w2)"
    unfolding resource_add_disk_def by (simp add: bind_ok nxt nl) (simp add: bindA_def seqA_def ret_def 1(1) 2 [unfolded One_nat_def])
  have "volumes_numbered pooled_nodes 0" "distinct (node_list pooled_nodes 0)" by (simp_all add: volumes_numbered_def)
  from add_disk_numbers [OF this run] run show ?thesis by fastforce
qed

end
