(* ===== verification/Command_Output.thy ===== *)
theory Command_Output
  imports World
begin

text \<open>
  Reading the output of remote commands. The platform helpers use \<open>re.match\<close> and
  \<open>re.search\<close> with fixed patterns; they are written out here as matching functions. The
  patterns are deterministic, so greedy matching needs no backtracking.
\<close>

section \<open>Patterns\<close>

definition many1 :: "(char \<Rightarrow> bool) \<Rightarrow> string \<Rightarrow> (string \<times> string) option" where
  "many1 P s =
     (case takeWhile P s of [] \<Rightarrow> None | x # xs \<Rightarrow> Some (x # xs, dropWhile P s))"

definition lit :: "string \<Rightarrow> string \<Rightarrow> string option" where
  "lit l s = (if startswith s l then Some (drop (length l) s) else None)"

definition is_word :: "char \<Rightarrow> bool" where
  "is_word c \<longleftrightarrow> is_digit c \<or> c = CHR ''_'' \<or>
     (let n = (of_char c :: nat) in 65 \<le> n \<and> n \<le> 90 \<or> 97 \<le> n \<and> n \<le> 122)"

definition is_hex :: "char \<Rightarrow> bool" where
  "is_hex c \<longleftrightarrow> is_digit c \<or>
     (let n = (of_char c :: nat) in 65 \<le> n \<and> n \<le> 70 \<or> 97 \<le> n \<and> n \<le> 102)"

text \<open>\<open>^\s*\d+:\s+(\w+)\s+inet\s+([\d\.]+)/(\d+)\<close>: device name, address and prefix length.\<close>

definition match_addr_line :: "string \<Rightarrow> (string \<times> string \<times> string) option" where
  "match_addr_line s =
     Option.bind (many1 is_digit (dropWhile is_space s)) (\<lambda>(_, a).
     Option.bind (lit '':'' a) (\<lambda>b.
     Option.bind (many1 is_space b) (\<lambda>(_, c).
     Option.bind (many1 is_word c) (\<lambda>(devname, d).
     Option.bind (many1 is_space d) (\<lambda>(_, e).
     Option.bind (lit ''inet'' e) (\<lambda>f.
     Option.bind (many1 is_space f) (\<lambda>(_, g).
     Option.bind (many1 (\<lambda>c. is_digit c \<or> c = CHR ''.'') g) (\<lambda>(address, h).
     Option.bind (lit ''/'' h) (\<lambda>i.
     Option.bind (many1 is_digit i) (\<lambda>(prefix, _).
       Some (devname, address, prefix)))))))))))"

text \<open>\<open>version: ([^ -]+).*\<close>, \<open>(?:srcversion|GIT-hash): ([0-9A-Fa-f]+).*\<close> and
  \<open>([0-9]+)\.([0-9]+)\.([0-9]+).*\<close>\<close>

definition match_version_line :: "string \<Rightarrow> string option" where
  "match_version_line s =
     Option.bind (lit ''version: '' s) (\<lambda>a.
     map_option fst (many1 (\<lambda>c. c \<noteq> CHR '' '' \<and> c \<noteq> CHR ''-'') a))"

definition match_hash_line :: "string \<Rightarrow> string option" where
  "match_hash_line s =
     Option.bind (case lit ''srcversion'' s of Some a \<Rightarrow> Some a | None \<Rightarrow> lit ''GIT-hash'' s) (\<lambda>a.
     Option.bind (lit '': '' a) (\<lambda>b. map_option fst (many1 is_hex b)))"

definition match_version :: "string \<Rightarrow> version option" where
  "match_version s =
     Option.bind (many1 is_digit s) (\<lambda>(a, r1).
     Option.bind (lit ''.'' r1) (\<lambda>r2.
     Option.bind (many1 is_digit r2) (\<lambda>(b, r3).
     Option.bind (lit ''.'' r3) (\<lambda>r4.
     Option.bind (many1 is_digit r4) (\<lambda>(c, _).
       Some (nat_of_digits a, nat_of_digits b, nat_of_digits c))))))"

text \<open>\<open>m.group(k)\<close> of a failed match.\<close>

definition group :: "'a option \<Rightarrow> exn + 'a" where
  "group m = (case m of None \<Rightarrow> Inl AttributeError | Some x \<Rightarrow> Inr x)"


section \<open>Parsing what DRBD prints\<close>

lemma lit_append [simp]: "lit p (p @ s) = Some s"
  by (simp add: lit_def)

lemma many1_digits:
  assumes "rest = [] \<or> \<not> is_digit (hd rest)"
  shows "many1 is_digit (str_nat n @ rest) = Some (str_nat n, rest)"
proof -
  have d: "\<And>c. c \<in> set (str_nat n) \<Longrightarrow> is_digit c" using str_nat_digits [of n] by (simp add: list_all_iff)
  have "takeWhile is_digit rest = []" "dropWhile is_digit rest = rest"
    using assms by (cases rest; simp)+
  with d have "takeWhile is_digit (str_nat n @ rest) = str_nat n" "dropWhile is_digit (str_nat n @ rest) = rest"
    by (simp_all add: takeWhile_append2 dropWhile_append2)
  then show ?thesis unfolding many1_def by (cases "str_nat n") auto
qed

text \<open>
  The version tuple read back from a version string \<open>a.b.c\<close> (with anything after it that
  does not continue the last number) is \<open>(a, b, c)\<close>.
\<close>
theorem match_version_roundtrip:
  assumes "rest = [] \<or> \<not> is_digit (hd rest)"
  shows "match_version (str_nat a @ ''.'' @ str_nat b @ ''.'' @ str_nat c @ rest) = Some (a, b, c)"
proof -
  have dot: "\<not> is_digit (CHR ''.'')" by (simp add: is_digit_def)
  have l: "lit ''.'' (CHR ''.'' # s) = Some s" for s using lit_append [of "''.''" s] by simp
  show ?thesis
    using many1_digits [of "''.'' @ str_nat b @ ''.'' @ str_nat c @ rest" a]
      many1_digits [of "''.'' @ str_nat c @ rest" b] many1_digits [OF assms, of c]
    by (simp add: match_version_def dot l)
qed

theorem match_version_roundtrip_witness:
  "match_version ''9.2.4-rc1'' = Some (9, 2, 4)"
proof -
  have "match_version (str_nat 9 @ ''.'' @ str_nat 2 @ ''.'' @ str_nat 4 @ ''-rc1'') = Some (9, 2, 4)"
    by (rule match_version_roundtrip) (simp add: is_digit_def)
  moreover have "str_nat 9 = ''9''" "str_nat 2 = ''2''" "str_nat 4 = ''4''" by code_simp+
  ultimately show ?thesis by simp
qed

end
