(* ===== verification/Windows_Platform.thy ===== *)
theory Windows_Platform
  imports Cluster_Ops Command_Output
begin

text \<open>
  The Windows platform helper, \<open>src/python/windowsplatformhelper.py\<close>: the methods that a
  \<open>Host\<close>, \<open>Node\<close> or \<open>Volume\<close> calls when the host runs WinDRBD. The default representation of
  the helper object, which some of its messages contain, is a field of the environment.
\<close>

section \<open>Hosts\<close>

text \<open>An attribute that was never assigned reads as the empty string in a host record; both
  that and a version that does not match the pattern raise \<open>AttributeError\<close>.\<close>

definition windows_version_line :: "href \<Rightarrow> string \<Rightarrow> unit prog" where
  "windows_version_line h l =
     (let a = split_on (CHR ''='') l in
      bindA (liftA (list_item a 0)) (\<lambda>key.
      seqA (whenA (key = ''DRBD_KERNEL_VERSION'')
              (bindA (liftA (list_item a 1)) (\<lambda>v. upd_host h (\<lambda>x. x\<lparr>drbd_version := v\<rparr>))))
           (whenA (key = ''WINDRBD_VERSION'')
              (bindA (liftA (list_item a 1)) (\<lambda>v.
               seqA (upd_host h (\<lambda>x. x\<lparr>drbd_git_hash := v\<rparr>))
                    (emit (Print (''WinDRBD version is '' @ v))))))))"

definition windows_read_drbd_version :: "environment \<Rightarrow> href \<Rightarrow> unit prog" where
  "windows_read_drbd_version E h =
     bindA (host_stdout E h [''drbdadm'', ''--version''] run_defaults) (\<lambda>out.
     seqA (forA (splitlines out) (windows_version_line h))
    (bindA (getA (\<lambda>w. match_version (drbd_version (hosts w h)))) (\<lambda>m.
     bindA (liftA (group m)) (\<lambda>tuple.
       upd_host h (\<lambda>x. x\<lparr>drbd_version_tuple := tuple\<rparr>)))))"

definition windows_native_filename :: "environment \<Rightarrow> href \<Rightarrow> string \<Rightarrow> string prog" where
  "windows_native_filename E h filename =
     bindA (host_stdout E h [''cygpath'', ''-w'', filename] run_defaults) (\<lambda>s. ret (strip s))"

definition windows_init_host ::
  "environment \<Rightarrow> href \<Rightarrow> bool \<Rightarrow> string option \<Rightarrow> unit prog" where
  "windows_init_host E h multi_paths ns =
     (if multi_paths then raise (RuntimeError ''multi_paths not supported on Windows (is True)'')
      else if truthy_str ns then raise (RuntimeError (''netns not supported on Windows (is '' @ the ns @ '')''))
      else
        seqA (upd_host h (\<lambda>x. x\<lparr>storage_backend := ''storage-spaces'', backing_device := Some ''scratch'',
                drbd_config_dir := ''/cygdrive/c/WinDRBD/var/lib/drbd-test'', os_id := ''Windows''\<rparr>))
       (bindA (host_stdout E h [''uname''] run_defaults) (\<lambda>u.
        bindA (liftA (list_item (split_on (CHR ''_'') u) 1)) (\<lambda>v.
        seqA (upd_host h (\<lambda>x. x\<lparr>os_version_id := v\<rparr>))
       (bindA (host_stdout E h [''powershell'', ''-command'',
                 ''(Get-NetIPConfiguration | Where-Object { $_.IPv4DefaultGateway } | Select-Object -First 1).IPv4Address.IPAddress'']
                 run_defaults) (\<lambda>a.
          upd_host h (\<lambda>x. x\<lparr>addr := strip a, addrs := [strip a]\<rparr>)))))))"

definition windows_stop_dmesg :: "environment \<Rightarrow> href \<Rightarrow> unit prog" where
  "windows_stop_dmesg E h =
     bindA (getA (\<lambda>w. (dmesg_process (hosts w h), dmesg_pid (hosts w h)))) (\<lambda>(running, pid).
       whenA running (host_cmd E h [''bash'', ''-c'', ''kill '' @ strip pid]))"

section \<open>Volumes\<close>

text \<open>A triple-quoted string: every line indented by \<open>k\<close>, the closing quotes by four less.\<close>

definition text_lines :: "nat \<Rightarrow> string list \<Rightarrow> string" where
  "text_lines k ls =
     NL @ concat (map (\<lambda>l. replicate k (CHR '' '') @ l @ NL) ls) @ replicate (k - 4) (CHR '' '')"

definition windows_disk_native :: "volume \<Rightarrow> string option" where
  "windows_disk_native v =
     map_option (\<lambda>d. [CHR 0x5C, CHR 0x5C, CHR ''.'', CHR 0x5C] @ ''Volume{'' @ volume_path d @ ''}'') (vol_disk v)"

definition powershell_get_disk :: "nat \<Rightarrow> string" where
  "powershell_get_disk minor = text_lines 12
     [''$j = 0'',
      ''do {'',
      ''    $j = $j+1'',
      ''    $mydisk = Get-Disk | where { $_.Path -like '' @ [DQUOTE] @ ''*#WinDRBD{0}#*'' @ [DQUOTE] @
        '' -f '' @ str_nat minor @ '' }'',
      ''    if ( $mydisk ) { break }'',
      ''    sleep 1'',
      ''} while ( $j -lt 30 )'',
      ''if ( ! $mydisk ) {'',
      ''    echo '' @ [DQUOTE] @ ''Disk did not come up within 30 seconds.'' @ [DQUOTE],
      ''    exit 42'',
      ''}'']"

definition run_powershell_on_disk :: "environment \<Rightarrow> vref \<Rightarrow> string \<Rightarrow> string prog" where
  "run_powershell_on_disk E v command =
     bindA (getA (\<lambda>w. (vol_node (vols w v), vol_minor (vols w v)))) (\<lambda>(n, minor).
     bindA (node_run E n True [''powershell'', ''-command'', powershell_get_disk minor @ command]
              (with_stdout\<lparr>ro_timeout := Some 120\<rparr>)) (\<lambda>r.
       case r of None \<Rightarrow> raise TypeError | Some s \<Rightarrow> ret s))"

definition silently :: string where
  "silently = ''$ProgressPreference = '' @ [DQUOTE] @ ''SilentlyContinue'' @ [DQUOTE]"

text \<open>The device file of a disk number: the range check and the letter.\<close>

definition drive_letter :: "int \<Rightarrow> exn + string" where
  "drive_letter k =
     (if 26 < k \<or> k < 0 then Inl (RuntimeError (''Disknumber '' @ str_int k @ '' out of range''))
      else if k = 0 then Inl (RuntimeError ''Refusing to access system partition'')
      else Inr (''/dev/sd'' @ [char_of (nat k + 97)]))"

definition windows_device :: "environment \<Rightarrow> vref \<Rightarrow> string prog" where
  "windows_device E v =
     bindA (run_powershell_on_disk E v (text_lines 12 [silently, ''$mydisk.Number''])) (\<lambda>out.
     bindA (liftA (py_int (strip out))) (\<lambda>disk_number. liftA (drive_letter disk_number)))"

definition windows_set_disk_online :: "environment \<Rightarrow> vref \<Rightarrow> unit prog" where
  "windows_set_disk_online E v =
     bindA (getA (\<lambda>w. disk_is_online (vols w v))) (\<lambda>online.
     seqA (whenA (\<not> online) (ignore (run_powershell_on_disk E v (text_lines 16
             [silently, ''$mydisk | set-disk -IsOffline $false'',
              silently, ''$mydisk | set-disk -IsReadonly $false'']))))
          (upd_vol v (\<lambda>x. x\<lparr>disk_is_online := True\<rparr>)))"

definition windows_set_disk_offline :: "environment \<Rightarrow> vref \<Rightarrow> unit prog" where
  "windows_set_disk_offline E v =
     seqA (ignore (run_powershell_on_disk E v (text_lines 12 [silently, ''$mydisk | set-disk -IsOffline $true''])))
          (upd_vol v (\<lambda>x. x\<lparr>disk_is_online := False\<rparr>))"

definition windows_mkfs :: "environment \<Rightarrow> vref \<Rightarrow> unit prog" where
  "windows_mkfs E v = ignore (run_powershell_on_disk E v (text_lines 12 [silently,
     ''$mydisk | Initialize-Disk -passthru -PartitionStyle MBR |  New-Partition -UseMaximumSize | format-volume'']))"

text \<open>The argument of \<open>AccessPath\<close>: the native name of the mount point.\<close>

definition access_path :: "environment \<Rightarrow> vref \<Rightarrow> string \<Rightarrow> string \<Rightarrow> unit prog" where
  "access_path E v command where_to =
     bindA (getA (\<lambda>w. node_host (nodes w (vol_node (vols w v))))) (\<lambda>h.
     bindA (windows_native_filename E h where_to) (\<lambda>p.
       ignore (run_powershell_on_disk E v (text_lines 12 [silently,
         ''$mydisk | Get-Partition | '' @ command @ '' -AccessPath '' @ [DQUOTE] @ p @ [DQUOTE]]))))"

definition windows_mount :: "environment \<Rightarrow> vref \<Rightarrow> string \<Rightarrow> unit prog" where
  "windows_mount E v where_to = access_path E v ''Add-PartitionAccessPath'' where_to"

definition windows_umount :: "environment \<Rightarrow> vref \<Rightarrow> string \<Rightarrow> bool \<Rightarrow> unit prog" where
  "windows_umount E v where_to set_offline =
     seqA (access_path E v ''Remove-PartitionAccessPath'' where_to)
          (whenA set_offline (windows_set_disk_offline E v))"

definition windows_wipe_ntfs :: "environment \<Rightarrow> vref \<Rightarrow> unit prog" where
  "windows_wipe_ntfs E v =
     bindA (windows_device E v) (\<lambda>d.
     bindA (getA (\<lambda>w. vol_node (vols w v))) (\<lambda>n.
     seqA (node_cmd E n [''dd'', ''if=/dev/zero'', ''of='' @ d, ''count=128''])
    (seqA (windows_set_disk_offline E v)
          (windows_set_disk_online E v))))"

section \<open>Nodes\<close>

definition windows_after_becoming_primary :: "environment \<Rightarrow> nref \<Rightarrow> unit prog" where
  "windows_after_becoming_primary E n =
     bindA (getA (\<lambda>w. disks (nodes w n))) (\<lambda>vs. forA vs (windows_set_disk_online E))"

text \<open>
  The loop around the promotion sleeps before it tries again, but the module does not import
  \<open>time\<close>: the first failure leaves the loop with a \<open>NameError\<close>. The same holds of the demotion.
\<close>

definition windows_prepare_auto_promote :: "environment \<Rightarrow> nref \<Rightarrow> unit prog" where
  "windows_prepare_auto_promote E n =
     seqA (log ''Promoting WinDRBD resource (there is no auto-promote on WinDRBD) ...'')
          (tryA (node_primary E (windows_after_becoming_primary E) n False False)
             (\<lambda>_. seqA (log ''Promote failed, retrying in 1 second ...'') (raise NameError)))"

definition windows_cleanup_auto_demote :: "environment \<Rightarrow> nref \<Rightarrow> unit prog" where
  "windows_cleanup_auto_demote E n =
     seqA (log ''Manually demoting WinDRBD resource (there is no auto-promote on WinDRBD) ...'')
          (tryA (node_secondary E n False False)
             (\<lambda>_. seqA (log ''Manual demote failed, retrying in 1 second ...'') (raise NameError)))"

text \<open>Both methods read the port of the helper, which has none.\<close>

definition windows_block_path :: "environment \<Rightarrow> nref \<Rightarrow> nref \<Rightarrow> nat \<Rightarrow> seconds option \<Rightarrow> unit prog" where
  "windows_block_path E n other net_number for_seconds =
     bindA (getA (\<lambda>w. ''BLOCKING path #'' @ str_nat net_number @ '' from '' @ helper_repr E @
              '' to '' @ res_name (res_of w other) @ '':'' @ node_name (nodes w other))) (\<lambda>msg.
     seqA (log msg)
          (if for_seconds \<noteq> None then raise (RuntimeError ''for_seconds not implemented'')
           else raise AttributeError))"

definition windows_unblock_path :: "environment \<Rightarrow> nref \<Rightarrow> nref \<Rightarrow> nat \<Rightarrow> unit prog" where
  "windows_unblock_path E n other net_number =
     bindA (getA (\<lambda>w. ''Unblocking path #'' @ str_nat net_number @ '' from '' @ helper_repr E @
              '' to '' @ res_name (res_of w other) @ '':'' @ node_name (nodes w other))) (\<lambda>msg.
     seqA (log msg) (raise AttributeError))"

section \<open>Device files\<close>

text \<open>
  C23: The device file of a WinDRBD disk. Disk 0 (the system disk), negative numbers and numbers
  above 26 are refused; every other number gives a device file, different for different numbers,
  and its last character is a lower-case letter except for number 26, which the range check
  should refuse too.
\<close>
theorem drive_letter_range:
  "((\<exists>s. drive_letter k = Inr s) \<longleftrightarrow> 1 \<le> k \<and> k \<le> 26) \<and>
   (drive_letter k = Inr s \<longrightarrow> (drive_letter j = Inr s \<longleftrightarrow> j = k) \<and>
      (k \<noteq> 26 \<longleftrightarrow> (\<exists>c \<in> set ''bcdefghijklmnopqrstuvwxyz''. s = ''/dev/sd'' @ [c])))"
proof -
  have code: "(of_char c :: nat) \<in> {98..122} \<longleftrightarrow> c \<in> set ''bcdefghijklmnopqrstuvwxyz''" for c
  proof
    have all: "list_all (\<lambda>n. (char_of (n :: nat) :: char) \<in> set ''bcdefghijklmnopqrstuvwxyz'') [98..<123]"
      by code_simp
    assume "(of_char c :: nat) \<in> {98..122}"
    then have "(of_char c :: nat) \<in> set [98..<123]" unfolding set_upt by simp
    with all have "(char_of (of_char c :: nat) :: char) \<in> set ''bcdefghijklmnopqrstuvwxyz''" unfolding list_all_iff by blast
    then show "c \<in> set ''bcdefghijklmnopqrstuvwxyz''" by simp
  qed auto
  have inj: "char_of (m + 97) = (char_of (n + 97) :: char) \<longleftrightarrow> m = n" if "m \<le> 26" "n \<le> 26" for m n :: nat
  proof
    assume "char_of (m + 97) = (char_of (n + 97) :: char)"
    then have "(of_char (char_of (m + 97) :: char) :: nat) = of_char (char_of (n + 97) :: char)" by simp
    with that show "m = n" by simp
  qed simp
  show ?thesis
  proof (intro conjI impI)
    show "(\<exists>s. drive_letter k = Inr s) \<longleftrightarrow> 1 \<le> k \<and> k \<le> 26" by (auto simp: drive_letter_def)
  next
    assume d: "drive_letter k = Inr s"
    then have k: "1 \<le> k" "k \<le> 26" "s = ''/dev/sd'' @ [char_of (nat k + 97)]"
      by (auto simp: drive_letter_def split: if_splits)
    show "drive_letter j = Inr s \<longleftrightarrow> j = k"
      using k inj [of "nat j" "nat k"] d by (auto simp: drive_letter_def split: if_splits)
    have "k \<noteq> 26 \<longleftrightarrow> (of_char (char_of (nat k + 97) :: char) :: nat) \<in> {98..122}"
      using k by auto
    then show "k \<noteq> 26 \<longleftrightarrow> (\<exists>c \<in> set ''bcdefghijklmnopqrstuvwxyz''. s = ''/dev/sd'' @ [c])"
      using code [of "char_of (nat k + 97)"] k(3) by auto
  qed
qed

theorem drive_letter_range_witness:
  "drive_letter 26 = Inr ''/dev/sd{'' \<and> (drive_letter 2 = Inr ''/dev/sd{'' \<longleftrightarrow> (2 :: int) = 26)"
proof -
  have d: "drive_letter 26 = Inr ''/dev/sd{''" by code_simp
  with drive_letter_range [of 26 "''/dev/sd{''" 2] show ?thesis by blast
qed

end
