(* ===== verification/Platform.thy ===== *)
theory Platform
  imports Windows_Platform "HOL-Library.Multiset"
begin

text \<open>
  Setting up a host and the Linux platform helper: \<open>src/python/linuxplatformhelper.py\<close>, the
  parts of \<open>Host\<close> in \<open>src/python/drbdtest.py\<close> that depend on the platform, and the packet
  filter commands of \<open>Node\<close>.
\<close>

section \<open>Helper scripts\<close>

definition install_helper :: "environment \<Rightarrow> href \<Rightarrow> string \<Rightarrow> string \<Rightarrow> unit prog" where
  "install_helper E h helper target =
     bindA (liftA (read_file E (''target/'' @ helper))) (\<lambda>text.
       ignore (host_run E h [''bash'', ''-c'', ''cat > '' @ target @ '' && chmod +x '' @ target]
         (with_stdin text)))"

definition install_file :: "environment \<Rightarrow> href \<Rightarrow> string \<Rightarrow> string \<Rightarrow> unit prog" where
  "install_file E h file_path target =
     bindA (liftA (read_file E file_path)) (\<lambda>text.
       ignore (host_run E h [''bash'', ''-c'', ''cat > '' @ target] (with_stdin text)))"

definition run_helper ::
  "environment \<Rightarrow> href \<Rightarrow> string \<Rightarrow> string list \<Rightarrow> nat option \<Rightarrow> bool \<Rightarrow> string option prog" where
  "run_helper E h helper args timeout return_stdout =
     (let target = ''/tmp/'' @ helper in
      seqA (install_helper E h helper target)
        (host_run E h (target # args)
          (run_defaults\<lparr>ro_timeout := timeout, ro_return_stdout := return_stdout\<rparr>)))"

section \<open>The DRBD module\<close>

text \<open>\<open>LinuxPlatformHelper.read_drbd_version\<close> and \<open>Host.read_drbd_version\<close>\<close>

definition read_drbd_version :: "environment \<Rightarrow> href \<Rightarrow> unit prog" where
  "read_drbd_version E h =
     seqA (host_cmd E h [''bash'', ''-c'', ''cat /proc/drbd > /dev/kmsg || modprobe drbd''])
    (bindA (host_stdout E h [''cat'', ''/proc/drbd''] run_defaults) (\<lambda>out.
     let ls = splitlines out in
     bindA (liftA (list_item ls 0)) (\<lambda>version_line.
     bindA (liftA (list_item ls 1)) (\<lambda>git_hash_line.
     bindA (liftA (group (match_version_line version_line))) (\<lambda>version.
     seqA (upd_host h (\<lambda>x. x\<lparr>drbd_version := version\<rparr>))
    (bindA (liftA (group (match_hash_line git_hash_line))) (\<lambda>hash.
     seqA (upd_host h (\<lambda>x. x\<lparr>drbd_git_hash := map lower_char hash\<rparr>))
    (bindA (liftA (group (match_version version))) (\<lambda>tuple.
     upd_host h (\<lambda>x. x\<lparr>drbd_version_tuple := tuple\<rparr>))))))))))"

definition host_read_drbd_version :: "environment \<Rightarrow> href \<Rightarrow> unit prog" where
  "host_read_drbd_version E h = bindA (getA (\<lambda>w. platform_helper (hosts w h))) (\<lambda>ph.
     case ph of
       LinuxPlatform \<Rightarrow> read_drbd_version E h
     | WindowsPlatform \<Rightarrow> windows_read_drbd_version E h)"

text \<open>\<open>LinuxPlatformHelper.rmmod\<close> and \<open>Host.rmmod\<close>: the transports may not be loaded.\<close>

definition linux_rmmod :: "environment \<Rightarrow> href \<Rightarrow> unit prog" where
  "linux_rmmod E h =
     seqA (bindA (getA (\<lambda>w. is_v9 (hosts w h))) (\<lambda>v9. whenA v9
             (forA [''drbd_transport_tcp'', ''drbd_transport_lb-tcp'', ''drbd_transport_rdma'']
                (\<lambda>m. tryA (host_cmd E h [''rmmod'', m]) (\<lambda>_. ret ())))))
          (tryA (host_cmd E h [''rmmod'', ''drbd''])
             (\<lambda>e. case e of
                CalledProcessError k c \<Rightarrow>
                  seqA (ignore (host_run E h [''cat'', ''/sys/kernel/debug/drbd/reference_counts'']
                          (run_defaults\<lparr>ro_catch := True\<rparr>)))
                       (raise (CalledProcessError k c))
              | _ \<Rightarrow> raise e))"

definition host_rmmod :: "environment \<Rightarrow> href \<Rightarrow> unit prog" where
  "host_rmmod E h = bindA (getA (\<lambda>w. (no_rmmod w, platform_helper (hosts w h)))) (\<lambda>(skip, ph).
     whenA (\<not> skip) (case ph of LinuxPlatform \<Rightarrow> linux_rmmod E h | WindowsPlatform \<Rightarrow> ret ()))"

definition install_drbd :: "environment \<Rightarrow> href \<Rightarrow> string \<Rightarrow> unit prog" where
  "install_drbd E h version =
     seqA (host_rmmod E h)
    (seqA (ignore (run_helper E h ''install-drbd'' [''/opt/package-download'', version] (Some 90) False))
    (seqA (host_read_drbd_version E h)
          (bindA (getA cl_resources) (\<lambda>rs. forA rs touch_config))))"

definition disable_faults :: "environment \<Rightarrow> href \<Rightarrow> unit prog" where
  "disable_faults E h = bindA (getA (\<lambda>w. platform_helper (hosts w h))) (\<lambda>ph.
     case ph of
       LinuxPlatform \<Rightarrow> ignore (run_helper E h ''disable-faults'' [] None False)
     | WindowsPlatform \<Rightarrow> ret ())"

section \<open>Initialising a host\<close>

text \<open>\<open>get_default_addr\<close>: the word after the only \<open>src\<close> in the default route.\<close>

definition src_addrs :: "string \<Rightarrow> string list" where
  "src_addrs route_out =
     (let ws = split_on (CHR '' '') (strip route_out)
      in map snd (filter (\<lambda>(k, v). k = ''src'') (zip ws (tl ws))))"

definition get_default_addr :: "environment \<Rightarrow> href \<Rightarrow> string prog" where
  "get_default_addr E h =
     bindA (tryA (host_stdout E h [''ip'', ''-4'', ''route'', ''get'', ''1''] run_defaults)
        (\<lambda>e. case e of
           CalledProcessError k c \<Rightarrow>
             bindA (getA (\<lambda>w. host_name (hosts w h))) (\<lambda>hn.
               seqA (log (''Could not get default route for host '' @ hn)) (raise e))
         | _ \<Rightarrow> raise e)) (\<lambda>route_out.
     case src_addrs route_out of
       [a] \<Rightarrow> ret a
     | _ \<Rightarrow> raise (RuntimeError (''Default route does not contain src address: '' @ route_out)))"

definition init_iptables :: "string list" where
  "init_iptables = [''bash'', ''--norc'', ''-xec'', join NL
     [''iptables -F drbd-test-input || iptables -N drbd-test-input'',
      ''iptables -F drbd-test-output || iptables -N drbd-test-output'',
      ''iptables -I INPUT -j drbd-test-input'',
      ''iptables -I OUTPUT -j drbd-test-output'']]"

definition cleanup_iptables :: "string list" where
  "cleanup_iptables = [''bash'', ''--norc'', ''-xec'', join NL
     [''iptables -D INPUT -j drbd-test-input'',
      ''iptables -D OUTPUT -j drbd-test-output'',
      ''iptables -F drbd-test-input && iptables -X drbd-test-input || true'',
      ''iptables -F drbd-test-output && iptables -X drbd-test-output || true'']]"

definition ensure_netdev :: "environment \<Rightarrow> href \<Rightarrow> string option \<Rightarrow> unit prog" where
  "ensure_netdev E h ns =
     (let opts = run_defaults\<lparr>ro_ignore_netns := True\<rparr>;
          base = (if truthy_str ns then [''ip'', ''-netns'', the ns] else [''ip'']) in
      bindA (getA (\<lambda>w. netdevs (hosts w h))) (\<lambda>nds.
      forA nds (\<lambda>(devname, info).
        seqA (whenA (truthy_str ns)
                (ignore (host_run E h [''ip'', ''link'', ''set'', ''dev'', devname, ''netns'', the ns] opts)))
       (seqA (tryA (ignore (host_run E h (base @ [''addr'', ''add'',
                      nd_address info @ ''/'' @ nd_prefix info, ''dev'', devname]) opts))
                (\<lambda>e. case e of CalledProcessError _ _ \<Rightarrow> ret () | _ \<Rightarrow> raise e))
             (ignore (host_run E h (base @ [''link'', ''set'', ''dev'', devname, ''up'']) opts))))))"

text \<open>One line of \<open>ip -oneline addr show\<close>.\<close>

definition note_address :: "href \<Rightarrow> bool \<Rightarrow> string \<Rightarrow> unit prog" where
  "note_address h multi_paths line =
     (case match_addr_line line of
        None \<Rightarrow> ret ()
      | Some (devname, a, p) \<Rightarrow>
          bindA (getA (\<lambda>w. addr (hosts w h))) (\<lambda>own.
            if a = ''127.0.0.1'' \<or> a = own then ret ()
            else seqA (whenA multi_paths (upd_host h (\<lambda>x. x\<lparr>addrs := addrs x @ [a]\<rparr>)))
                  (upd_host h (\<lambda>x. x\<lparr>netdevs :=
                     dict_put (=) (netdevs x) devname \<lparr>nd_address = a, nd_prefix = p\<rparr>\<rparr>))))"

definition two_lines :: "string \<Rightarrow> exn + string \<times> string" where
  "two_lines s = (case splitlines s of [a, b] \<Rightarrow> Inr (a, b) | _ \<Rightarrow> Inl ValueError)"

definition linux_init_host ::
  "environment \<Rightarrow> href \<Rightarrow> string \<Rightarrow> string option \<Rightarrow> bool \<Rightarrow> string option \<Rightarrow> unit prog" where
  "linux_init_host E h backend backing multi_paths ns =
     seqA (upd_host h (\<lambda>x. x\<lparr>storage_backend := backend, backing_device := backing,
             drbd_config_dir := ''/var/lib/drbd-test''\<rparr>))
    (bindA (host_stdout E h [''bash'', ''-c'',
              ''. /etc/os-release ; echo $ID ; echo $VERSION_ID''] run_defaults) (\<lambda>os.
     bindA (liftA (two_lines os)) (\<lambda>(i, v).
     seqA (upd_host h (\<lambda>x. x\<lparr>os_id := i, os_version_id := v\<rparr>))
    (bindA (get_default_addr E h) (\<lambda>a.
     seqA (upd_host h (\<lambda>x. x\<lparr>addr := a, addrs := [a]\<rparr>))
    (bindA (host_stdout E h [''ip'', ''-oneline'', ''addr'', ''show''] run_defaults) (\<lambda>addresses.
     seqA (log (''got all addresses %s '' @ addresses))
    (seqA (forA (splitlines addresses) (note_address h multi_paths))
    (bindA (getA (\<lambda>w. (netdevs (hosts w h), host_name (hosts w h)))) (\<lambda>(nds, hn).
     seqA (whenA (multi_paths \<and> nds = []) (raise (RuntimeError (hn @ '' has no additional address''))))
    (seqA (whenA (truthy_str ns)
             (if nds = []
              then raise (RuntimeError ''%s is missing additional netdevs to namespace'')
              else
                seqA (upd_host h (\<lambda>x. x\<lparr>addrs := []\<rparr>))
               (seqA (host_cmd E h [''ip'', ''netns'', ''add'', the ns])
               (seqA (upd_host h (\<lambda>x. x\<lparr>addrs := map (\<lambda>(_, i). nd_address i) (netdevs x)\<rparr>))
               (seqA (bindA (getA (\<lambda>w. addrs (hosts w h))) (\<lambda>as. whenA (as = [])
                        (raise (RuntimeError ''%s has namespaced address''))))
               (seqA (host_run_quiet E h init_iptables run_defaults)
               (seqA (upd_host h (\<lambda>x. x\<lparr>netns := ns\<rparr>))
                     (ensure_netdev E h ns))))))))
          (host_run_quiet E h init_iptables run_defaults))))))))))))"

text \<open>\<open>Host.get_platform_helper\<close>\<close>

definition get_platform_helper :: "environment \<Rightarrow> href \<Rightarrow> platform prog" where
  "get_platform_helper E h =
     bindA (getA (\<lambda>w. host_name (hosts w h))) (\<lambda>hn.
     bindA (ssh_exec E \<lparr>sc_host = hn, sc_cmd = ''uname'', sc_stdin = None, sc_env = [],
              sc_timeout = Some 30\<rparr>) (\<lambda>(out, _, _).
     let uname = map upper_char (strip out) in
     if uname = ''LINUX'' then ret LinuxPlatform
     else if startswith uname ''CYGWIN'' then ret WindowsPlatform
     else raise (RuntimeError (''Unsupported platform: '' @ uname))))"

text \<open>
  \<open>Host.__init__\<close>, after the SSH connection is up: the new object, what it finds out about the host, the
  capture of the kernel log (theory \<open>Test_Start\<close> has \<open>start_dmesg\<close>, which is an argument here), and the
  global configuration file.
\<close>

definition new_host :: "string \<Rightarrow> string \<Rightarrow> nat \<Rightarrow> host" where
  "new_host name vg first_port =
     \<lparr>host_name = name, host_port = first_port, netns = None, fio_count = 0, minors = 0,
      storage_pool = None, volume_group = vg, has_other_version = False,
      platform_helper = LinuxPlatform, drbd_version = [], drbd_git_hash = [],
      drbd_version_tuple = (0, 0, 0), hostname = [], netdevs = [], storage_backend = [],
      backing_device = None, drbd_config_dir = [], os_id = [], os_version_id = [],
      addr = [], addrs = [], uuid_options = None, dmesg_process = False, dmesg_pid = []\<rparr>"

definition host_probe ::
  "environment \<Rightarrow> href \<Rightarrow> string \<Rightarrow> string \<Rightarrow> string option \<Rightarrow> bool \<Rightarrow> string option \<Rightarrow> unit prog" where
  "host_probe E h name backend backing multi_paths ns =
     bindA (get_platform_helper E h) (\<lambda>ph.
     seqA (upd_host h (\<lambda>x. x\<lparr>platform_helper := ph\<rparr>))
    (seqA (host_read_drbd_version E h)
    (bindA (getA (\<lambda>w. if is_v9 (hosts w h) then [''hostname'', ''-f''] else [''hostname''])) (\<lambda>cmd.
     bindA (host_stdout E h cmd run_defaults) (\<lambda>hn.
     seqA (upd_host h (\<lambda>x. x\<lparr>hostname := hn, netdevs := []\<rparr>))
    (seqA (case ph of
             LinuxPlatform \<Rightarrow> linux_init_host E h backend backing multi_paths ns
           | WindowsPlatform \<Rightarrow> windows_init_host E h multi_paths ns)
    (bindA (getA (\<lambda>w. hosts w h)) (\<lambda>x.
     log (''host '' @ name @ '' is running '' @ [QUOTE] @ os_id x @ [QUOTE] @ '' version '' @
       [QUOTE] @ os_version_id x @ [QUOTE])))))))))"

definition host_global_config :: "environment \<Rightarrow> href \<Rightarrow> unit prog" where
  "host_global_config E h =
     bindA (getA (\<lambda>w. drbd_config_dir (hosts w h))) (\<lambda>dir.
     seqA (host_cmd E h [''mkdir'', ''-p'', dir])
    (bindA (getA (\<lambda>w. (drbd_global_config_file_path w h,
              ''global { usage-count no; }'' @ NL @ ''include '' @ [DQUOTE] @ dir @ ''/'' @
              job w @ ''*'' @ [DQUOTE] @ '';'' @ NL))) (\<lambda>(path, text).
     ignore (host_run E h [''bash'', ''-c'', ''cat > '' @ path] (with_stdin text)))))"

definition host_init ::
  "environment \<Rightarrow> (href \<Rightarrow> unit prog) \<Rightarrow> string \<Rightarrow> string \<Rightarrow> string \<Rightarrow> string option \<Rightarrow> nat \<Rightarrow> bool \<Rightarrow>
   string option \<Rightarrow> href prog" where
  "host_init E start_dmesg name vg backend backing first_port multi_paths ns =
     bindA (getA next_href) (\<lambda>h.
     seqA (modA (\<lambda>w. w\<lparr>next_href := Suc h, hosts := (hosts w)(h := new_host name vg first_port)\<rparr>))
    (seqA (host_probe E h name backend backing multi_paths ns)
    (seqA (start_dmesg h)
    (seqA (host_global_config E h) (ret h)))))"

section \<open>Packet filter\<close>

text \<open>\<open>Node._iptables_cmd_1\<close>: a port that is \<open>None\<close> or zero is left out.\<close>

definition iptables_cmd_1 ::
  "string \<Rightarrow> string \<Rightarrow> nat option \<Rightarrow> string \<Rightarrow> nat option \<Rightarrow> string \<Rightarrow> string \<Rightarrow> string \<Rightarrow> string list \<Rightarrow>
   string list" where
  "iptables_cmd_1 chain sa sp da dp jump add_remove udp_tcp additional_filter =
     [''iptables'', add_remove, chain, ''-p'', udp_tcp, ''--source'', sa, ''--destination'', da] @
     (if truthy_opt sp then [''--source-port'', str_nat (the sp)] else []) @
     (if truthy_opt dp then [''--destination-port'', str_nat (the dp)] else []) @
     [''-j'', jump] @ additional_filter"

text \<open>\<open>Node._iptables_cmd\<close>; its argument \<open>additional_filter\<close> is not used by the code.\<close>

definition iptables_cmd ::
  "world \<Rightarrow> nref \<Rightarrow> nref \<Rightarrow> string \<Rightarrow> nat \<Rightarrow> string \<Rightarrow> string list \<Rightarrow> exn + string list list" where
  "iptables_cmd w self node2 jump path_nr add_remove additional_filter =
     (case list_item (addrs (host_of w self)) (int path_nr) of
        Inl e \<Rightarrow> Inl e
      | Inr a \<Rightarrow>
          (case list_item (addrs (host_of w node2)) (int path_nr) of
             Inl e \<Rightarrow> Inl e
           | Inr b \<Rightarrow>
               let p = Some (node_port (nodes w self)); q = Some (node_port (nodes w node2)) in
               Inr (if res_transport (res_of w self) = Some ''rdma''
                    then [iptables_cmd_1 ''drbd-test-output'' a None b (Some 4791) jump add_remove ''udp'' [],
                          iptables_cmd_1 ''drbd-test-input'' b None a (Some 4791) jump add_remove ''udp'' []]
                    else [iptables_cmd_1 ''drbd-test-output'' a p b None jump add_remove ''tcp'' [],
                          iptables_cmd_1 ''drbd-test-output'' a None b q jump add_remove ''tcp'' [],
                          iptables_cmd_1 ''drbd-test-input'' b None a p jump add_remove ''tcp'' [],
                          iptables_cmd_1 ''drbd-test-input'' b q a None jump add_remove ''tcp'' []])))"

definition node_repr :: "world \<Rightarrow> nref \<Rightarrow> string" where
  "node_repr w n = res_name (res_of w n) @ '':'' @ node_name (nodes w n)"

definition block_path ::
  "environment \<Rightarrow> nref \<Rightarrow> nref \<Rightarrow> nat \<Rightarrow> string \<Rightarrow> seconds option \<Rightarrow> seconds option \<Rightarrow> string list \<Rightarrow>
   unit prog" where
  "block_path E n other net_number jump_to lead_seconds for_seconds iptables_filter =
     bindA (getA (\<lambda>w. ''BLOCKING path #'' @ str_nat net_number @ '' from '' @ node_repr w n @
              '' to '' @ node_repr w other)) (\<lambda>msg.
     seqA (log msg)
    (bindA (exprA (\<lambda>w. iptables_cmd w n other jump_to net_number ''-I'' iptables_filter)) (\<lambda>cmds.
     case for_seconds of
       None \<Rightarrow> forA cmds (node_cmd E n)
     | Some secs \<Rightarrow>
         let lead = (case lead_seconds of None \<Rightarrow> Millis 300 | Some l \<Rightarrow> l) in
         if millis secs \<le> millis lead
         then raise (RuntimeError ''for_seconds needs to be larger than lead_seconds'')
         else
           bindA (exprA (\<lambda>w. iptables_cmd w n other jump_to net_number ''-D'' [])) (\<lambda>del_cmds.
           seqA (node_cmd E n [''setsid'', ''bash'', ''-c'', ''('' @
                   join ''; '' (map (join '' '') cmds) @ ''; sleep '' @ str_seconds secs @ ''; '' @
                   join ''; '' (map (join '' '') del_cmds) @ '') </dev/null &>/dev/null &''])
                (emit (Sleep lead))))))"

definition unblock_path :: "environment \<Rightarrow> nref \<Rightarrow> nref \<Rightarrow> nat \<Rightarrow> string \<Rightarrow> unit prog" where
  "unblock_path E n other net_number jump_to =
     bindA (getA (\<lambda>w. ''Unblocking path #'' @ str_nat net_number @ '' from '' @ node_repr w n @
              '' to '' @ node_repr w other)) (\<lambda>msg.
     seqA (log msg)
    (bindA (exprA (\<lambda>w. iptables_cmd w n other jump_to net_number ''-D'' [])) (\<lambda>cmds.
     forA cmds (node_cmd E n))))"

text \<open>\<open>'%04X'\<close>\<close>

definition hex_digit :: "nat \<Rightarrow> char" where
  "hex_digit d = char_of (if d < 10 then 48 + d else 55 + d)"

fun hex_nat :: "nat \<Rightarrow> string" where
  "hex_nat n = (if n < 16 then [hex_digit n] else hex_nat (n div 16) @ [hex_digit (n mod 16)])"

declare hex_nat.simps [simp del]

definition hex4 :: "nat \<Rightarrow> string" where
  "hex4 n = (let s = hex_nat n in replicate (4 - length s) (CHR ''0'') @ s)"

definition block_packet_type_cmd ::
  "world \<Rightarrow> nref \<Rightarrow> string \<Rightarrow> nat \<Rightarrow> nat \<Rightarrow> nref option \<Rightarrow> exn + string list" where
  "block_packet_type_cmd w self op packet vnr from_node =
     (case (case from_node of
              None \<Rightarrow> Inr []
            | Some f \<Rightarrow> map_sum id (\<lambda>a. [''-s'', a]) (list_item (addrs (host_of w f)) 0)) of
        Inl e \<Rightarrow> Inl e
      | Inr src \<Rightarrow>
          Inr ([''iptables'', op, ''drbd-test-input'', ''-p'',
                if res_transport (res_of w self) = Some ''rdma'' then ''udp'' else ''tcp''] @ src @
               [''-m'', ''string'', ''--algo'', ''bm'', ''--from'', ''0'', ''--hex-string'',
                ''|8620ec20 '' @ hex4 vnr @ '' '' @ hex4 packet @ '' 0000|'']))"

definition block_packet_type_op ::
  "environment \<Rightarrow> nref \<Rightarrow> nat \<Rightarrow> string \<Rightarrow> nref option \<Rightarrow> nat \<Rightarrow> unit prog" where
  "block_packet_type_op E n packet op from_node vnr =
     bindA (exprA (\<lambda>w. block_packet_type_cmd w n op packet vnr from_node)) (\<lambda>cmdline.
       forA [''LOG'', ''DROP''] (\<lambda>target. node_cmd E n (cmdline @ [''-j'', target])))"

definition block_packet_type ::
  "environment \<Rightarrow> nref \<Rightarrow> nat \<Rightarrow> nref option \<Rightarrow> nat \<Rightarrow> seconds option \<Rightarrow> unit prog" where
  "block_packet_type E n packet from_node vnr for_seconds =
     seqA (block_packet_type_op E n packet ''-A'' from_node vnr)
      (case for_seconds of
         None \<Rightarrow> ret ()
       | Some secs \<Rightarrow>
           bindA (exprA (\<lambda>w. block_packet_type_cmd w n ''-D'' packet vnr from_node)) (\<lambda>d.
           node_cmd E n [''setsid'', ''bash'', ''-c'', ''('' @ '' sleep '' @ str_seconds secs @ ''; '' @
             quoted_command d @ '' -j LOG; '' @ quoted_command d @ '' -j DROP'' @
             '') </dev/null &>/dev/null &'']))"

definition unblock_packet_type ::
  "environment \<Rightarrow> nref \<Rightarrow> nat \<Rightarrow> nref option \<Rightarrow> nat \<Rightarrow> unit prog" where
  "unblock_packet_type E n packet from_node vnr =
     block_packet_type_op E n packet ''-D'' from_node vnr"

section \<open>Faults, transactions and generation identifiers\<close>

definition set_fault_injection :: "environment \<Rightarrow> nref \<Rightarrow> vref \<Rightarrow> nat \<Rightarrow> unit prog" where
  "set_fault_injection E n v faults =
     bindA (getA (\<lambda>w. (node_host (nodes w n), 2 ^ vol_minor (vols w v)))) (\<lambda>(h, devs).
       ignore (run_helper E h ''enable-faults''
         [''--faults='' @ str_nat faults, ''--rate=100'', ''--devs='' @ str_nat devs] None False))"

definition disable_fault_injection :: "environment \<Rightarrow> nref \<Rightarrow> vref \<Rightarrow> unit prog" where
  "disable_fault_injection E n v =
     bindA (getA (\<lambda>w. (node_host (nodes w n), 2 ^ vol_minor (vols w v)))) (\<lambda>(h, devs).
       ignore (run_helper E h ''disable-faults'' [''--devs='' @ str_nat devs] None False))"

text \<open>\<open>re.compile(r'Executing tid: (\<bar>d+)').search(text)\<close> with \<open>\<bar>d\<close> for a digit\<close>

fun search_tid :: "string \<Rightarrow> nat option" where
  "search_tid [] = None"
| "search_tid (c # cs) =
     (case Option.bind (lit ''Executing tid: '' (c # cs)) (many1 is_digit) of
        Some (ds, _) \<Rightarrow> Some (nat_of_digits ds)
      | None \<Rightarrow> search_tid cs)"

definition twopc_tid :: "environment \<Rightarrow> nref \<Rightarrow> nat option prog" where
  "twopc_tid E n =
     bindA (getA (\<lambda>w. res_name (res_of w n))) (\<lambda>rn.
     bindA (node_stdout E n [''cat'', ''/sys/kernel/debug/drbd/resources/'' @ rn @ ''/state_twopc''])
       (\<lambda>text. ret (search_tid text)))"

definition get_gi_field :: "environment \<Rightarrow> nref \<Rightarrow> nref \<Rightarrow> nat \<Rightarrow> int \<Rightarrow> string prog" where
  "get_gi_field E n peer vnr k =
     bindA (getA (\<lambda>w. (res_name (res_of w n), node_id (nodes w peer)))) (\<lambda>(rn, i).
     bindA (node_stdout E n [''drbdsetup'', ''get-gi'', rn, str_nat i, str_nat vnr]) (\<lambda>out.
       liftA (list_item (split_on (CHR '':'') (strip out)) k)))"

definition get_current_uuid :: "environment \<Rightarrow> nref \<Rightarrow> nref \<Rightarrow> nat \<Rightarrow> string prog" where
  "get_current_uuid E n peer vnr = get_gi_field E n peer vnr 0"

definition get_bitmap_uuid :: "environment \<Rightarrow> nref \<Rightarrow> nref \<Rightarrow> nat \<Rightarrow> string prog" where
  "get_bitmap_uuid E n peer vnr = get_gi_field E n peer vnr 1"

definition uuid_from_raw :: "string \<Rightarrow> string" where
  "uuid_from_raw raw =
     map upper_char (if startswith raw ''0x'' \<or> startswith raw ''0X'' then drop 2 raw else raw)"

text \<open>\<open>MetadataFlag\<close> and \<open>Node.set_gi\<close>.\<close>

datatype metadata_flag = CONSISTENT | PRIMARY_IND | WAS_UP_TO_DATE | CRASHED_PRIMARY | AL_CLEAN
  | AL_DISABLED | PRIMARY_LOST_QUORUM | PEER_CONNECTED | PEER_OUTDATED | PEER_FENCING
  | PEER_FULL_SYNC | PEER_DEVICE_SEEN | NODE_EXISTS | HAVE_BITMAP

definition flag_val :: "metadata_flag list \<Rightarrow> metadata_flag list \<Rightarrow> metadata_flag \<Rightarrow> string" where
  "flag_val flags_set flags_unset f =
     (if f \<in> set flags_set then ''1'' else if f \<in> set flags_unset then ''0'' else [])"

definition empty_if_none :: "string option \<Rightarrow> string" where
  "empty_if_none x = (case x of None \<Rightarrow> [] | Some s \<Rightarrow> s)"

definition set_gi_values ::
  "string option \<Rightarrow> string option \<Rightarrow> string option \<Rightarrow> string option \<Rightarrow> metadata_flag list \<Rightarrow>
   metadata_flag list \<Rightarrow> string list" where
  "set_gi_values current_uuid bitmap_uuid history_uuid_0 history_uuid_1 flags_set flags_unset =
     map empty_if_none [current_uuid, bitmap_uuid, history_uuid_0, history_uuid_1] @
     map (flag_val flags_set flags_unset)
       [CONSISTENT, WAS_UP_TO_DATE, PRIMARY_IND, CRASHED_PRIMARY, AL_CLEAN, AL_DISABLED,
        PRIMARY_LOST_QUORUM, PEER_CONNECTED, PEER_OUTDATED, PEER_FENCING, PEER_FULL_SYNC,
        PEER_DEVICE_SEEN]"

definition set_gi ::
  "environment \<Rightarrow> nref \<Rightarrow> vref \<Rightarrow> string option \<Rightarrow> string option \<Rightarrow> string option \<Rightarrow>
   string option \<Rightarrow> metadata_flag list \<Rightarrow> metadata_flag list \<Rightarrow> unit prog" where
  "set_gi E n peer_volume current_uuid bitmap_uuid history_uuid_0 history_uuid_1 flags_set flags_unset =
     bindA (exprA (\<lambda>w. node_volumes w n)) (\<lambda>vs.
     bindA (exprA (\<lambda>w. list_item (items vs) (int (vol_number (vols w peer_volume))))) (\<lambda>lv.
     bindA (getA (\<lambda>w. (vol_minor (vols w lv), disk_arg w lv,
                       node_id (nodes w (vol_node (vols w peer_volume)))))) (\<lambda>(m, d, i).
     node_cmd E n [''drbdmeta'', str_nat m, ''v09'', d, ''internal'', ''--node-id='' @ str_nat i,
       ''--force'', ''set-gi'',
       join '':'' (set_gi_values current_uuid bitmap_uuid history_uuid_0 history_uuid_1
                   flags_set flags_unset)])))"

section \<open>Blocking and unblocking a path\<close>

text \<open>
  What \<^verbatim>\<open>iptables(8)\<close> documents of the three commands used: a table maps a chain to its rules,
  \<open>-I\<close> inserts a rule at the head, \<open>-A\<close> appends it, \<open>-D\<close> removes the first rule equal to the
  one given. \<open>exec\<close> is the tool, as a function on tables that may fail.
\<close>

type_synonym tables = "string \<Rightarrow> string list list"

definition iptables_doc :: "(string list \<Rightarrow> tables \<Rightarrow> tables option) \<Rightarrow> bool" where
  "iptables_doc exec \<longleftrightarrow>
     (\<forall>t c spec. exec (''iptables'' # ''-I'' # c # spec) t = Some (t(c := spec # t c)) \<and>
        exec (''iptables'' # ''-A'' # c # spec) t = Some (t(c := t c @ [spec])) \<and>
        (spec \<in> set (t c) \<longrightarrow>
           exec (''iptables'' # ''-D'' # c # spec) t = Some (t(c := remove1 spec (t c)))))"

fun run_all :: "(string list \<Rightarrow> tables \<Rightarrow> tables option) \<Rightarrow> string list list \<Rightarrow> tables \<Rightarrow> tables option" where
  "run_all exec [] t = Some t"
| "run_all exec (c # cs) t = Option.bind (exec c t) (run_all exec cs)"

text \<open>A rule: its chain and specification; the insertions and then the deletions of a list of rules.\<close>

definition rule_cmd :: "string \<Rightarrow> string \<times> string list \<Rightarrow> string list" where
  "rule_cmd op r = ''iptables'' # op # fst r # snd r"

definition specs :: "(string \<times> string list) list \<Rightarrow> string \<Rightarrow> string list list" where
  "specs rs c = map snd (filter (\<lambda>r. fst r = c) rs)"

lemma iptables_cmd_rules:
  assumes "iptables_cmd w a b jump p op fs = Inr cmds"
  shows "\<exists>rs. \<forall>op'. iptables_cmd w a b jump p op' fs' = Inr (map (rule_cmd op') rs) \<and>
    cmds = map (rule_cmd op) rs"
proof -
  have cmd1: "iptables_cmd_1 ch sa sp da dp jump op' pr fs = rule_cmd op' (ch,
      drop 3 (iptables_cmd_1 ch sa sp da dp jump op pr fs))" for ch sa sp da dp op' pr fs
    by (simp add: iptables_cmd_1_def rule_cmd_def)
  obtain x y where x: "list_item (addrs (host_of w a)) (int p) = Inr x"
    and y: "list_item (addrs (host_of w b)) (int p) = Inr y"
    using assms by (auto simp: iptables_cmd_def split: sum.splits)
  let ?q = "Some (node_port (nodes w a))" and ?r = "Some (node_port (nodes w b))"
  let ?mk = "\<lambda>ch sa sp da dp pr. (ch, drop 3 (iptables_cmd_1 ch sa sp da dp jump op pr []))"
  let ?rs = "if res_transport (res_of w a) = Some ''rdma''
     then [?mk ''drbd-test-output'' x None y (Some 4791) ''udp'', ?mk ''drbd-test-input'' y None x (Some 4791) ''udp'']
     else [?mk ''drbd-test-output'' x ?q y None ''tcp'', ?mk ''drbd-test-output'' x None y ?r ''tcp'',
           ?mk ''drbd-test-input'' y None x ?q ''tcp'', ?mk ''drbd-test-input'' y ?r x None ''tcp'']"
  have "iptables_cmd w a b jump p op' f = Inr (map (rule_cmd op') ?rs)" for op' f
    by (simp add: iptables_cmd_def x y Let_def cmd1 [symmetric])
  then show ?thesis using assms by (intro exI [of _ ?rs]) auto
qed

lemma run_all_insert:
  assumes "iptables_doc exec"
  shows "run_all exec (map (rule_cmd ''-I'') rs) t = Some (\<lambda>c. rev (specs rs c) @ t c)"
proof (induction rs arbitrary: t)
  case Nil
  then show ?case by (simp add: specs_def)
next
  case (Cons r rs)
  have "exec (rule_cmd ''-I'' r) t = Some (t(fst r := snd r # t (fst r)))"
    using assms by (simp add: iptables_doc_def rule_cmd_def)
  with Cons show ?case by (auto simp: specs_def)
qed

text \<open>Deleting in any order: what was inserted goes first, whatever was there before stays.\<close>

lemma run_all_delete:
  assumes "iptables_doc exec"
  shows "\<forall>c. t' c = ys c @ t c \<and> mset (ys c) = mset (specs rs c) \<Longrightarrow>
    run_all exec (map (rule_cmd ''-D'') rs) t' = Some t"
proof (induction rs arbitrary: t' ys)
  case Nil
  then show ?case by (auto simp: specs_def)
next
  case (Cons r rs)
  let ?c = "fst r" and ?t = "t'(fst r := remove1 (snd r) (t' (fst r)))"
  have "snd r \<in># mset (ys ?c)" using Cons.prems by (simp add: specs_def)
  then have mem: "snd r \<in> set (ys ?c)" by simp
  then have ex: "exec (rule_cmd ''-D'' r) t' = Some ?t"
    using assms Cons.prems by (simp add: iptables_doc_def rule_cmd_def)
  have "\<forall>c. ?t c = (ys(?c := remove1 (snd r) (ys ?c))) c @ t c \<and>
      mset ((ys(?c := remove1 (snd r) (ys ?c))) c) = mset (specs rs c)"
    using Cons.prems mem by (auto simp: specs_def remove1_append)
  from Cons.IH [OF this] have "run_all exec (map (rule_cmd ''-D'') rs) ?t = Some t" .
  with ex show ?case by (simp del: fun_upd_apply)
qed


text \<open>A list-based packet filter with the documented behaviour.\<close>

definition list_filter :: "string list \<Rightarrow> tables \<Rightarrow> tables option" where
  "list_filter cmd t =
     (case cmd of
        _ # op # c # spec \<Rightarrow>
          if op = ''-I'' then Some (t(c := spec # t c))
          else if op = ''-A'' then Some (t(c := t c @ [spec]))
          else if op = ''-D'' \<and> spec \<in> set (t c) then Some (t(c := remove1 spec (t c))) else None
      | _ \<Rightarrow> None)"

lemma list_filter_doc: "iptables_doc list_filter"
  by (simp add: iptables_doc_def list_filter_def)


section \<open>Blocking a packet type\<close>

lemma hex_digit_inj: "a < 16 \<Longrightarrow> b < 16 \<Longrightarrow> hex_digit a = hex_digit b \<Longrightarrow> a = b"
proof -
  assume ab: "a < 16" "b < 16" and "hex_digit a = hex_digit b"
  then have "(of_char (hex_digit a) :: nat) = of_char (hex_digit b)" by simp
  with ab show "a = b" by (auto simp: hex_digit_def split: if_splits)
qed

definition hex_val :: "string \<Rightarrow> nat" where
  "hex_val s = foldl (\<lambda>a c. 16 * a + (let n = (of_char c :: nat) in if n < 58 then n - 48 else n - 55)) 0 s"

lemma hex_val_digit: "d < 16 \<Longrightarrow> (let n = (of_char (hex_digit d) :: nat) in if n < 58 then n - 48 else n - 55) = d"
  by (simp add: hex_digit_def Let_def)

lemma hex_val_hex_nat: "hex_val (hex_nat n) = n"
proof (induction n rule: hex_nat.induct)
  case (1 n)
  show ?case
    by (subst hex_nat.simps)
      (use 1 in \<open>auto simp: hex_val_def hex_val_digit [unfolded Let_def] Let_def\<close>)
qed

lemma hex_val_zeros: "hex_val (replicate k (CHR ''0'') @ s) = hex_val s"
  by (induction k) (simp_all add: hex_val_def)

lemma hex4_inj: "hex4 m = hex4 n \<longleftrightarrow> m = n"
  by (metis hex4_def hex_val_hex_nat hex_val_zeros)

lemma length_hex_nat: "n < 16 ^ Suc k \<Longrightarrow> length (hex_nat n) \<le> Suc k"
proof (induction k arbitrary: n)
  case 0
  then show ?case by (subst hex_nat.simps) simp
next
  case (Suc k)
  have "n div 16 < 16 ^ Suc k" using Suc.prems by (simp add: less_mult_imp_div_less)
  with Suc.IH show ?case by (subst hex_nat.simps) simp
qed

lemma length_hex4: "n < 65536 \<Longrightarrow> length (hex4 n) = 4"
  using length_hex_nat [of n 3] by (simp add: hex4_def Let_def)

text \<open>
  Two packet filter rules for a packet type on one node match the same bytes only if they
  were made for the same packet type, volume and operation: for header fields of 16 bits the
  command determines all three, so unblocking one packet type cannot remove another's rule.
\<close>
theorem block_packet_type_cmd_inj:
  assumes "block_packet_type_cmd w n op p v f = Inr c" and "block_packet_type_cmd w n op' p' v' f = Inr c"
    and "v < 65536" and "v' < 65536"
  shows "op = op' \<and> p = p' \<and> v = v'"
proof -
  have "hex4 v @ '' '' @ hex4 p @ '' 0000|'' = hex4 v' @ '' '' @ hex4 p' @ '' 0000|'' \<and> op = op'"
    using assms(1,2) by (auto simp: block_packet_type_cmd_def split: sum.splits)
  then show ?thesis
    using length_hex4 [OF assms(3)] length_hex4 [OF assms(4)] by (auto simp: hex4_inj)
qed

theorem block_packet_type_cmd_inj_witness:
  "block_packet_type_cmd two_nodes 0 ''-A'' 8 1 (Some 1) \<noteq> block_packet_type_cmd two_nodes 0 ''-A'' 9 1 (Some 1)"
proof
  obtain c where c: "block_packet_type_cmd two_nodes 0 ''-A'' 8 1 (Some 1) = Inr c"
    by (simp add: block_packet_type_cmd_def two_nodes_def empty_cluster_def sample_host_def list_item_def)
  assume "block_packet_type_cmd two_nodes 0 ''-A'' 8 1 (Some 1) = block_packet_type_cmd two_nodes 0 ''-A'' 9 1 (Some 1)"
  with c block_packet_type_cmd_inj [of two_nodes 0 "''-A''" 8 1 "Some 1" c "''-A''" 9 1] show False
    by simp
qed

section \<open>Addresses of a host\<close>

text \<open>The devices with an address other than the loopback and the default one, in order.\<close>

definition foreign :: "string \<Rightarrow> string \<Rightarrow> (string \<times> netdev) option" where
  "foreign own line =
     (case match_addr_line line of
        None \<Rightarrow> None
      | Some (d, a, p) \<Rightarrow>
          if a = ''127.0.0.1'' \<or> a = own then None else Some (d, \<lparr>nd_address = a, nd_prefix = p\<rparr>))"

lemma note_address_eq:
  "note_address h multi line w =
     (Inr (), w\<lparr>hosts := (hosts w)(h := case foreign (addr (hosts w h)) line of
        None \<Rightarrow> hosts w h
      | Some (d, i) \<Rightarrow> (hosts w h)\<lparr>addrs := addrs (hosts w h) @ (if multi then [nd_address i] else []),
          netdevs := dict_put (=) (netdevs (hosts w h)) d i\<rparr>)\<rparr>)"
  by (auto simp: note_address_def foreign_def upd_host_def split: option.splits)

text \<open>
  Reading the output of \<^verbatim>\<open>ip -oneline addr show\<close> never fails. Afterwards the host's address
  list has, when multiple paths were asked for, every address found that is neither the loopback nor
  the default address appended in order, and otherwise is unchanged; every such device is in
  the device table with the last address seen for it; the default address is kept.
\<close>
theorem note_addresses:
  "\<exists>w'. forA ls (note_address h multi) w = (Inr (), w') \<and>
     addr (hosts w' h) = addr (hosts w h) \<and>
     addrs (hosts w' h) = addrs (hosts w h) @
       (if multi then map (\<lambda>(d, i). nd_address i) (List.map_filter (foreign (addr (hosts w h))) ls) else []) \<and>
     netdevs (hosts w' h) =
       foldl (\<lambda>t (d, i). dict_put (=) t d i) (netdevs (hosts w h))
         (List.map_filter (foreign (addr (hosts w h))) ls)"
proof (induction ls arbitrary: w)
  case Nil
  then show ?case by (simp add: map_filter_simps)
next
  case (Cons l ls)
  let ?w = "w\<lparr>hosts := (hosts w)(h := case foreign (addr (hosts w h)) l of
        None \<Rightarrow> hosts w h
      | Some (d, i) \<Rightarrow> (hosts w h)\<lparr>addrs := addrs (hosts w h) @ (if multi then [nd_address i] else []),
          netdevs := dict_put (=) (netdevs (hosts w h)) d i\<rparr>)\<rparr>"
  have a: "addr (hosts ?w h) = addr (hosts w h)" by (simp split: option.split)
  obtain w' where "forA ls (note_address h multi) ?w = (Inr (), w')"
    "addr (hosts w' h) = addr (hosts w h)"
    "addrs (hosts w' h) = addrs (hosts ?w h) @
       (if multi then map (\<lambda>(d, i). nd_address i) (List.map_filter (foreign (addr (hosts w h))) ls) else [])"
    "netdevs (hosts w' h) = foldl (\<lambda>t (d, i). dict_put (=) t d i) (netdevs (hosts ?w h))
         (List.map_filter (foreign (addr (hosts w h))) ls)"
    using Cons [of ?w] unfolding a by blast
  then show ?case
    by (auto simp: seq_ok [OF note_address_eq] map_filter_simps split: option.splits)
qed

section \<open>Removing the module\<close>

text \<open>
  Removing the DRBD module fails only if removing the module itself fails: modules of
  transports that are not loaded do not matter.
\<close>
theorem linux_rmmod_transports_optional:
  assumes "\<And>v. \<exists>v'. host_cmd E h [''rmmod'', ''drbd''] v = (Inr (), v')"
  shows "\<exists>w'. linux_rmmod E h w = (Inr (), w')"
proof -
  have attempt: "\<exists>v'. tryA m (\<lambda>_. ret ()) v = (Inr (), v')" for m :: "unit prog" and v
    by (cases "m v") (auto simp: tryA_def split: sum.splits)
  have loop: "\<exists>v'. forA ms (\<lambda>m. tryA (host_cmd E h [''rmmod'', m]) (\<lambda>_. ret ())) v = (Inr (), v')" for ms v
  proof (induction ms arbitrary: v)
    case (Cons m ms)
    obtain v1 where "tryA (host_cmd E h [''rmmod'', m]) (\<lambda>_. ret ()) v = (Inr (), v1)"
      using attempt by blast
    with Cons [of v1] show ?case by (simp only: forA.simps seq_ok)
  qed simp
  have "\<exists>v. bindA (getA (\<lambda>w. is_v9 (hosts w h))) (\<lambda>v9. whenA v9
      (forA [''drbd_transport_tcp'', ''drbd_transport_lb-tcp'', ''drbd_transport_rdma'']
         (\<lambda>m. tryA (host_cmd E h [''rmmod'', m]) (\<lambda>_. ret ())))) w = (Inr (), v)"
    by (cases "is_v9 (hosts w h)") (simp_all only: bind_getA when_True when_False loop ret_app, blast+)
  then obtain v where v: "bindA (getA (\<lambda>w. is_v9 (hosts w h))) (\<lambda>v9. whenA v9
      (forA [''drbd_transport_tcp'', ''drbd_transport_lb-tcp'', ''drbd_transport_rdma'']
         (\<lambda>m. tryA (host_cmd E h [''rmmod'', m]) (\<lambda>_. ret ())))) w = (Inr (), v)" ..
  obtain v' where "host_cmd E h [''rmmod'', ''drbd''] v = (Inr (), v')" using assms by blast
  then show ?thesis
    unfolding linux_rmmod_def seqA_def [of "bindA _ _"] bindA_def [of "bindA _ _"] v
    by (simp add: tryA_def)
qed

definition only_drbd_env :: environment where
  "only_drbd_env = ok_env\<lparr>ssh_run := (\<lambda>_ c. \<lparr>sr_out = [], sr_err = [],
     sr_result = Inr (if drop (length (sc_cmd c) - 10) (sc_cmd c) = ''rmmod drbd'' then 0 else 1)\<rparr>)\<rparr>"

theorem linux_rmmod_transports_optional_witness:
  "\<exists>w'. linux_rmmod only_drbd_env 0 two_nodes = (Inr (), w')"
proof (rule linux_rmmod_transports_optional)
  fix v :: world
  have "quoted_command [''rmmod'', ''drbd''] = ''rmmod drbd''" by code_simp
  then have "\<exists>p. command_string (hosts v 0) [''rmmod'', ''drbd''] run_defaults = p @ ''rmmod drbd''"
    by (auto simp: command_string_def run_defaults_def Let_def split: option.split)
  then show "\<exists>v'. host_cmd only_drbd_env 0 [''rmmod'', ''drbd''] v = (Inr (), v')"
    by (auto simp: host_cmd_def host_run_def only_drbd_env_def ssh_exec_def emit_def Let_def bindA_def seqA_def)
qed

end
