(* ===== verification/Json.thy ===== *)
theory Json
  imports Ordered_Set
begin

text \<open>
  What the code uses of Python's module \<open>json\<close>: \<open>json.dumps\<close> with its default options and
  \<open>json.loads\<close>. A number with a fraction or an exponent is kept as its text. The parser takes
  fuel: a value needs one unit and an element list one more, and every value takes at least one
  character of the text, so twice the length of the text (and two) is enough. Text is
  Latin-1; an escape beyond it is rejected.
\<close>

section \<open>Values and their text\<close>

datatype json =
    JNull
  | JBool bool
  | JInt int
  | JFloat string
  | JStr string
  | JList "json list"
  | JObj "(string \<times> json) list"

definition hex_low :: "nat \<Rightarrow> char" where
  "hex_low d = char_of (if d < 10 then 48 + d else 87 + d)"

abbreviation BS :: char where
  "BS \<equiv> CHR 0x5C"

text \<open>Printable ASCII stands for itself, except for the quote and the backslash.\<close>

definition json_char :: "char \<Rightarrow> string" where
  "json_char c =
     (let n = (of_char c :: nat) in
      if c = DQUOTE then [BS, DQUOTE] else if c = BS then [BS, BS]
      else if n = 10 then [BS, CHR ''n''] else if n = 13 then [BS, CHR ''r'']
      else if n = 9 then [BS, CHR ''t''] else if n = 8 then [BS, CHR ''b'']
      else if n = 12 then [BS, CHR ''f'']
      else if 32 \<le> n \<and> n < 127 then [c]
      else [BS, CHR ''u'', CHR ''0'', CHR ''0'', hex_low (n div 16), hex_low (n mod 16)])"

definition json_str :: "string \<Rightarrow> string" where
  "json_str s = [DQUOTE] @ concat (map json_char s) @ [DQUOTE]"

primrec json_dumps :: "json \<Rightarrow> string" where
  "json_dumps JNull = ''null''"
| "json_dumps (JBool b) = (if b then ''true'' else ''false'')"
| "json_dumps (JInt i) = str_int i"
| "json_dumps (JFloat s) = s"
| "json_dumps (JStr s) = json_str s"
| "json_dumps (JList vs) = ''['' @ join '', '' (map json_dumps vs) @ '']''"
| "json_dumps (JObj ms) =
     ''{'' @ join '', '' (map (\<lambda>(k, t). json_str k @ '': '' @ t) (map (map_prod id json_dumps) ms)) @ ''}''"

section \<open>Reading\<close>

definition hex_digit_val :: "char \<Rightarrow> nat option" where
  "hex_digit_val c =
     (let n = (of_char c :: nat) in
      if 48 \<le> n \<and> n \<le> 57 then Some (n - 48)
      else if 65 \<le> n \<and> n \<le> 70 then Some (n - 55)
      else if 97 \<le> n \<and> n \<le> 102 then Some (n - 87) else None)"

definition unicode_char :: "char \<Rightarrow> char \<Rightarrow> char \<Rightarrow> char \<Rightarrow> char option" where
  "unicode_char a b c d =
     (case (hex_digit_val a, hex_digit_val b, hex_digit_val c, hex_digit_val d) of
        (Some i, Some j, Some k, Some l) \<Rightarrow>
          if 16 * i + j = 0 then Some (char_of (16 * k + l)) else None
      | _ \<Rightarrow> None)"

definition escape_char :: "char \<Rightarrow> char option" where
  "escape_char e =
     (if e = DQUOTE \<or> e = BS \<or> e = CHR ''/'' then Some e
      else map_of [(CHR ''n'', CHR 0x0A), (CHR ''r'', CHR 0x0D), (CHR ''t'', CHR 0x09),
             (CHR ''b'', CHR 0x08), (CHR ''f'', CHR 0x0C)] e)"

text \<open>The rest of a string, after its opening quote.\<close>

fun read_str :: "string \<Rightarrow> (string \<times> string) option" where
  "read_str [] = None"
| "read_str (c # r) =
     (if c = DQUOTE then Some ([], r)
      else if c = BS then
        (case r of
           [] \<Rightarrow> None
         | e # r1 \<Rightarrow>
             if e = CHR ''u'' then
               (case r1 of
                  a # b # x # d # r2 \<Rightarrow>
                    (case unicode_char a b x d of
                       None \<Rightarrow> None
                     | Some ch \<Rightarrow> map_option (\<lambda>(s, t). (ch # s, t)) (read_str r2))
                | _ \<Rightarrow> None)
             else
               (case escape_char e of
                  None \<Rightarrow> None
                | Some ch \<Rightarrow> map_option (\<lambda>(s, t). (ch # s, t)) (read_str r1)))
      else if (of_char c :: nat) < 32 then None
      else map_option (\<lambda>(s, t). (c # s, t)) (read_str r))"

definition skip_ws :: "string \<Rightarrow> string" where
  "skip_ws s = dropWhile (\<lambda>c. (of_char c :: nat) \<in> {9, 10, 13, 32}) s"

text \<open>\<open>(-?(?:0|[1-9][0-9]*))([.][0-9]+)?([eE][-+]?[0-9]+)?\<close>\<close>

definition read_frac :: "string \<Rightarrow> string \<times> string" where
  "read_frac s =
     (case s of
        c # r \<Rightarrow> if c = CHR ''.'' \<and> takeWhile is_digit r \<noteq> []
                 then (c # takeWhile is_digit r, dropWhile is_digit r) else ([], s)
      | [] \<Rightarrow> ([], s))"

definition read_exp :: "string \<Rightarrow> string \<times> string" where
  "read_exp s =
     (case s of
        c # r \<Rightarrow>
          let (sg, d) = (case r of x # y \<Rightarrow> if x = CHR ''-'' \<or> x = CHR ''+'' then ([x], y) else ([], r)
                                 | [] \<Rightarrow> ([], r)) in
          if (c = CHR ''e'' \<or> c = CHR ''E'') \<and> takeWhile is_digit d \<noteq> []
          then (c # sg @ takeWhile is_digit d, dropWhile is_digit d) else ([], s)
      | [] \<Rightarrow> ([], s))"

definition read_number :: "string \<Rightarrow> (json \<times> string) option" where
  "read_number s =
     (let (neg, r) = (case s of c # t \<Rightarrow> if c = CHR ''-'' then (True, t) else (False, s) | [] \<Rightarrow> (False, s));
          ds = (case r of c # t \<Rightarrow> if c = CHR ''0'' then [c] else takeWhile is_digit r | [] \<Rightarrow> []);
          (f, r1) = read_frac (drop (length ds) r);
          (e, r2) = read_exp r1 in
      if ds = [] then None
      else if f = [] \<and> e = [] then Some (JInt (if neg then - int (nat_of_digits ds) else int (nat_of_digits ds)), r2)
      else Some (JFloat ((if neg then ''-'' else []) @ ds @ f @ e), r2))"

definition read_literal :: "string \<Rightarrow> (json \<times> string) option" where
  "read_literal s =
     (case find (\<lambda>(p, _). startswith s p)
        [(''null'', JNull), (''true'', JBool True), (''false'', JBool False), (''NaN'', JFloat ''NaN''),
         (''Infinity'', JFloat ''Infinity''), (''-Infinity'', JFloat ''-Infinity'')] of
        Some (p, v) \<Rightarrow> Some (v, drop (length p) s)
      | None \<Rightarrow> read_number s)"

fun read_value :: "nat \<Rightarrow> string \<Rightarrow> (json \<times> string) option"
  and read_items :: "nat \<Rightarrow> string \<Rightarrow> (json list \<times> string) option"
  and read_members :: "nat \<Rightarrow> string \<Rightarrow> ((string \<times> json) list \<times> string) option" where
  "read_value 0 s = None"
| "read_value (Suc n) s =
     (case s of
        [] \<Rightarrow> None
      | c # r \<Rightarrow>
          if c = DQUOTE then map_option (\<lambda>(x, t). (JStr x, t)) (read_str r)
          else if c = CHR ''['' then
            (case skip_ws r of
               [] \<Rightarrow> None
             | d # t \<Rightarrow> if d = CHR '']'' then Some (JList [], t)
                        else map_option (\<lambda>(x, u). (JList x, u)) (read_items n (d # t)))
          else if c = CHR ''{'' then
            (case skip_ws r of
               [] \<Rightarrow> None
             | d # t \<Rightarrow> if d = CHR ''}'' then Some (JObj [], t)
                        else map_option (\<lambda>(x, u). (JObj (foldl (\<lambda>m (k, v). dict_put (=) m k v) [] x), u))
                               (read_members n (d # t)))
          else read_literal s)"
| "read_items 0 s = None"
| "read_items (Suc n) s =
     (case read_value n s of
        None \<Rightarrow> None
      | Some (v, r) \<Rightarrow>
          (case skip_ws r of
             [] \<Rightarrow> None
           | c # t \<Rightarrow>
               if c = CHR '']'' then Some ([v], t)
               else if c = CHR '','' then map_option (\<lambda>(vs, u). (v # vs, u)) (read_items n (skip_ws t))
               else None))"
| "read_members 0 s = None"
| "read_members (Suc n) s =
     (case s of
        [] \<Rightarrow> None
      | q # r \<Rightarrow>
          if q \<noteq> DQUOTE then None
          else
            (case read_str r of
               None \<Rightarrow> None
             | Some (k, r1) \<Rightarrow>
                 (case skip_ws r1 of
                    [] \<Rightarrow> None
                  | c1 # r2 \<Rightarrow>
                      if c1 \<noteq> CHR '':'' then None
                      else
                        (case read_value n (skip_ws r2) of
                           None \<Rightarrow> None
                         | Some (v, r3) \<Rightarrow>
                             (case skip_ws r3 of
                                [] \<Rightarrow> None
                              | c # t \<Rightarrow>
                                  if c = CHR ''}'' then Some ([(k, v)], t)
                                  else if c = CHR '','' then
                                    map_option (\<lambda>(ms, u). ((k, v) # ms, u)) (read_members n (skip_ws t))
                                  else None)))))"

definition json_loads :: "string \<Rightarrow> exn + json" where
  "json_loads s =
     (case read_value (2 * length s + 2) (skip_ws s) of
        None \<Rightarrow> Inl ValueError
      | Some (v, r) \<Rightarrow> if skip_ws r = [] then Inr v else Inl ValueError)"

text \<open>Indexing: \<open>v[key]\<close> and \<open>v[i]\<close>.\<close>

definition json_get :: "json \<Rightarrow> string \<Rightarrow> exn + json" where
  "json_get v k =
     (case v of
        JObj ms \<Rightarrow> (case dict_get (=) ms k of None \<Rightarrow> Inl KeyError | Some x \<Rightarrow> Inr x)
      | _ \<Rightarrow> Inl TypeError)"

definition json_nth :: "json \<Rightarrow> int \<Rightarrow> exn + json" where
  "json_nth v i =
     (case v of
        JList vs \<Rightarrow> list_item vs i
      | JStr s \<Rightarrow> map_sum id (\<lambda>c. JStr [c]) (list_item s i)
      | JObj _ \<Rightarrow> Inl KeyError
      | _ \<Rightarrow> Inl TypeError)"

section \<open>Reading back what was written\<close>

lemma startswith_simps [simp]:
  "startswith s []" "startswith (x # xs) (y # ys) \<longleftrightarrow> x = y \<and> startswith xs ys"
  by (auto simp: startswith_def)

lemma hex_low_val: "d < 16 \<Longrightarrow> hex_digit_val (hex_low d) = Some d"
  by (auto simp: hex_digit_val_def hex_low_def Let_def)

lemma hex_zero: "hex_digit_val (CHR ''0'') = Some 0"
  by (simp add: hex_digit_val_def)

lemma unicode_low: "unicode_char (CHR ''0'') (CHR ''0'') (hex_low (of_char c div 16)) (hex_low (of_char c mod 16)) = Some c"
proof -
  have "(of_char c :: nat) < 256" using mod_less_divisor [of 256 "of_char c :: nat"] by simp
  then have "hex_digit_val (hex_low (of_char c div 16)) = Some (of_char c div 16)"
    "hex_digit_val (hex_low (of_char c mod 16)) = Some (of_char c mod 16)"
    by (simp_all add: hex_low_val less_mult_imp_div_less)
  then show ?thesis by (simp add: unicode_char_def hex_zero)
qed

lemma read_json_char: "read_str (json_char c @ r) = map_option (\<lambda>(s, t). (c # s, t)) (read_str r)"
proof -
  have code: "c = d \<longleftrightarrow> (of_char c :: nat) = of_char d" for d by (simp only: of_char_eq_iff)
  have "c = CHR 0x0A \<longleftrightarrow> (of_char c :: nat) = 10" "c = CHR 0x0D \<longleftrightarrow> (of_char c :: nat) = 13"
    "c = CHR 0x09 \<longleftrightarrow> (of_char c :: nat) = 9" "c = CHR 0x08 \<longleftrightarrow> (of_char c :: nat) = 8"
    "c = CHR 0x0C \<longleftrightarrow> (of_char c :: nat) = 12"
    unfolding code by simp_all
  then show ?thesis
    by (auto simp: json_char_def Let_def escape_char_def unicode_low)
qed

lemma read_json_str: "read_str (concat (map json_char s) @ [DQUOTE] @ r) = Some (s, r)"
proof (induction s)
  case (Cons c s)
  then show ?case using read_json_char [of c "concat (map json_char s) @ [DQUOTE] @ r"] by simp
qed simp

text \<open>What may follow a value inside a list or an object.\<close>

definition ends_value :: "string \<Rightarrow> bool" where
  "ends_value r \<longleftrightarrow> r = [] \<or> hd r \<in> set '',]}''"

lemma ends_value_cases: "ends_value r \<Longrightarrow> (r = [] \<Longrightarrow> P) \<Longrightarrow> (\<And>t. r = CHR '','' # t \<Longrightarrow> P) \<Longrightarrow>
    (\<And>t. r = CHR '']'' # t \<Longrightarrow> P) \<Longrightarrow> (\<And>t. r = CHR ''}'' # t \<Longrightarrow> P) \<Longrightarrow> P"
  by (cases r) (auto simp: ends_value_def)

lemma str_nat_hd: "\<exists>c t. str_nat n = c # t \<and> is_digit c"
  using str_nat_digits [of n] str_nat_nonempty [of n] by (cases "str_nat n") auto

lemma str_nat_zero_hd: "str_nat n = CHR ''0'' # t \<Longrightarrow> n = 0 \<and> t = []"
proof (induction n arbitrary: t rule: str_nat.induct)
  case (1 n)
  show ?case
  proof (cases "n < 10")
    case True
    then have "str_nat n = [digit n]" by (subst str_nat.simps) simp
    then have "digit_val (digit n) = digit_val (CHR ''0'')" "t = []" using 1 by auto
    then show ?thesis using True by simp (simp add: digit_val_def)
  next
    case False
    then have s: "str_nat n = str_nat (n div 10) @ [digit (n mod 10)]" by (subst str_nat.simps) simp
    obtain c u where c: "str_nat (n div 10) = c # u" using str_nat_hd by blast
    with s 1 have "str_nat (n div 10) = CHR ''0'' # u" by simp
    with 1 False have "n div 10 = 0" by blast
    with False show ?thesis by simp
  qed
qed

lemma read_number_int: "ends_value r \<Longrightarrow> read_number (str_int i @ r) = Some (JInt i, r)"
proof -
  assume r: "ends_value r"
  have dr: "takeWhile is_digit r = []" "dropWhile is_digit r = r"
    using r by (auto elim!: ends_value_cases simp: is_digit_def)
  have fe: "read_frac r = ([], r)" "read_exp r = ([], r)"
    using r by (auto elim!: ends_value_cases simp: read_frac_def read_exp_def split: list.splits if_splits)
  have pos: "(case str_nat n @ r of c # t \<Rightarrow> if c = CHR ''0'' then [c] else takeWhile is_digit (str_nat n @ r) | [] \<Rightarrow> []) = str_nat n"
    "drop (length (str_nat n)) (str_nat n @ r) = r" for n
  proof -
    obtain c t where c: "str_nat n = c # t" "is_digit c" using str_nat_hd by blast
    have all: "takeWhile is_digit (str_nat n @ r) = str_nat n"
      using str_nat_digits [of n] dr by (simp add: list_all_iff takeWhile_append2)
    show "(case str_nat n @ r of c # t \<Rightarrow> if c = CHR ''0'' then [c] else takeWhile is_digit (str_nat n @ r) | [] \<Rightarrow> []) = str_nat n"
      using c all str_nat_zero_hd [of n t] by (cases "c = CHR ''0''") auto
  qed simp
  have neg: "(case str_nat n @ r of c # t \<Rightarrow> if c = CHR ''-'' then (True, t) else (False, str_nat n @ r) | [] \<Rightarrow> (False, str_nat n @ r)) = (False, str_nat n @ r)" for n
    using str_nat_hd [of n] by (auto simp: is_digit_def)
  show ?thesis
  proof (cases "i < 0")
    case True
    then show ?thesis using pos(1) [of "nat (- i)"] fe by (simp add: str_int_def read_number_def)
  next
    case False
    then show ?thesis using pos(1) [of "nat i"] neg [of "nat i"] fe by (simp add: str_int_def read_number_def)
  qed
qed

lemma read_literal_int: "ends_value r \<Longrightarrow> read_literal (str_int i @ r) = Some (JInt i, r)"
proof -
  assume r: "ends_value r"
  obtain c t where c: "str_nat (nat i) = c # t" "is_digit c" using str_nat_hd by blast
  obtain d u where d: "str_nat (nat (- i)) = d # u" "is_digit d" using str_nat_hd by blast
  have low: "x \<notin> {CHR ''n'', CHR ''t'', CHR ''f'', CHR ''N'', CHR ''I'', CHR ''-''}" if "is_digit x" for x
    using that by (auto simp: is_digit_def)
  have none: "find (\<lambda>(p, _). startswith (str_int i @ r) p)
        [(''null'', JNull), (''true'', JBool True), (''false'', JBool False), (''NaN'', JFloat ''NaN''),
         (''Infinity'', JFloat ''Infinity''), (''-Infinity'', JFloat ''-Infinity'')] = None"
    using c(1) d(1) low [OF c(2)] low [OF d(2)] by (cases "i < 0") (simp_all add: str_int_def)
  then show ?thesis by (simp only: read_literal_def none option.case read_number_int [OF r])
qed

text \<open>Values with integer numbers only and no key twice in an object, as a Python dictionary has.\<close>

primrec json_plain :: "json \<Rightarrow> bool" where
  "json_plain JNull = True"
| "json_plain (JBool b) = True"
| "json_plain (JInt i) = True"
| "json_plain (JFloat s) = False"
| "json_plain (JStr s) = True"
| "json_plain (JList vs) = list_all id (map json_plain vs)"
| "json_plain (JObj ms) = (distinct (map fst ms) \<and> list_all snd (map (map_prod id json_plain) ms))"

definition starts_value :: "string \<Rightarrow> bool" where
  "starts_value s \<longleftrightarrow> s \<noteq> [] \<and> (of_char (hd s) :: nat) \<notin> {9, 10, 13, 32} \<and> hd s \<noteq> CHR '']'' \<and> hd s \<noteq> CHR ''}''"

lemma starts_value_skip: "starts_value s \<Longrightarrow> skip_ws (s @ r) = s @ r"
  by (cases s) (auto simp: starts_value_def skip_ws_def)

lemma starts_dumps: "json_plain v \<Longrightarrow> starts_value (json_dumps v)"
proof (cases v)
  case (JInt i)
  have "starts_value (str_nat n)" for n
    using str_nat_hd [of n] by (auto simp: starts_value_def is_digit_def)
  then show ?thesis using JInt by (auto simp: str_int_def starts_value_def)
qed (auto simp: starts_value_def json_str_def)

lemma skip_ws_sep: "starts_value s \<Longrightarrow> skip_ws ('' '' @ s @ r) = s @ r"
  using starts_value_skip [of s r] by (simp add: skip_ws_def)

lemma skip_ws_ends: "ends_value r \<Longrightarrow> skip_ws r = r"
  by (auto simp: skip_ws_def elim!: ends_value_cases)

definition reads :: "json \<Rightarrow> bool" where
  "reads v \<longleftrightarrow> (\<forall>r n. ends_value r \<longrightarrow> 2 * length (json_dumps v) \<le> n \<longrightarrow>
     read_value n (json_dumps v @ r) = Some (v, r))"

lemma join_Cons: "xs \<noteq> [] \<Longrightarrow> join sep (x # xs) = x @ sep @ join sep xs"
  by (cases xs) simp_all

lemma starts_join:
  assumes "xs \<noteq> []" and "starts_value (hd xs)"
  shows "starts_value (join sep xs)"
proof -
  obtain x ys where "xs = x # ys" using assms(1) by (cases xs) auto
  with assms(2) show ?thesis by (cases ys) (auto simp: starts_value_def)
qed

lemma read_items_join:
  assumes "vs \<noteq> []" and "\<forall>v \<in> set vs. reads v \<and> json_plain v"
    and "2 * length (join '', '' (map json_dumps vs)) + 1 \<le> n"
  shows "read_items n (join '', '' (map json_dumps vs) @ '']'' @ r) = Some (vs, r)"
  using assms
proof (induction vs arbitrary: n)
  case (Cons v vs)
  obtain m where n: "n = Suc m" using Cons.prems(3) by (cases n) auto
  have v: "reads v" "json_plain v" using Cons.prems(2) by auto
  show ?case
  proof (cases "vs = []")
    case True
    have "ends_value ('']'' @ r)" by (simp add: ends_value_def)
    then have "read_value m (json_dumps v @ '']'' @ r) = Some (v, '']'' @ r)"
      using v Cons.prems(3) True n unfolding reads_def by simp
    then show ?thesis using True n by (simp add: skip_ws_def)
  next
    case False
    let ?j = "join '', '' (map json_dumps vs)"
    have e: "ends_value ('', '' @ ?j @ '']'' @ r)" by (simp add: ends_value_def)
    have len: "length (json_dumps v) \<noteq> 0" using starts_dumps [OF v(2)] by (simp add: starts_value_def)
    have j: "join '', '' (map json_dumps (v # vs)) = json_dumps v @ '', '' @ ?j" using False by (simp add: join_Cons)
    have "2 * length (json_dumps v) \<le> m" using Cons.prems(3) n unfolding j by simp
    then have 1: "read_value m (json_dumps v @ '', '' @ ?j @ '']'' @ r) = Some (v, '', '' @ ?j @ '']'' @ r)"
      using v(1) e unfolding reads_def by blast
    have st: "starts_value ?j"
      using False Cons.prems(2) by (intro starts_join) (auto simp: hd_map intro: starts_dumps)
    have "2 * length ?j + 1 \<le> m" using Cons.prems(3) n len unfolding j by simp
    then have 2: "read_items m (?j @ '']'' @ r) = Some (vs, r)"
      using Cons.IH [of m] Cons.prems(2) False by simp
    have sk: "skip_ws ('', '' @ ?j @ '']'' @ r) = CHR '','' # ('' '' @ ?j @ '']'' @ r)" by (simp add: skip_ws_def)
    have "read_items (Suc m) ((json_dumps v @ '', '' @ ?j) @ '']'' @ r) = Some (v # vs, r)"
      using 1 2 sk skip_ws_sep [OF st, of "'']'' @ r"] by simp
    then show ?thesis unfolding j n .
  qed
qed simp

abbreviation member_text :: "string \<times> json \<Rightarrow> string" where
  "member_text m \<equiv> json_str (fst m) @ '': '' @ json_dumps (snd m)"

lemma read_members_step:
  assumes "reads v" and "json_plain v" and "ends_value r" and "2 * length (json_dumps v) \<le> m"
  shows "read_members (Suc m) (member_text (k, v) @ r) =
    (case r of
       [] \<Rightarrow> None
     | c # t \<Rightarrow>
         if c = CHR ''}'' then Some ([(k, v)], t)
         else if c = CHR '','' then map_option (\<lambda>(ms, u). ((k, v) # ms, u)) (read_members m (skip_ws t))
         else None)"
proof -
  let ?t = "json_dumps v @ r"
  have s: "read_str (concat (map json_char k) @ [DQUOTE] @ '': '' @ ?t) = Some (k, '': '' @ ?t)"
    by (rule read_json_str)
  have c: "skip_ws ('': '' @ ?t) = CHR '':'' # ('' '' @ ?t)" by (simp add: skip_ws_def)
  have v: "read_value m (skip_ws ('' '' @ ?t)) = Some (v, r)"
    using assms skip_ws_sep [OF starts_dumps [OF assms(2)], of r] unfolding reads_def by simp
  have "member_text (k, v) @ r = DQUOTE # (concat (map json_char k) @ [DQUOTE] @ '': '' @ ?t)"
    by (simp add: json_str_def)
  then show ?thesis using s c v skip_ws_ends [OF assms(3)] by simp
qed

lemma read_members_join:
  assumes "ms \<noteq> []" and "\<forall>(k, v) \<in> set ms. reads v \<and> json_plain v"
    and "2 * length (join '', '' (map member_text ms)) + 1 \<le> n"
  shows "read_members n (join '', '' (map member_text ms) @ ''}'' @ r) = Some (ms, r)"
  using assms
proof (induction ms arbitrary: n)
  case (Cons kv ms)
  obtain k v where kv: "kv = (k, v)" by (cases kv)
  obtain m where n: "n = Suc m" using Cons.prems(3) by (cases n) auto
  have v: "reads v" "json_plain v" using Cons.prems(2) kv by auto
  show ?case
  proof (cases "ms = []")
    case True
    have e: "ends_value (''}'' @ r)" by (simp add: ends_value_def)
    have "2 * length (json_dumps v) \<le> m" using Cons.prems(3) True n kv by simp
    from read_members_step [OF v e this, of k] show ?thesis using True n kv by simp
  next
    case False
    let ?j = "join '', '' (map member_text ms)"
    have e: "ends_value ('', '' @ ?j @ ''}'' @ r)" by (simp add: ends_value_def)
    have j: "join '', '' (map member_text (kv # ms)) = member_text (k, v) @ '', '' @ ?j"
      using False kv by (simp add: join_Cons)
    have st: "starts_value ?j"
      using False by (intro starts_join) (auto simp: hd_map starts_value_def json_str_def)
    have l: "2 * length (json_dumps v) \<le> m" "2 * length ?j + 1 \<le> m"
      using Cons.prems(3) n unfolding j by simp_all
    have 2: "read_members m (?j @ ''}'' @ r) = Some (ms, r)"
      using Cons.IH [of m] Cons.prems(2) l(2) False by simp
    have "read_members (Suc m) ((member_text (k, v) @ '', '' @ ?j) @ ''}'' @ r) = Some (kv # ms, r)"
      using read_members_step [OF v e l(1), of k] 2 skip_ws_sep [OF st, of "''}'' @ r"] kv by simp
    then show ?thesis unfolding j n .
  qed
qed simp

lemma foldl_dict_put:
  assumes "distinct (map fst (d @ ms))"
  shows "foldl (\<lambda>m (k, v). dict_put (=) m k v) d ms = d @ ms"
  using assms
proof (induction ms arbitrary: d)
  case (Cons m ms)
  obtain k v where m: "m = (k, v)" by (cases m)
  have "dict_get (=) d k = None" using Cons.prems m by (auto simp: dict_get_eq_None)
  then have "dict_put (=) d k v = d @ [m]" using m by (simp add: dict_put_new)
  with Cons.IH [of "d @ [m]"] Cons.prems m show ?case by simp
qed simp

lemma read_words:
  assumes "2 \<le> n"
  shows "read_value n (''null'' @ r) = Some (JNull, r)" "read_value n (''true'' @ r) = Some (JBool True, r)"
    "read_value n (''false'' @ r) = Some (JBool False, r)"
  using assms by (cases n; simp add: read_literal_def)+

lemma read_object:
  assumes pl: "\<forall>(k, v) \<in> set ms. reads v \<and> json_plain v" and dm: "distinct (map fst ms)"
    and len: "2 * length (json_dumps (JObj ms)) \<le> n"
  shows "read_value n (json_dumps (JObj ms) @ r) = Some (JObj ms, r)"
proof -
  have tx: "json_dumps (JObj ms) = ''{'' @ join '', '' (map member_text ms) @ ''}''"
    by (simp add: comp_def split_beta)
  show ?thesis
  proof (cases "ms = []")
    case True
    with len show ?thesis by (cases n) (simp_all add: skip_ws_def)
  next
    case False
    let ?j = "join '', '' (map member_text ms)"
    obtain m where n: "n = Suc m" using len by (cases n) auto
    have st: "starts_value ?j"
      using False by (intro starts_join) (auto simp: hd_map starts_value_def json_str_def)
    then obtain d t where d: "?j = d # t" "d \<noteq> CHR ''}''" by (cases ?j) (auto simp: starts_value_def)
    have "read_members m (?j @ ''}'' @ r) = Some (ms, r)"
      using pl False len n unfolding tx by (intro read_members_join) simp_all
    then show ?thesis
      using n d starts_value_skip [OF st, of "''}'' @ r"] foldl_dict_put [of "[]" ms] dm unfolding tx by simp
  qed
qed

lemma read_dumps: "json_plain v \<Longrightarrow> reads v"
proof (induction v)
  case (JInt i)
  have "read_value (Suc n) (str_int i @ r) = read_literal (str_int i @ r)" for n r
  proof -
    obtain c t where c: "str_int i = c # t" "is_digit c \<or> c = CHR ''-''"
      using str_nat_hd [of "nat i"] by (cases "i < 0") (auto simp: str_int_def)
    then have "c \<noteq> DQUOTE" "c \<noteq> CHR ''[''" "c \<noteq> CHR ''{''" by (auto simp: is_digit_def)
    with c show ?thesis by simp
  qed
  then show ?case
    using starts_dumps [of "JInt i"] read_literal_int unfolding reads_def
    by (metis json_dumps.simps(3) json_plain.simps(3) le_zero_eq length_0_conv mult_is_0 old.nat.exhaust
        starts_value_def zero_neq_numeral)
next
  case (JStr s)
  have "read_value n (json_str s @ r) = Some (JStr s, r)" if "2 * length (json_str s) \<le> n" for n r
    using that read_json_str [of s r] by (cases n) (simp_all add: json_str_def)
  then show ?case by (simp add: reads_def)
next
  case (JList vs)
  have pl: "\<forall>v \<in> set vs. reads v \<and> json_plain v" using JList by (simp add: list_all_iff)
  have "read_value n (json_dumps (JList vs) @ r) = Some (JList vs, r)"
    if len: "2 * length (json_dumps (JList vs)) \<le> n" for n r
  proof (cases "vs = []")
    case True
    with len show ?thesis by (cases n) (simp_all add: skip_ws_def)
  next
    case False
    let ?j = "join '', '' (map json_dumps vs)"
    obtain m where n: "n = Suc m" using len by (cases n) auto
    have st: "starts_value ?j" using False pl by (intro starts_join) (auto simp: hd_map intro: starts_dumps)
    then obtain d t where d: "?j = d # t" "d \<noteq> CHR '']''" by (cases ?j) (auto simp: starts_value_def)
    have "read_items m (?j @ '']'' @ r) = Some (vs, r)" using pl False len n by (intro read_items_join) simp_all
    then show ?thesis using n d starts_value_skip [OF st, of "'']'' @ r"] by simp
  qed
  then show ?case unfolding reads_def by blast
next
  case (JObj ms)
  have pl: "\<forall>(k, v) \<in> set ms. reads v \<and> json_plain v" and dm: "distinct (map fst ms)"
    using JObj by (fastforce simp: list_all_iff)+
  show ?case unfolding reads_def using read_object [OF pl dm] by blast
qed (auto simp: reads_def read_words [simplified])

lemma json_roundtrip: "json_plain v \<Longrightarrow> json_loads (json_dumps v) = Inr v"
proof -
  assume v: "json_plain v"
  have "read_value (2 * length (json_dumps v) + 2) (json_dumps v @ []) = Some (v, [])"
    by (rule read_dumps [OF v, unfolded reads_def, rule_format]) (simp_all add: ends_value_def)
  then show ?thesis
    using starts_value_skip [OF starts_dumps [OF v], of "[]"] by (simp add: json_loads_def skip_ws_def)
qed

end
