(* ===== verification/Lifecycle.thy ===== *)
theory Lifecycle
  imports Platform Json
begin

text \<open>
  The platform-dependent methods of \<open>Host\<close>, \<open>Node\<close>, \<open>Volume\<close> and \<open>Connection\<close> in
  \<open>src/python/drbdtest.py\<close>, and the beginning and end of a test: following the kernel log,
  checking the installed versions, \<open>Cluster.teardown\<close> and the cleanup at exit.
\<close>

section \<open>Methods of the platform helper\<close>

abbreviation on_platform :: "href \<Rightarrow> 'a prog \<Rightarrow> 'a prog \<Rightarrow> 'a prog" where
  "on_platform h linux windows \<equiv> bindA (getA (\<lambda>w. platform_helper (hosts w h))) (\<lambda>ph.
     case ph of LinuxPlatform \<Rightarrow> linux | WindowsPlatform \<Rightarrow> windows)"

text \<open>The host of a volume.\<close>

definition vol_host :: "world \<Rightarrow> vref \<Rightarrow> href" where
  "vol_host w v = node_host (nodes w (vol_node (vols w v)))"

definition native_filename :: "environment \<Rightarrow> href \<Rightarrow> string \<Rightarrow> string prog" where
  "native_filename E h filename = on_platform h (ret filename) (windows_native_filename E h filename)"

definition linux_device :: "world \<Rightarrow> vref \<Rightarrow> string" where
  "linux_device w v = ''/dev/drbd'' @ str_nat (vol_minor (vols w v))"

definition volume_device :: "environment \<Rightarrow> vref \<Rightarrow> string prog" where
  "volume_device E v = bindA (getA (\<lambda>w. vol_host w v)) (\<lambda>h.
     on_platform h (getA (\<lambda>w. linux_device w v)) (windows_device E v))"

text \<open>On Linux the method calls the property \<open>disk\<close>, a string or \<open>None\<close>.\<close>

definition volume_disk_native :: "vref \<Rightarrow> string option prog" where
  "volume_disk_native v = bindA (getA (\<lambda>w. vol_host w v)) (\<lambda>h.
     on_platform h (raise TypeError) (getA (\<lambda>w. windows_disk_native (vols w v))))"

definition set_disk_online :: "environment \<Rightarrow> vref \<Rightarrow> unit prog" where
  "set_disk_online E v = bindA (getA (\<lambda>w. vol_host w v)) (\<lambda>h.
     on_platform h (ret ()) (windows_set_disk_online E v))"

definition set_disk_offline :: "environment \<Rightarrow> vref \<Rightarrow> unit prog" where
  "set_disk_offline E v = bindA (getA (\<lambda>w. vol_host w v)) (\<lambda>h.
     on_platform h (ret ()) (windows_set_disk_offline E v))"

text \<open>A command on the node of a volume, on Linux.\<close>

definition vol_cmd :: "environment \<Rightarrow> vref \<Rightarrow> (world \<Rightarrow> string list) \<Rightarrow> unit prog" where
  "vol_cmd E v cmd = bindA (getA (\<lambda>w. (vol_node (vols w v), cmd w))) (\<lambda>(n, c). node_cmd E n c)"

definition volume_mkfs :: "environment \<Rightarrow> vref \<Rightarrow> unit prog" where
  "volume_mkfs E v = bindA (getA (\<lambda>w. vol_host w v)) (\<lambda>h.
     on_platform h (vol_cmd E v (\<lambda>w. [''mkfs'', ''-t'', ''ext4'', linux_device w v])) (windows_mkfs E v))"

definition volume_mount :: "environment \<Rightarrow> vref \<Rightarrow> string \<Rightarrow> unit prog" where
  "volume_mount E v where_to = bindA (getA (\<lambda>w. vol_host w v)) (\<lambda>h.
     on_platform h (vol_cmd E v (\<lambda>w. [''mount'', linux_device w v, where_to])) (windows_mount E v where_to))"

definition volume_umount :: "environment \<Rightarrow> vref \<Rightarrow> string \<Rightarrow> bool \<Rightarrow> unit prog" where
  "volume_umount E v where_to set_offline = bindA (getA (\<lambda>w. vol_host w v)) (\<lambda>h.
     on_platform h (vol_cmd E v (\<lambda>_. [''umount'', where_to])) (windows_umount E v where_to set_offline))"

definition volume_wipe_ntfs :: "environment \<Rightarrow> vref \<Rightarrow> unit prog" where
  "volume_wipe_ntfs E v = bindA (getA (\<lambda>w. vol_host w v)) (\<lambda>h.
     on_platform h (ret ()) (windows_wipe_ntfs E v))"

definition after_becoming_primary :: "environment \<Rightarrow> nref \<Rightarrow> unit prog" where
  "after_becoming_primary E n = bindA (getA (\<lambda>w. node_host (nodes w n))) (\<lambda>h.
     on_platform h (ret ()) (windows_after_becoming_primary E n))"

text \<open>\<open>Node.primary\<close> with the helper of its host.\<close>

definition primary :: "environment \<Rightarrow> nref \<Rightarrow> bool \<Rightarrow> bool \<Rightarrow> unit prog" where
  "primary E n force wait = node_primary E (after_becoming_primary E) n force wait"

definition prepare_auto_promote :: "environment \<Rightarrow> nref \<Rightarrow> unit prog" where
  "prepare_auto_promote E n = bindA (getA (\<lambda>w. node_host (nodes w n))) (\<lambda>h.
     on_platform h (ret ()) (windows_prepare_auto_promote E n))"

definition cleanup_auto_demote :: "environment \<Rightarrow> nref \<Rightarrow> unit prog" where
  "cleanup_auto_demote E n = bindA (getA (\<lambda>w. node_host (nodes w n))) (\<lambda>h.
     on_platform h (ret ()) (windows_cleanup_auto_demote E n))"

text \<open>\<open>with AutoPromote(node): body\<close>\<close>

definition auto_promote :: "environment \<Rightarrow> nref \<Rightarrow> unit prog \<Rightarrow> unit prog" where
  "auto_promote E n body = seqA (prepare_auto_promote E n) (finallyA body (cleanup_auto_demote E n))"

text \<open>
  \<open>Node.block_path\<close> passes seven arguments by position; the Windows method takes six, so that
  the call raises there.
\<close>

definition node_block_path ::
  "environment \<Rightarrow> nref \<Rightarrow> nref \<Rightarrow> nat \<Rightarrow> string \<Rightarrow> seconds option \<Rightarrow> seconds option \<Rightarrow> string list \<Rightarrow> unit prog" where
  "node_block_path E n other net jump lead_seconds for_seconds fs =
     bindA (getA (\<lambda>w. node_host (nodes w n))) (\<lambda>h.
       on_platform h (block_path E n other net jump lead_seconds for_seconds fs) (raise TypeError))"

definition node_unblock_path :: "environment \<Rightarrow> nref \<Rightarrow> nref \<Rightarrow> nat \<Rightarrow> string \<Rightarrow> unit prog" where
  "node_unblock_path E n other net jump = bindA (getA (\<lambda>w. node_host (nodes w n))) (\<lambda>h.
     on_platform h (unblock_path E n other net jump) (windows_unblock_path E n other net))"

definition connection_block ::
  "environment \<Rightarrow> conn \<Rightarrow> nat \<Rightarrow> string \<Rightarrow> seconds option \<Rightarrow> seconds option \<Rightarrow> string list \<Rightarrow> unit prog" where
  "connection_block E c net jump lead_seconds for_seconds fs =
     node_block_path E (conn_from c) (conn_to c) net jump lead_seconds for_seconds fs"

definition connection_unblock :: "environment \<Rightarrow> conn \<Rightarrow> nat \<Rightarrow> string \<Rightarrow> unit prog" where
  "connection_unblock E c net jump = node_unblock_path E (conn_from c) (conn_to c) net jump"

definition connections_block ::
  "environment \<Rightarrow> conn oset \<Rightarrow> nat \<Rightarrow> string \<Rightarrow> seconds option \<Rightarrow> seconds option \<Rightarrow> string list \<Rightarrow> unit prog" where
  "connections_block E cs net jump lead_seconds for_seconds fs =
     forA (items cs) (\<lambda>c. connection_block E c net jump lead_seconds for_seconds fs)"

definition connections_unblock :: "environment \<Rightarrow> conn oset \<Rightarrow> nat \<Rightarrow> string \<Rightarrow> unit prog" where
  "connections_unblock E cs net jump = forA (items cs) (\<lambda>c. connection_unblock E c net jump)"

text \<open>\<open>\s*agreed_pro_version: ([0-9]+)\<close> at the start of what the kernel shows.\<close>

definition match_protocol :: "string \<Rightarrow> nat option" where
  "match_protocol s = Option.bind (lit ''agreed_pro_version: '' (dropWhile is_space s)) (\<lambda>r.
     map_option (\<lambda>(ds, _). nat_of_digits ds) (many1 is_digit r))"

definition protocol_version :: "environment \<Rightarrow> conn \<Rightarrow> nat prog" where
  "protocol_version E c =
     bindA (getA (\<lambda>w. ''grep agreed_pro_version: /sys/kernel/debug/drbd/resources/'' @
              res_name (res_of w (conn_from c)) @ ''/connections/'' @
              node_name (nodes w (conn_to c)) @ ''*/debug'')) (\<lambda>cmd.
     bindA (node_stdout E (conn_from c) [''sh'', ''-c'', cmd]) (\<lambda>out.
       liftA (group (match_protocol out))))"

definition protocol_versions :: "environment \<Rightarrow> conn oset \<Rightarrow> nat list prog" where
  "protocol_versions E cs = mapA (items cs) (protocol_version E)"

section \<open>The kernel log\<close>

definition linux_stop_dmesg :: "environment \<Rightarrow> href \<Rightarrow> unit prog" where
  "linux_stop_dmesg E h =
     bindA (getA (\<lambda>w. (dmesg_process (hosts w h), dmesg_pid (hosts w h)))) (\<lambda>(running, pid).
       whenA running (host_cmd E h [''bash'', ''-c'', ''kill $(ps -s '' @ strip pid @ '' -o pid=)'']))"

text \<open>
  \<open>Host.stop_dmesg\<close>. The local process, the thread that reads from it and the file it writes
  are all gone afterwards; only the process is looked at by other code.
\<close>

definition stop_dmesg :: "environment \<Rightarrow> href \<Rightarrow> unit prog" where
  "stop_dmesg E h =
     seqA (on_platform h (linux_stop_dmesg E h) (windows_stop_dmesg E h))
          (upd_host h (\<lambda>x. x\<lparr>dmesg_process := False\<rparr>))"

text \<open>\<open>(BUG:|INFO:|ASSERTION|general protection fault)\<close> anywhere in a line.\<close>

definition unexpected_line :: "string \<Rightarrow> bool" where
  "unexpected_line l \<longleftrightarrow>
     list_ex (\<lambda>p. substr p l) [''BUG:'', ''INFO:'', ''ASSERTION'', ''general protection fault'']"

definition host_teardown :: "environment \<Rightarrow> href \<Rightarrow> bool \<Rightarrow> bool prog" where
  "host_teardown E h validate_dmesg =
     seqA (stop_dmesg E h)
      (if validate_dmesg
       then bindA (getA (\<lambda>w. (host_name (hosts w h), dmesg_text E (trace w) (host_name (hosts w h))))) (\<lambda>(hn, text).
              foldA (split_on (CHR 0x0A) text) (\<lambda>ok line.
                if unexpected_line line
                then seqA (log (''Unexpected log line on '' @ hn @ '': '' @ line)) (ret False)
                else ret ok) True)
       else ret True)"

definition cluster_teardown :: "environment \<Rightarrow> bool \<Rightarrow> unit prog" where
  "cluster_teardown E validate_dmesg =
     bindA (getA cl_hosts) (\<lambda>hs.
     bindA (foldA hs (\<lambda>ok h.
              seqA (host_rmmod E h)
             (bindA (host_teardown E h validate_dmesg) (\<lambda>host_ok. ret (ok \<and> host_ok)))) True) (\<lambda>ok.
       whenA (\<not> ok) (raise (SystemExit 3))))"

section \<open>Cleanup at exit\<close>

text \<open>A local file is written only when there is something to write.\<close>

definition keep_log :: "string \<Rightarrow> string \<Rightarrow> unit prog" where
  "keep_log name text = whenA (text \<noteq> []) (bindA (getA logdir) (\<lambda>d. emit (LocalWrite (path_join d name) text)))"

definition linux_cleanup_framework :: "environment \<Rightarrow> href \<Rightarrow> unit prog" where
  "linux_cleanup_framework E h =
     bindA (host_stdout E h [''journalctl'', ''-u'', ''tlshd'', ''-b'', ''0'', ''-q''] run_defaults) (\<lambda>tlshd_log.
     bindA (getA (\<lambda>w. host_name (hosts w h))) (\<lambda>hn.
     seqA (keep_log (''tlshd-'' @ hn) tlshd_log)
          (host_run_quiet E h cleanup_iptables run_defaults)))"

definition host_cleanup_framework :: "environment \<Rightarrow> href \<Rightarrow> unit prog" where
  "host_cleanup_framework E h =
     seqA (stop_dmesg E h)
    (bindA (getA (\<lambda>w. (selinux_debug w, host_name (hosts w h)))) (\<lambda>(selinux, hn).
     seqA (whenA selinux
             (bindA (host_stdout E h [''cat'', ''/var/log/audit/audit.log'']
                       (run_defaults\<lparr>ro_catch := True\<rparr>)) (\<lambda>audit_log.
                keep_log (''audit-'' @ hn @ ''.log'') audit_log)))
    (seqA (on_platform h (linux_cleanup_framework E h) (ret ()))
          (log (hn @ '': Closing connection to '' @ ssh_host E hn)))))"

text \<open>
  \<open>Cleanup\<close>: the exit hook of an uncaught exception. \<open>output\<close> is the decoded output that a
  \<open>CalledProcessError\<close> carries and \<open>tb\<close> the text of the traceback.
\<close>

definition cleanup_init :: "string \<Rightarrow> unit prog" where
  "cleanup_init mode = whenA (mode = ''never'') (modA (\<lambda>w. w\<lparr>skip_cleanup := True\<rparr>))"

definition cleanup_hook :: "string \<Rightarrow> string option \<Rightarrow> string \<Rightarrow> unit prog" where
  "cleanup_hook mode output tb =
     seqA (whenA (mode = ''success'') (modA (\<lambda>w. w\<lparr>skip_cleanup := True\<rparr>)))
    (seqA (case output of None \<Rightarrow> ret () | Some t \<Rightarrow> log t)
          (log tb))"

text \<open>\<open>Cluster.cleanup\<close>; \<open>uncaught\<close> is the report of an exception that ended the test.\<close>

definition cluster_cleanup :: "environment \<Rightarrow> string option \<Rightarrow> unit prog" where
  "cluster_cleanup E uncaught =
     bindA (getA (\<lambda>w. (skip_cleanup w, cl_hosts w))) (\<lambda>(skip, hs).
     seqA (whenA (\<not> skip) (forA hs (host_cleanup E)))
    (seqA (forA hs (host_cleanup_framework E))
          (case uncaught of
             None \<Rightarrow> ret ()
           | Some report \<Rightarrow> log (NL @ ''test failed:'' @ NL @ report))))"

section \<open>Installed versions\<close>

text \<open>
  \<open>fnmatch.fnmatchcase\<close>: \<open>*\<close>, \<open>?\<close> and bracket expressions with ranges and \<open>!\<close>. A bracket that
  is not closed stands for itself; a closing bracket right after the opening belongs to the set.
\<close>

fun class_has :: "string \<Rightarrow> char \<Rightarrow> bool" where
  "class_has [] c = False"
| "class_has [a] c = (a = c)"
| "class_has [a, b] c = (a = c \<or> b = c)"
| "class_has (a # b # d # r) c =
     (if b = CHR ''-'' then (of_char a :: nat) \<le> of_char c \<and> (of_char c :: nat) \<le> of_char d \<or> class_has r c
      else a = c \<or> class_has (b # d # r) c)"

definition bracket :: "string \<Rightarrow> (bool \<times> string \<times> string) option" where
  "bracket p =
     (let (neg, q) = (case p of c # r \<Rightarrow> if c = CHR ''!'' then (True, r) else (False, p) | [] \<Rightarrow> (False, p));
          (pre, t) = (case q of c # r \<Rightarrow> if c = CHR '']'' then ([c], r) else ([], q) | [] \<Rightarrow> ([], q));
          body = takeWhile (\<lambda>c. c \<noteq> CHR '']'') t in
      if length body < length t then Some (neg, pre @ body, drop (Suc (length body)) t) else None)"

lemma bracket_shorter [termination_simp]: "bracket p = Some (neg, cls, rest) \<Longrightarrow> length rest < Suc (length p)"
  by (auto simp: bracket_def Let_def split: list.splits if_splits)

fun fnmatch :: "string \<Rightarrow> string \<Rightarrow> bool" where
  "fnmatch s [] = (s = [])"
| "fnmatch s (c # p) =
     (if c = CHR ''*'' then fnmatch s p \<or> (case s of [] \<Rightarrow> False | _ # t \<Rightarrow> fnmatch t (c # p))
      else
        (case s of
           [] \<Rightarrow> False
         | x # t \<Rightarrow>
             if c = CHR ''?'' then fnmatch t p
             else if c = CHR ''['' then
               (case bracket p of
                  None \<Rightarrow> x = c \<and> fnmatch t p
                | Some (neg, cls, rest) \<Rightarrow> class_has cls x \<noteq> neg \<and> fnmatch t rest)
             else x = c \<and> fnmatch t p))"

text \<open>The version a host is expected to have, and whether its hash is compared with the others.\<close>

definition expected_version :: "world \<Rightarrow> href \<Rightarrow> string option \<times> bool" where
  "expected_version w h =
     (if truthy_str (cl_drbd_version_other w) \<and> has_other_version (hosts w h) then (cl_drbd_version_other w, False)
      else if truthy_str (cl_drbd_version w) then (cl_drbd_version w, True)
      else (None, False))"

definition quoted :: "string \<Rightarrow> string" where
  "quoted s = [QUOTE] @ s @ [QUOTE]"

definition validate_host :: "href \<Rightarrow> string list \<Rightarrow> string list prog" where
  "validate_host h hashes =
     bindA (getA (\<lambda>w. (expected_version w h, hosts w h))) (\<lambda>((expect, compared), x).
     if truthy_str expect \<and> \<not> fnmatch (drbd_version x) (the expect)
     then raise (RuntimeError (host_name x @ '': expect DRBD version '' @ quoted (the expect) @ ''; found '' @
            quoted (drbd_version x)))
     else ret (if compared then hashes @ [drbd_git_hash x] else hashes))"

definition validate_drbd_versions :: "environment \<Rightarrow> unit prog" where
  "validate_drbd_versions E =
     bindA (getA cl_hosts) (\<lambda>hs.
     bindA (foldA hs (\<lambda>hashes h. validate_host h hashes) []) (\<lambda>git_hashes.
     bindA (getA cl_drbd_version) (\<lambda>v.
       whenA (1 < length (remdups git_hashes))
         (raise (RuntimeError (''Differing git hashes found for DRBD version '' @ quoted (str_opt v) @ '': {'' @
            join '', '' (map quoted (set_order E git_hashes)) @ ''}''))))))"

text \<open>The package is unknown when DRBD is part of the kernel; \<open>f\<close> is the name of the open file.\<close>

definition version_entry :: "environment \<Rightarrow> href \<Rightarrow> (string \<times> json) list \<Rightarrow> (string \<times> json) list prog" where
  "version_entry E h d =
     bindA (tryA (run_helper E h ''installed-drbd-package'' [] None True)
              (\<lambda>e. case e of CalledProcessError _ _ \<Rightarrow> ret (Some []) | _ \<Rightarrow> raise e)) (\<lambda>pkg.
     bindA (getA (\<lambda>w. hosts w h)) (\<lambda>x.
       ret (dict_put (=) d (host_name x)
              (JObj [(''version'', JStr (drbd_version x)), (''git_hash'', JStr (drbd_git_hash x)),
                     (''package'', case pkg of None \<Rightarrow> JNull | Some p \<Rightarrow> JStr p)]))))"

definition write_drbd_versions_meta :: "environment \<Rightarrow> string \<Rightarrow> unit prog" where
  "write_drbd_versions_meta E f =
     bindA (getA cl_hosts) (\<lambda>hs.
     bindA (foldA hs (\<lambda>d h. version_entry E h d) []) (\<lambda>data.
       emit (LocalWrite f (json_dumps (JObj data)))))"

section \<open>Setup\<close>

text \<open>
  \<open>Host.listen_to_events\<close> starts the process whose output is the event stream, in place of an
  earlier one, and opens the file the stream is copied to. \<open>Cluster.listen_to_events\<close> does so for every
  host, and then every host has to report its existing state.
\<close>

definition host_listen_to_events :: "href \<Rightarrow> unit prog" where
  "host_listen_to_events h = bindA (getA (\<lambda>w. host_name (hosts w h))) (\<lambda>hn.
     emit (Spawn hn ''drbdsetup events2 all --statistics --timestamps''))"

definition listen_to_events :: "environment \<Rightarrow> unit prog" where
  "listen_to_events E =
     bindA (getA cl_hosts) (\<lambda>hs. seqA (forA hs host_listen_to_events)
    (seqA (modA (\<lambda>w. w\<lparr>logscan_ready := True\<rparr>))
    (bindA (getA (\<lambda>w. foldl (\<lambda>d h. dict_put (=) d (host_name (hosts w h)) [[]]) [] (cl_hosts w))) (\<lambda>fs.
       ignore (cluster_logscan E [''exists -''] fs [] (event_defaults\<lparr>ev_word_boundary := False\<rparr>))))))"

definition skip_test :: "string \<Rightarrow> 'a prog" where
  "skip_test text = seqA (emit (Print text)) (raise (SystemExit 100))"

text \<open>The command line of a test, as far as the modelled part of \<open>setup\<close> looks at it.\<close>

record setup_args =
  arg_hosts :: "string list"
  arg_job :: string
  arg_resource :: string
  arg_logdir :: string
  arg_cleanup :: string
  arg_volume_group :: string
  arg_transport :: "string option"
  arg_tls :: string
  arg_override_max :: bool
  arg_report_and_quit :: bool
  arg_no_rmmod :: bool
  arg_proxy :: bool
  arg_lz4 :: bool
  arg_zstd :: "int option"
  arg_memlimit :: "nat option"
  arg_storage_backend :: string
  arg_backing_device :: "string option"
  arg_drbd_version :: "string option"
  arg_drbd_version_other :: "string option"
  arg_drbd_other_node :: int
  arg_selinux_debug :: bool

text \<open>\<open>exact\<close>, the argument \<open>nodes\<close>, sets both bounds; a maximum of zero is not reported.\<close>

definition node_bounds :: "nat option \<Rightarrow> nat option \<Rightarrow> nat \<Rightarrow> nat \<times> nat option" where
  "node_bounds exact max_nodes min_nodes =
     (case exact of None \<Rightarrow> (min_nodes, max_nodes) | Some n \<Rightarrow> (n, Some n))"

definition check_nodes :: "setup_args \<Rightarrow> nat \<Rightarrow> nat option \<Rightarrow> unit prog" where
  "check_nodes args min_nodes max_nodes =
     (let n = length (arg_hosts args) in
      seqA (whenA (arg_report_and_quit args)
              (seqA (emit (Print (''min_nodes='' @ str_nat min_nodes)))
              (seqA (case max_nodes of
                       None \<Rightarrow> ret ()
                     | Some m \<Rightarrow> whenA (m \<noteq> 0) (emit (Print (''max_nodes='' @ str_nat m))))
                    (raise (SystemExit 0)))))
     (seqA (whenA (max_nodes = Some min_nodes \<and> n \<noteq> min_nodes)
              (skip_test (''Test case requires '' @ str_nat min_nodes @ '' nodes'')))
     (seqA (whenA (n < min_nodes)
              (skip_test (''Test case requires '' @ str_nat min_nodes @ '' or more nodes'')))
           (case max_nodes of
              None \<Rightarrow> ret ()
            | Some m \<Rightarrow> whenA (m < n \<and> \<not> arg_override_max args)
                (skip_test (''Test case requires '' @ str_nat m @
                   '' or fewer nodes; user --override-max if really meant.''))))))"

definition zstd_level :: "int option \<Rightarrow> nat" where
  "zstd_level z =
     (case z of
        None \<Rightarrow> 0
      | Some k \<Rightarrow> if k = 0 then 0 else if 0 < k \<and> k \<le> 22 then nat k else 3)"

text \<open>The module-level variables and \<open>Cluster.__init__\<close>.\<close>

definition set_globals :: "setup_args \<Rightarrow> unit prog" where
  "set_globals args =
     seqA (modA (\<lambda>w. w\<lparr>no_rmmod := arg_no_rmmod args, proxy_enable := arg_proxy args,
             lz4_enable := arg_lz4 args, zstd_enable := zstd_level (arg_zstd args),
             memlimit := (if truthy_opt (arg_memlimit args) then arg_memlimit args else memlimit w)\<rparr>))
          (cleanup_init (arg_cleanup args))"

definition cluster_init :: "setup_args \<Rightarrow> unit prog" where
  "cluster_init args = modA (\<lambda>w. w\<lparr>job := arg_job args, logdir := arg_logdir args,
     cl_drbd_version := arg_drbd_version args, cl_drbd_version_other := arg_drbd_version_other args,
     cl_resource_name := arg_resource args, cl_transport := arg_transport args, cl_tls := arg_tls args,
     cl_hosts := [], cl_resources := [], logscan_ready := False, selinux_debug := False\<rparr>)"

text \<open>\<open>setup_tls\<close> is \<open>tls.setup_kernel_tls_helper\<close>.\<close>

definition setup_hosts ::
  "environment \<Rightarrow> (href \<Rightarrow> unit prog) \<Rightarrow> setup_args \<Rightarrow> bool \<Rightarrow> string option \<Rightarrow> unit prog" where
  "setup_hosts E start_dmesg args multi_paths ns =
     forA (enumerate 0 (arg_hosts args)) (\<lambda>(i, name).
       bindA (host_init E start_dmesg name (arg_volume_group args) (arg_storage_backend args)
                (arg_backing_device args) 7789 multi_paths ns) (\<lambda>h.
       seqA (modA (\<lambda>w. w\<lparr>cl_hosts := cl_hosts w @ [h]\<rparr>))
            (whenA (truthy_str (arg_drbd_version_other args) \<and> int i = arg_drbd_other_node args)
              (seqA (install_drbd E h (the (arg_drbd_version_other args)))
                    (upd_host h (\<lambda>x. x\<lparr>has_other_version := True\<rparr>))))))"

definition check_selinux :: "environment \<Rightarrow> href \<Rightarrow> unit prog" where
  "check_selinux E h =
     bindA (host_stdout E h [''getenforce''] (run_defaults\<lparr>ro_catch := True\<rparr>)) (\<lambda>g.
       whenA (strip g \<in> {''Enforcing'', ''Permissive''})
         (ignore (run_helper E h ''check-selinux-policydb'' [] None False)))"

definition test_setup ::
  "environment \<Rightarrow> (href \<Rightarrow> unit prog) \<Rightarrow> (href list \<Rightarrow> unit prog) \<Rightarrow> setup_args \<Rightarrow> nat option \<Rightarrow>
   nat option \<Rightarrow> nat \<Rightarrow> bool \<Rightarrow> string option \<Rightarrow> unit prog" where
  "test_setup E start_dmesg setup_tls args exact max_nodes min_nodes multi_paths ns =
     (let (mn, mx) = node_bounds exact max_nodes min_nodes in
      seqA (check_nodes args mn mx)
     (seqA (set_globals args)
     (seqA (cluster_init args)
     (seqA (setup_hosts E start_dmesg args multi_paths ns)
     (bindA (getA cl_hosts) (\<lambda>hs.
      seqA (whenA (arg_tls args = ''yes'') (setup_tls hs))
     (seqA (validate_drbd_versions E)
     (seqA (write_drbd_versions_meta E (path_join (arg_logdir args) ''drbd-versions.json''))
     (seqA (listen_to_events E)
     (seqA (forA hs (disable_faults E))
     (seqA (forA hs (check_selinux E))
           (whenA (arg_selinux_debug args)
             (seqA (modA (\<lambda>w. w\<lparr>selinux_debug := True\<rparr>))
                   (forA hs (\<lambda>h. bindA (getA (\<lambda>w. hostname (hosts w h))) (\<lambda>hn.
                      seqA (log (hn @ '': disabling SELinux dontaudit rules''))
                           (host_cmd E h [''semodule'', ''-DB''])))))))))))))))))"

definition setup_resource ::
  "environment \<Rightarrow> (href \<Rightarrow> unit prog) \<Rightarrow> (href list \<Rightarrow> unit prog) \<Rightarrow> setup_args \<Rightarrow> nat option \<Rightarrow>
   nat option \<Rightarrow> nat \<Rightarrow> bool \<Rightarrow> string option \<Rightarrow> rref prog" where
  "setup_resource E start_dmesg setup_tls args exact max_nodes min_nodes multi_paths ns =
     seqA (test_setup E start_dmesg setup_tls args exact max_nodes min_nodes multi_paths ns)
          (create_resource E None)"

text \<open>\<open>ensure\<close>; \<open>equal_values\<close> is Python's \<open>==\<close> and the representations are given.\<close>

definition ensure :: "bool \<Rightarrow> string \<Rightarrow> string \<Rightarrow> string option \<Rightarrow> unit prog" where
  "ensure equal_values want have_repr explanation =
     whenA (\<not> equal_values)
       (seqA (log (''Wanted '' @ quoted want @ '', but got '' @ quoted have_repr @ ''.'' @ NL))
       (seqA (whenA (truthy_str explanation) (log (the explanation @ NL)))
             (raise (RuntimeError ''assert trigger''))))"

section \<open>A test that passes left no complaint in a kernel log\<close>

text \<open>Time goes on: effects are added to the trace and hosts keep their names.\<close>

definition later :: "world \<Rightarrow> world \<Rightarrow> bool" where
  "later w w' \<longleftrightarrow> (\<exists>es. trace w' = trace w @ es) \<and> (\<forall>h. host_name (hosts w' h) = host_name (hosts w h))"

interpretation lt: step_rel later
  by unfold_locales (auto simp: later_def)

lemma later_effects: "only_effects m \<Longrightarrow> lt.within m"
  by (rule lt.withinI) (metis later_def effects_trace effects_objects objects_eqD(1))

lemma later_upd_host: "(\<And>x. host_name (f x) = host_name x) \<Longrightarrow> lt.within (upd_host h f)"
  unfolding upd_host_def by (rule lt.within_mod) (simp add: later_def)

lemma effects_platform [effect_rules]:
  "only_effects a \<Longrightarrow> only_effects b \<Longrightarrow> only_effects (case ph of LinuxPlatform \<Rightarrow> a | WindowsPlatform \<Rightarrow> b)"
  by (cases ph) simp_all

lemma effects_rmmod: "only_effects (host_rmmod E h)"
proof -
  have re: "only_effects (case e of CalledProcessError k c \<Rightarrow>
       seqA (ignore (host_run E h cmd opts)) (raise (CalledProcessError k c)) | _ \<Rightarrow> raise e)" for e cmd opts
    unfolding ignore_def by (cases e) (simp_all add: effect_rules)
  show ?thesis unfolding host_rmmod_def linux_rmmod_def by (intro effect_rules re)
qed

lemma later_stop_dmesg: "lt.within (stop_dmesg E h)"
proof -
  have "only_effects (on_platform h (linux_stop_dmesg E h) (windows_stop_dmesg E h))"
    unfolding linux_stop_dmesg_def windows_stop_dmesg_def by (intro effect_rules)
  then show ?thesis unfolding stop_dmesg_def by (intro lt.within_seq later_effects later_upd_host) simp_all
qed

lemma scan_lines:
  assumes "foldA ls (\<lambda>ok line. if unexpected_line line
      then seqA (log (f line)) (ret False) else ret ok) ok w = (Inr b, w')"
  shows "b = (ok \<and> \<not> list_ex unexpected_line ls)" and "\<exists>es. trace w' = trace w @ es" and "hosts w' = hosts w"
proof -
  let ?s = "\<lambda>ok line. if unexpected_line line then seqA (log (f line)) (ret False) else ret ok"
  have "b = (ok \<and> \<not> list_ex unexpected_line ls) \<and> (\<exists>es. trace w' = trace w @ es) \<and> hosts w' = hosts w"
    using assms
  proof (induction ls arbitrary: ok w)
    case (Cons l ls)
    obtain k w1 where 1: "?s ok l w = (Inr k, w1)" and 2: "foldA ls ?s k w1 = (Inr b, w')"
      using Cons.prems unfolding foldA.simps by (rule bind_InrE)
    have "k = (ok \<and> \<not> unexpected_line l)" "\<exists>es. trace w1 = trace w @ es" "hosts w1 = hosts w"
      using 1 by (auto simp: emit_def split: if_splits)
    then show ?case using Cons.IH [OF 2] by auto
  qed simp
  then show "b = (ok \<and> \<not> list_ex unexpected_line ls)" "\<exists>es. trace w' = trace w @ es" "hosts w' = hosts w"
    by blast+
qed

text \<open>The captured text of a host has no unexpected line.\<close>

definition log_clean :: "environment \<Rightarrow> effect list \<Rightarrow> string \<Rightarrow> bool" where
  "log_clean E es name \<longleftrightarrow> \<not> list_ex unexpected_line (split_on (CHR 0x0A) (dmesg_text E es name))"

lemma host_teardown_result:
  assumes "host_teardown E h True w = (Inr b, w')"
  shows "\<exists>es rest. trace w' = es @ rest \<and> b = log_clean E es (host_name (hosts w h))" and "later w w'"
proof -
  obtain x w1 where 1: "stop_dmesg E h w = (Inr x, w1)"
    and rest: "foldA (split_on (CHR 0x0A) (dmesg_text E (trace w1) (host_name (hosts w1 h)))) (\<lambda>ok line.
       if unexpected_line line then seqA (log (''Unexpected log line on '' @ host_name (hosts w1 h) @ '': '' @ line)) (ret False)
       else ret ok) True w1 = (Inr b, w')"
    using assms unfolding host_teardown_def by (auto elim!: seq_InrE simp del: foldA.simps)
  have l1: "later w w1" using lt.withinD [OF later_stop_dmesg 1] .
  obtain es where es: "trace w' = trace w1 @ es" using scan_lines(2) [OF rest] ..
  have "b = log_clean E (trace w1) (host_name (hosts w h))"
    using scan_lines(1) [OF rest] l1 by (simp add: log_clean_def later_def)
  then show "\<exists>es rest. trace w' = es @ rest \<and> b = log_clean E es (host_name (hosts w h))" using es by blast
  show "later w w'" using l1 es scan_lines(3) [OF rest] by (auto simp: later_def)
qed

lemma teardown_hosts:
  assumes "foldA hs (\<lambda>ok h. seqA (host_rmmod E h)
      (bindA (host_teardown E h True) (\<lambda>host_ok. ret (ok \<and> host_ok)))) ok w = (Inr b, w')"
  shows "later w w' \<and> (b \<longrightarrow> ok \<and> (\<forall>h \<in> set hs. \<exists>es rest. trace w' = es @ rest \<and> log_clean E es (host_name (hosts w h))))"
  using assms
proof (induction hs arbitrary: ok w)
  case (Cons h hs)
  let ?t = "\<lambda>ok h. bindA (host_teardown E h True) (\<lambda>host_ok. ret (ok \<and> host_ok))"
  obtain k' w2 where s: "seqA (host_rmmod E h) (?t ok h) w = (Inr k', w2)"
    and r2: "foldA hs (\<lambda>ok h. seqA (host_rmmod E h) (?t ok h)) k' w2 = (Inr b, w')"
    using Cons.prems unfolding foldA.simps by (rule bind_InrE)
  obtain x w1 where 1: "host_rmmod E h w = (Inr x, w1)" and t: "?t ok h w1 = (Inr k', w2)"
    using s by (rule seq_InrE)
  obtain k where 2: "host_teardown E h True w1 = (Inr k, w2)" and k': "k' = (ok \<and> k)"
    using t by (rule bind_InrE) simp
  have l1: "later w w1" using lt.withinD [OF later_effects [OF effects_rmmod] 1] .
  have l2: "later w w2" using lt.step_trans [OF l1 host_teardown_result(2) [OF 2]] .
  have ih: "later w2 w'" "b \<Longrightarrow> ok \<and> k" "b \<Longrightarrow> \<forall>h \<in> set hs. \<exists>es rest. trace w' = es @ rest \<and> log_clean E es (host_name (hosts w2 h))"
    using Cons.IH [OF r2] k' by blast+
  obtain es rest where "trace w2 = es @ rest" "k = log_clean E es (host_name (hosts w1 h))"
    using host_teardown_result(1) [OF 2] by blast
  then have "\<exists>es rest. trace w' = es @ rest \<and> log_clean E es (host_name (hosts w h))" if b
    using ih(1,2) that l1 by (force simp: later_def)
  then show ?case using ih l2 lt.step_trans [OF l2 ih(1)] by (simp add: later_def)
qed (simp add: lt.step_refl)


lemma stop_dmesg_idle:
  "\<not> dmesg_process (hosts w h) \<Longrightarrow> stop_dmesg E h w = (Inr (), w\<lparr>hosts := (hosts w)(h := (hosts w h)\<lparr>dmesg_process := False\<rparr>)\<rparr>)"
  by (cases "platform_helper (hosts w h)")
    (simp_all add: stop_dmesg_def linux_stop_dmesg_def windows_stop_dmesg_def upd_host_def seqA_def bindA_def)

text \<open>A cluster whose kernel modules stay loaded and whose logs are not followed.\<close>

definition idle :: "world \<Rightarrow> bool" where
  "idle w \<longleftrightarrow> no_rmmod w \<and> (\<forall>h. \<not> dmesg_process (hosts w h))"

lemma teardown_idle:
  assumes "idle w"
  shows "\<exists>w'. foldA hs (\<lambda>ok h. seqA (host_rmmod ok_env h)
      (bindA (host_teardown ok_env h True) (\<lambda>host_ok. ret (ok \<and> host_ok)))) True w = (Inr True, w')"
  using assms
proof (induction hs arbitrary: w)
  case (Cons h hs)
  let ?w = "w\<lparr>hosts := (hosts w)(h := (hosts w h)\<lparr>dmesg_process := False\<rparr>)\<rparr>"
  have "host_teardown ok_env h True w = (Inr True, ?w)"
    using Cons.prems stop_dmesg_idle [of w h ok_env]
    by (simp add: host_teardown_def idle_def seq_ok ok_env_def unexpected_line_def)
  moreover have "host_rmmod ok_env h w = (Inr (), w)" using Cons.prems by (simp add: host_rmmod_def idle_def)
  ultimately have "seqA (host_rmmod ok_env h) (bindA (host_teardown ok_env h True) (\<lambda>host_ok. ret (True \<and> host_ok))) w = (Inr True, ?w)"
    by (simp add: seqA_def bindA_def)
  moreover have "idle ?w" using Cons.prems by (simp add: idle_def)
  ultimately show ?case using Cons.IH [of ?w] unfolding foldA.simps by (simp only: bind_ok)
qed simp


section \<open>Which versions a cluster may have\<close>

lemma validate_host_result:
  "validate_host h hashes w =
     (if (\<exists>v. fst (expected_version w h) = Some v \<and> v \<noteq> [] \<and> \<not> fnmatch (drbd_version (hosts w h)) v)
      then (Inl (RuntimeError (host_name (hosts w h) @ '': expect DRBD version '' @
              quoted (the (fst (expected_version w h))) @ ''; found '' @ quoted (drbd_version (hosts w h)))), w)
      else (Inr (if snd (expected_version w h) then hashes @ [drbd_git_hash (hosts w h)] else hashes), w))"
  by (cases "expected_version w h") (auto simp: validate_host_def truthy_str_def split: option.splits)

text \<open>Whether the version of a host is the expected one, and the hashes that are compared.\<close>

definition version_ok :: "world \<Rightarrow> href \<Rightarrow> bool" where
  "version_ok w h \<longleftrightarrow>
     (case fst (expected_version w h) of None \<Rightarrow> True | Some v \<Rightarrow> v = [] \<or> fnmatch (drbd_version (hosts w h)) v)"

lemma validate_hosts_result:
  "if list_all (version_ok w) hs
   then foldA hs (\<lambda>hashes h. validate_host h hashes) acc w =
     (Inr (acc @ map (\<lambda>h. drbd_git_hash (hosts w h)) (filter (\<lambda>h. snd (expected_version w h)) hs)), w)
   else \<exists>e. foldA hs (\<lambda>hashes h. validate_host h hashes) acc w = (Inl e, w)"
proof (induction hs arbitrary: acc)
  case (Cons h hs)
  show ?case
  proof (cases "version_ok w h")
    case True
    then have "validate_host h acc w = (Inr (if snd (expected_version w h) then acc @ [drbd_git_hash (hosts w h)] else acc), w)"
      by (auto simp: validate_host_result version_ok_def)
    then show ?thesis
      using True Cons.IH [of "if snd (expected_version w h) then acc @ [drbd_git_hash (hosts w h)] else acc"]
      by (auto simp: bind_ok)
  next
    case False
    then have "\<exists>e. validate_host h acc w = (Inl e, w)"
      by (auto simp: validate_host_result version_ok_def split: option.splits)
    then show ?thesis using False by (auto simp: bind_err)
  qed
qed simp

lemma remdups_short: "length (remdups xs) \<le> 1 \<longleftrightarrow> (\<forall>x \<in> set xs. \<forall>y \<in> set xs. x = y)"
proof -
  have "length (remdups xs) = card (set xs)" by (simp add: length_remdups_card_conv)
  then show ?thesis by (simp add: card_le_Suc0_iff_eq)
qed



section \<open>The file of installed versions\<close>

lemma effects_run_helper: "only_effects (run_helper E h helper args t b)"
  unfolding run_helper_def install_helper_def ignore_def Let_def by (intro effect_rules)

definition entry_of :: "world \<Rightarrow> href \<Rightarrow> json \<Rightarrow> bool" where
  "entry_of w h j \<longleftrightarrow> (\<exists>p. j = JObj [(''version'', JStr (drbd_version (hosts w h))),
     (''git_hash'', JStr (drbd_git_hash (hosts w h))), (''package'', p)] \<and> json_plain p)"

lemma version_entry_result:
  assumes "version_entry E h d w = (Inr d', w')"
  shows "\<exists>j. d' = dict_put (=) d (host_name (hosts w h)) j \<and> entry_of w h j" and "objects w' = objects w"
proof -
  let ?t = "tryA (run_helper E h ''installed-drbd-package'' [] None True)
              (\<lambda>e. case e of CalledProcessError _ _ \<Rightarrow> ret (Some []) | _ \<Rightarrow> raise e)"
  have "only_effects (case e of CalledProcessError _ _ \<Rightarrow> ret (Some []) | _ \<Rightarrow> raise e)" for e
    by (cases e) (simp_all add: effect_rules)
  then have eff: "only_effects ?t" by (intro effect_rules effects_run_helper)
  let ?e = "\<lambda>pkg x. JObj [(''version'', JStr (drbd_version x)), (''git_hash'', JStr (drbd_git_hash x)),
                     (''package'', case pkg of None \<Rightarrow> JNull | Some p \<Rightarrow> JStr p)]"
  obtain pkg w1 where 1: "?t w = (Inr pkg, w1)"
    and r: "bindA (getA (\<lambda>w. hosts w h)) (\<lambda>x. ret (dict_put (=) d (host_name x) (?e pkg x))) w1 = (Inr d', w')"
    using assms unfolding version_entry_def by (rule bind_InrE)
  have 2: "d' = dict_put (=) d (host_name (hosts w1 h)) (?e pkg (hosts w1 h))" "w' = w1"
    using r by auto
  have o: "objects w1 = objects w" using eff 1 by (rule effects_objects)
  then show "objects w' = objects w" using 2 by simp
  have "hosts w1 = hosts w" using o by (rule objects_eqD)
  with 2(1) show "\<exists>j. d' = dict_put (=) d (host_name (hosts w h)) j \<and> entry_of w h j"
    by (auto simp: entry_of_def split: option.splits)
qed

lemma entry_plain: "entry_of w h j \<Longrightarrow> json_plain j"
  by (auto simp: entry_of_def)

lemma version_entries:
  assumes "foldA hs (\<lambda>d h. version_entry E h d) d w = (Inr d', w')"
    and "distinct (map fst d @ map (\<lambda>h. host_name (hosts w h)) hs)"
  shows "objects w' = objects w \<and> (\<exists>js. d' = d @ zip (map (\<lambda>h. host_name (hosts w h)) hs) js \<and> list_all2 (entry_of w) hs js)"
  using assms
proof (induction hs arbitrary: d w)
  case (Cons h hs)
  let ?k = "host_name (hosts w h)"
  obtain d1 w1 where 1: "version_entry E h d w = (Inr d1, w1)"
    and r: "foldA hs (\<lambda>d h. version_entry E h d) d1 w1 = (Inr d', w')"
    using Cons.prems(1) unfolding foldA.simps by (rule bind_InrE)
  obtain j where j: "d1 = dict_put (=) d ?k j" "entry_of w h j" using version_entry_result(1) [OF 1] by blast
  have ob: "objects w1 = objects w" using version_entry_result(2) [OF 1] .
  then have hw: "hosts w1 = hosts w" by (rule objects_eqD)
  have "dict_get (=) d ?k = None" using Cons.prems(2) by (auto simp: dict_get_eq_None)
  then have d1: "d1 = d @ [(?k, j)]" using j(1) by (simp add: dict_put_new)
  have "distinct (map fst d1 @ map (\<lambda>h. host_name (hosts w1 h)) hs)" using Cons.prems(2) d1 hw by auto
  from Cons.IH [OF r this] obtain js where js: "objects w' = objects w1"
    "d' = d1 @ zip (map (\<lambda>h. host_name (hosts w1 h)) hs) js" "list_all2 (entry_of w1) hs js" by blast
  have eo: "entry_of w1 = entry_of w" using hw by (intro ext) (simp add: entry_of_def)
  have "d' = d @ zip (map (\<lambda>h. host_name (hosts w h)) (h # hs)) (j # js) \<and> list_all2 (entry_of w) (h # hs) (j # js)"
    using js(2,3) d1 hw j(2) unfolding eo by simp
  then show ?case using js(1) ob by metis
qed simp

text \<open>
  C20: The file \<open>drbd-versions.json\<close> that \<open>write_drbd_versions_meta\<close> leaves can be read back: it
  parses to an object with one entry for every host, in their order, that holds the DRBD version
  and source hash the host reported (host names being distinct).
\<close>
theorem versions_meta_roundtrip:
  assumes "write_drbd_versions_meta E f w = (Inr (), w')" and "distinct (map (\<lambda>h. host_name (hosts w h)) (cl_hosts w))"
  shows "\<exists>t js. last (trace w') = LocalWrite f t \<and>
     json_loads t = Inr (JObj (zip (map (\<lambda>h. host_name (hosts w h)) (cl_hosts w)) js)) \<and>
     length js = length (cl_hosts w) \<and>
     (\<forall>i < length js. json_get (js ! i) ''version'' = Inr (JStr (drbd_version (hosts w (cl_hosts w ! i)))) \<and>
        json_get (js ! i) ''git_hash'' = Inr (JStr (drbd_git_hash (hosts w (cl_hosts w ! i)))))"
proof -
  obtain d w1 where 1: "foldA (cl_hosts w) (\<lambda>d h. version_entry E h d) [] w = (Inr d, w1)"
    and w': "w' = w1\<lparr>trace := trace w1 @ [LocalWrite f (json_dumps (JObj d))]\<rparr>"
    using assms(1) unfolding write_drbd_versions_meta_def by (auto elim!: bind_InrE simp: emit_def)
  obtain js where js: "d = zip (map (\<lambda>h. host_name (hosts w h)) (cl_hosts w)) js" "list_all2 (entry_of w) (cl_hosts w) js"
    using version_entries [OF 1] assms(2) by auto
  have len: "length js = length (cl_hosts w)" using js(2) by (simp add: list_all2_lengthD)
  have pl: "json_plain (js ! i)" if "i < length js" for i
    using js(2) that by (intro entry_plain) (auto simp: list_all2_conv_all_nth)
  have "json_plain (JObj d)"
    using pl assms(2) len unfolding js(1)
    by (auto simp: list_all_iff map_fst_zip in_set_zip) 
  then have "json_loads (json_dumps (JObj d)) = Inr (JObj d)" by (rule json_roundtrip)
  moreover have "json_get (js ! i) ''version'' = Inr (JStr (drbd_version (hosts w (cl_hosts w ! i)))) \<and>
        json_get (js ! i) ''git_hash'' = Inr (JStr (drbd_git_hash (hosts w (cl_hosts w ! i))))" if "i < length js" for i
    using js(2) that by (auto simp: list_all2_conv_all_nth entry_of_def json_get_def)
  ultimately show ?thesis using len unfolding w' js(1) by auto
qed

lemma run_helper_ok_env: "\<exists>w'. run_helper ok_env h helper args t True w = (Inr (Some []), w')"
  by (simp add: run_helper_def install_helper_def ignore_def host_run_def ssh_exec_def ok_env_def run_defaults_def Let_def
      bindA_def seqA_def getA_def emit_def modA_def ret_def liftA_def strip_def lstrip_def)

lemma version_entry_ok_env: "\<exists>d' w'. version_entry ok_env h d w = (Inr d', w')"
proof -
  obtain w' where "run_helper ok_env h ''installed-drbd-package'' [] None True w = (Inr (Some []), w')"
    using run_helper_ok_env by blast
  then show ?thesis by (simp add: version_entry_def tryA_def bindA_def)
qed

theorem versions_meta_roundtrip_witness:
  "\<exists>w' t js. write_drbd_versions_meta ok_env ''f'' two_nodes = (Inr (), w') \<and> last (trace w') = LocalWrite ''f'' t \<and>
     json_loads t = Inr (JObj (zip [''vm'' @ str_nat 0, ''vm'' @ str_nat 1] js)) \<and>
     json_get (js ! 1) ''version'' = Inr (JStr ''9.2.4'')"
proof -
  have hs: "cl_hosts two_nodes = [0, 1]" "host_name (hosts two_nodes h) = ''vm'' @ str_nat h"
    "drbd_version (hosts two_nodes h) = ''9.2.4''" for h
    by (simp_all add: two_nodes_def empty_cluster_def sample_host_def)
  obtain d1 w1 where 1: "version_entry ok_env 0 [] two_nodes = (Inr d1, w1)" using version_entry_ok_env by blast
  obtain d2 w2 where 2: "version_entry ok_env 1 d1 w1 = (Inr d2, w2)" using version_entry_ok_env by blast
  obtain w' where run: "write_drbd_versions_meta ok_env ''f'' two_nodes = (Inr (), w')"
    by (simp add: write_drbd_versions_meta_def hs(1) bindA_def 1 2 [unfolded One_nat_def] emit_def)
  have "distinct (map (\<lambda>h. host_name (hosts two_nodes h)) (cl_hosts two_nodes))" by (simp add: hs(1,2))
  from versions_meta_roundtrip [OF run this] run show ?thesis by (force simp: hs)
qed

section \<open>The number of hosts\<close>

lemma skip_test_exit [simp]: "fst (skip_test t w) = Inl (SystemExit 100)"
  by (simp add: skip_test_def emit_def)

lemma skip_test_seq [simp]: "fst (seqA (skip_test t) m w) = Inl (SystemExit 100)"
  by (simp add: skip_test_def emit_def seqA_def bindA_def)

text \<open>
  C22: A test starts only with a number of hosts it can use: \<open>setup\<close> goes on exactly when there are
  at least as many hosts as the minimum and at most as many as the maximum, where
  \<open>--override-max\<close> lifts the maximum unless the test asks for an exact number. Otherwise it
  leaves with status 100, which marks the test as skipped, and with status 0 when it was only
  asked to report the bounds.
\<close>
theorem check_nodes_exact:
  "fst (check_nodes args mn mx w) =
     (if arg_report_and_quit args then Inl (SystemExit 0)
      else if mn \<le> length (arg_hosts args) \<and>
        (\<forall>m. mx = Some m \<longrightarrow> length (arg_hosts args) \<le> m \<or> arg_override_max args \<and> m \<noteq> mn)
      then Inr () else Inl (SystemExit 100))"
proof -
  show ?thesis
  proof (cases "arg_report_and_quit args")
    case True
    then show ?thesis
      by (cases mx; cases "the mx = 0") (simp_all add: check_nodes_def emit_def Let_def seqA_def bindA_def)
  next
    case False
    let ?n = "length (arg_hosts args)"
    show ?thesis
    proof (cases mx)
      case None
      then show ?thesis using False by (cases "?n < mn") (simp_all add: check_nodes_def Let_def)
    next
      case (Some m)
      consider "m = mn" "?n \<noteq> mn" | "m = mn" "?n = mn" | "m \<noteq> mn" "?n < mn" | "m \<noteq> mn" "mn \<le> ?n" by linarith
      then show ?thesis
        by cases (use False Some in \<open>auto simp: check_nodes_def Let_def\<close>)
    qed
  qed
qed

theorem check_nodes_exact_witness:
  "fst (check_nodes \<lparr>arg_hosts = [''a'', ''b'', ''c''], arg_job = [], arg_resource = [], arg_logdir = [], arg_cleanup = [],
     arg_volume_group = [], arg_transport = None, arg_tls = [], arg_override_max = False, arg_report_and_quit = False,
     arg_no_rmmod = False, arg_proxy = False, arg_lz4 = False, arg_zstd = None, arg_memlimit = None,
     arg_storage_backend = [], arg_backing_device = None, arg_drbd_version = None, arg_drbd_version_other = None,
     arg_drbd_other_node = 0, arg_selinux_debug = False\<rparr> 2 (Some 4) two_nodes) = Inr ()"
  by (subst check_nodes_exact) simp

end
