(* ===== verification/Object_Methods.thy ===== *)
theory Object_Methods
  imports Lifecycle
begin

text \<open>
  Methods of a single \<open>Node\<close>, \<open>Volume\<close>, \<open>Connection\<close> or \<open>PeerDevice\<close> of \<open>src/python/drbdtest.py\<close> that
  build a collection of one member and call the collection's method, how these objects are shown in
  messages, small operations of \<open>Resource\<close>, \<open>Cluster\<close> and \<open>PeerDevices\<close>, and the general methods of
  \<open>Collection\<close> (indexing, slices, forwarding of unknown attributes to the members).
\<close>

section \<open>Collections of one\<close>

definition single_volume :: "vref \<Rightarrow> vref oset prog" where
  "single_volume v = exprA (\<lambda>w. Volumes w [v])"

definition single_connection :: "conn \<Rightarrow> conn oset prog" where
  "single_connection c = exprA (\<lambda>w. Connections w [c])"

definition single_peer_device :: "peer_device \<Rightarrow> peer_device oset prog" where
  "single_peer_device p = exprA (\<lambda>w. PeerDevices w [p])"

section \<open>Volume\<close>

definition volume_repr :: "world \<Rightarrow> vref \<Rightarrow> string" where
  "volume_repr w v = node_repr w (vol_node (vols w v)) @ '':'' @ str_nat (vol_number (vols w v))"

definition volume_event :: "environment \<Rightarrow> vref \<Rightarrow> string list \<Rightarrow> event_opts \<Rightarrow> string list prog" where
  "volume_event E v yes opts = bindA (single_volume v) (\<lambda>vs. volumes_event E vs yes opts)"

definition volume_attach :: "environment \<Rightarrow> vref \<Rightarrow> unit prog" where
  "volume_attach E v = bindA (single_volume v) (volumes_attach E)"

definition volume_detach :: "environment \<Rightarrow> vref \<Rightarrow> bool \<Rightarrow> unit prog" where
  "volume_detach E v force = bindA (single_volume v) (\<lambda>vs. volumes_detach E vs force)"

section \<open>Connection\<close>

definition connection_repr :: "world \<Rightarrow> conn \<Rightarrow> string" where
  "connection_repr w c = node_name (nodes w (conn_from c)) @ '':'' @ node_name (nodes w (conn_to c))"

definition connection_event :: "environment \<Rightarrow> conn \<Rightarrow> string list \<Rightarrow> event_opts \<Rightarrow> string list prog" where
  "connection_event E c yes opts = bindA (single_connection c) (\<lambda>cs. connections_event E cs yes opts)"

definition connection_connect :: "environment \<Rightarrow> conn \<Rightarrow> bool \<Rightarrow> string list \<Rightarrow> unit prog" where
  "connection_connect E c wait options = bindA (single_connection c) (\<lambda>cs. connections_connect E cs wait options)"

definition connection_disconnect :: "environment \<Rightarrow> conn \<Rightarrow> bool \<Rightarrow> bool \<Rightarrow> unit prog" where
  "connection_disconnect E c wait force = bindA (single_connection c) (\<lambda>cs. connections_disconnect E cs wait force)"

section \<open>PeerDevice\<close>

definition peer_device_repr :: "world \<Rightarrow> peer_device \<Rightarrow> string" where
  "peer_device_repr w p = connection_repr w (pd_conn p) @ '':'' @ str_nat (vol_number (vols w (pd_volume p)))"

definition peer_device_event :: "environment \<Rightarrow> peer_device \<Rightarrow> string list \<Rightarrow> event_opts \<Rightarrow> string list prog" where
  "peer_device_event E p yes opts = bindA (single_peer_device p) (\<lambda>ps. peer_devices_event E ps yes opts)"

text \<open>The list of options is one argument of the command, so the target is sent its \<open>str\<close>.\<close>

definition str_list :: "string list \<Rightarrow> string" where
  "str_list xs = ''['' @ join '', '' (map quoted xs) @ '']''"

definition peer_devices_options :: "environment \<Rightarrow> peer_device oset \<Rightarrow> string list \<Rightarrow> unit prog" where
  "peer_devices_options E ps opts = forA (items ps) (\<lambda>p.
     bindA (getA (\<lambda>w. [''peer-device-options'',
              res_name (ress w (pd_res w p)) @ '':'' @ hostname (host_of w (conn_to (pd_conn p))), str_list opts]))
       (node_drbdadm E (conn_from (pd_conn p))))"

definition peer_device_options :: "environment \<Rightarrow> peer_device \<Rightarrow> string list \<Rightarrow> unit prog" where
  "peer_device_options E p opts = bindA (single_peer_device p) (\<lambda>ps. peer_devices_options E ps opts)"

text \<open>\<open>PeerDevices([self]).verify(self, wait, options)\<close>: one argument too many for the method.\<close>

definition peer_device_verify :: "environment \<Rightarrow> peer_device \<Rightarrow> bool \<Rightarrow> string list \<Rightarrow> unit prog" where
  "peer_device_verify E p wait options = bindA (single_peer_device p) (\<lambda>_. raise TypeError)"

section \<open>Node\<close>

definition node_up_wait :: "environment \<Rightarrow> nref \<Rightarrow> string list \<Rightarrow> unit prog" where
  "node_up_wait E n extra = node_up E n extra"

definition node_attach :: "environment \<Rightarrow> nref \<Rightarrow> unit prog" where
  "node_attach E n = bindA (exprA (\<lambda>w. node_volumes w n)) (volumes_attach E)"

definition node_detach :: "environment \<Rightarrow> nref \<Rightarrow> bool \<Rightarrow> unit prog" where
  "node_detach E n force = bindA (exprA (\<lambda>w. node_volumes w n)) (\<lambda>vs. volumes_detach E vs force)"

definition node_new_resource :: "environment \<Rightarrow> nref \<Rightarrow> unit prog" where
  "node_new_resource E n = bindA (single_node n) (nodes_new_resource E)"

definition node_new_minor :: "environment \<Rightarrow> nref \<Rightarrow> unit prog" where
  "node_new_minor E n = bindA (single_node n) (nodes_new_minor E)"

definition node_new_peer :: "environment \<Rightarrow> nref \<Rightarrow> unit prog" where
  "node_new_peer E n = bindA (single_node n) (nodes_new_peer E)"

definition node_resource_options :: "environment \<Rightarrow> nref \<Rightarrow> string list \<Rightarrow> unit prog" where
  "node_resource_options E n opts = bindA (single_node n) (\<lambda>ns. nodes_resource_options E ns opts)"

definition node_peer_device_options :: "environment \<Rightarrow> nref \<Rightarrow> unit prog" where
  "node_peer_device_options E n = bindA (single_node n) (\<lambda>ns. nodes_peer_device_options E ns [])"

definition node_new_path :: "environment \<Rightarrow> nref \<Rightarrow> (nref \<times> nat) option \<Rightarrow> unit prog" where
  "node_new_path E n peer = bindA (single_node n) (\<lambda>ns. nodes_new_path E ns peer)"

definition node_del_path :: "environment \<Rightarrow> nref \<Rightarrow> (nref \<times> nat) option \<Rightarrow> unit prog" where
  "node_del_path E n peer = bindA (single_node n) (\<lambda>ns. nodes_del_path E ns peer)"

definition node_up_unconnected :: "environment \<Rightarrow> nref \<Rightarrow> unit prog" where
  "node_up_unconnected E n = bindA (single_node n) (nodes_up_unconnected E)"

definition node_connect :: "environment \<Rightarrow> nref \<Rightarrow> nref \<Rightarrow> unit prog" where
  "node_connect E n peer = bindA (Connection n peer) (\<lambda>c. connection_connect E c True [])"

definition node_disconnect :: "environment \<Rightarrow> nref \<Rightarrow> nref \<Rightarrow> bool \<Rightarrow> unit prog" where
  "node_disconnect E n peer wait = bindA (Connection n peer) (\<lambda>c. connection_disconnect E c wait False)"

definition node_peer_devices_by_vnr :: "world \<Rightarrow> nref \<Rightarrow> nat \<Rightarrow> exn + peer_device oset" where
  "node_peer_devices_by_vnr w n vnr =
     (case peer_devices_by_vnr w (node_res w n) vnr of
        Inl e \<Rightarrow> Inl e
      | Inr ps \<Rightarrow> PeerDevices w (filter (\<lambda>p. vol_node (vols w (pd_volume p)) = n) (items ps)))"

definition dump_md_to_file :: "environment \<Rightarrow> nref \<Rightarrow> string \<Rightarrow> unit prog" where
  "dump_md_to_file E n filename =
     bindA (getA (\<lambda>w. [''/bin/bash'', ''-c'', ''drbdadm -c '' @ drbd_global_config_file_path w (node_host (nodes w n)) @
              '' dump-md '' @ res_name (res_of w n) @ '' > '' @ filename])) (node_cmd E n)"

section \<open>Resource and Cluster\<close>

definition log_sync_mark :: "environment \<Rightarrow> rref \<Rightarrow> string list \<Rightarrow> unit prog" where
  "log_sync_mark E r args =
     seqA (log (join '' '' args))
    (bindA (getA (\<lambda>w. res_nodes (ress w r))) (\<lambda>ns.
       nodes_run E ns [''bash'', ''-c'', ''echo '' @ [DQUOTE] @ ''== '' @ [DQUOTE] @ '' '' @
         shlex_quote (join '' '' args) @ '' > /dev/kmsg'']))"

definition cluster_remove_storage_pool :: "environment \<Rightarrow> unit prog" where
  "cluster_remove_storage_pool E = bindA (getA cl_hosts) (\<lambda>hs. forA hs (host_remove_storage_pool E))"

section \<open>Shown names identify\<close>

text \<open>
  The text of a connection determines its end points, and with the volume number a peer device, when
  node names have no colon and differ.
\<close>

definition plain_names :: "world \<Rightarrow> bool" where
  "plain_names w \<longleftrightarrow> (\<forall>n. CHR '':'' \<notin> set (node_name (nodes w n))) \<and>
     (\<forall>m n. node_name (nodes w m) = node_name (nodes w n) \<longrightarrow> m = n)"

lemma append_sep_cancel:
  "c \<notin> set p \<Longrightarrow> c \<notin> set q \<Longrightarrow> p @ c # s = q @ c # t \<Longrightarrow> p = q \<and> s = t"
proof (induction p arbitrary: q)
  case Nil
  then show ?case by (cases q) auto
next
  case (Cons x p)
  then show ?case by (cases q) auto
qed

lemma connection_repr_inject:
  assumes "plain_names w" and "connection_repr w c = connection_repr w d"
  shows "conn_eq c d"
proof -
  have free: "CHR '':'' \<notin> set (node_name (nodes w n))" for n using assms(1) by (simp add: plain_names_def)
  have "node_name (nodes w (conn_from c)) @ CHR '':'' # node_name (nodes w (conn_to c)) =
      node_name (nodes w (conn_from d)) @ CHR '':'' # node_name (nodes w (conn_to d))"
    using assms(2) by (simp add: connection_repr_def)
  then have "node_name (nodes w (conn_from c)) = node_name (nodes w (conn_from d)) \<and>
      node_name (nodes w (conn_to c)) = node_name (nodes w (conn_to d))"
    by (rule append_sep_cancel [OF free free])
  then show ?thesis using assms(1) by (simp add: plain_names_def conn_eq_def)
qed

text \<open>A single peer device cannot be verified: every call that gets as far as the collection raises.\<close>

lemma peer_device_verify_raises: "fst (peer_device_verify E p wait options w) = Inl TypeError"
  by (simp add: peer_device_verify_def single_peer_device_def exprA_def bind_assoc PeerDevices_def coll_init_def
      same_resource_def Let_def lift_Inr raise_def pdk.items_init)

section \<open>The general methods of a collection\<close>

text \<open>\<open>__getitem__\<close> with a number and with a slice, \<open>__repr__\<close>, and \<open>__getattr__\<close>: \<open>methods\<close> gives the functions of the
  class of the members by name, and the function found is called on each member in turn.\<close>

definition coll_item :: "'a oset \<Rightarrow> int \<Rightarrow> exn + 'a" where
  "coll_item ms i = list_item (items ms) i"

definition coll_slice ::
  "('a \<Rightarrow> 'a \<Rightarrow> bool) \<Rightarrow> ('a \<Rightarrow> rref) \<Rightarrow> 'a oset \<Rightarrow> int option \<Rightarrow> int option \<Rightarrow> exn + 'a oset" where
  "coll_slice eq res ms i j = coll_init eq res (list_slice (items ms) i j)"

definition coll_repr :: "('a \<Rightarrow> string) \<Rightarrow> 'a oset \<Rightarrow> string" where
  "coll_repr str_of ms = join '' '' (map str_of (items ms))"

definition coll_getattr :: "(string \<Rightarrow> ('a \<Rightarrow> unit prog) option) \<Rightarrow> string \<Rightarrow> 'a oset \<Rightarrow> unit prog" where
  "coll_getattr methods name ms =
     (case methods name of None \<Rightarrow> raise AttributeError | Some f \<Rightarrow> forA (items ms) f)"

lemma list_slice_split: "list_slice xs None (Some k) @ list_slice xs (Some k) None = xs"
  by (simp add: list_slice_def slice_bound_def Let_def)

lemma coll_slice_from: "coll_slice eq res ms (Some (int i)) None = coll_from eq res ms i"
proof -
  have "list_slice xs (Some (int i)) None = drop i xs" for xs :: "'a list"
    by (cases "i \<le> length xs") (simp_all add: list_slice_def slice_bound_def Let_def)
  then show ?thesis by (simp add: coll_slice_def coll_from_def)
qed

lemma coll_slice_to: "coll_slice eq res ms None (Some (int j)) = coll_to eq res ms j"
proof -
  have "list_slice xs None (Some (int j)) = take j xs" for xs :: "'a list"
    by (cases "j \<le> length xs") (simp_all add: list_slice_def slice_bound_def Let_def)
  then show ?thesis by (simp add: coll_slice_def coll_to_def)
qed

text \<open>Without its last \<open>k\<close> members, the collection has as many members less, down to none.\<close>

lemma length_list_slice_neg: "0 < k \<Longrightarrow> length (list_slice xs None (Some (- int k))) = length xs - k"
  by (simp add: list_slice_def slice_bound_def Let_def flip: nat_minus_as_int)

end
