(* ===== verification/Traffic_Control.thy ===== *)
theory Traffic_Control
  imports Lifecycle
begin

text \<open>
  Slow networks: \<open>src/python/trafficcontrol.py\<close> and \<open>Host.net_device_to_peer\<close> of
  \<open>src/python/drbdtest.py\<close>. A \<open>TrafficControl\<close> object keeps the node whose packets are delayed
  and the nodes they go to. The collection is the one of the resource; the users of the class do
  not change it in between, so the object holds its value.
\<close>

section \<open>Devices\<close>

definition net_device_to_peer :: "environment \<Rightarrow> href \<Rightarrow> href \<Rightarrow> nat \<Rightarrow> string prog" where
  "net_device_to_peer E h peer_host net_num =
     bindA (exprA (\<lambda>w. list_item (addrs (hosts w peer_host)) (int net_num))) (\<lambda>a.
     bindA (host_stdout E h [''ip'', ''-o'', ''route'', ''get'', a] run_defaults) (\<lambda>out.
       liftA (list_item (split_on (CHR '' '') out) 2)))"

record traffic_control =
  source_node :: nref
  tc_nodes :: "nref oset"

type_synonym nodes_by_dev = "(string \<times> nat \<times> nref list) list"

text \<open>The body of the loops of \<open>_get_nodes_by_dev\<close> once the device is known; \<open>who\<close> shows the node.\<close>

definition note_device ::
  "string \<Rightarrow> nat \<Rightarrow> nref \<Rightarrow> string \<Rightarrow> nodes_by_dev \<Rightarrow> exn + nodes_by_dev" where
  "note_device who net_num n dev d0 =
     (let d = (case dict_get (=) d0 dev of None \<Rightarrow> dict_put (=) d0 dev (net_num, []) | Some _ \<Rightarrow> d0) in
      case dict_get (=) d dev of
        None \<Rightarrow> Inl KeyError
      | Some (dev_net_num, ns) \<Rightarrow>
          if dev_net_num \<noteq> net_num
          then Inl (RuntimeError (who @ '': network '' @ str_nat net_num @ '' and '' @
                 str_nat dev_net_num @ '' use same device '' @ dev))
          else Inr (dict_put (=) d dev (dev_net_num, ns @ [n])))"

definition device_step ::
  "environment \<Rightarrow> nref \<Rightarrow> nodes_by_dev \<Rightarrow> nat \<times> nref \<Rightarrow> nodes_by_dev prog" where
  "device_step E source d = (\<lambda>(net_num, n).
     if n = source then ret d
     else bindA (getA (\<lambda>w. (node_host (nodes w source), node_host (nodes w n)))) (\<lambda>(h, peer).
          bindA (net_device_to_peer E h peer net_num) (\<lambda>dev.
            exprA (\<lambda>w. note_device (node_repr w n) net_num n dev d))))"

definition get_nodes_by_dev :: "environment \<Rightarrow> traffic_control \<Rightarrow> nodes_by_dev prog" where
  "get_nodes_by_dev E tc =
     bindA (getA (\<lambda>w. length (addrs (host_of w (source_node tc))))) (\<lambda>k.
       foldA (List.product [0..<k] (items (tc_nodes tc))) (device_step E (source_node tc)) [])"

section \<open>The object\<close>

definition node_to_class :: "world \<Rightarrow> nref \<Rightarrow> string" where
  "node_to_class w n = ''1:'' @ str_nat (node_id (nodes w n) + 1)"

definition node_to_handle :: "world \<Rightarrow> nref \<Rightarrow> string" where
  "node_to_handle w n = str_nat (node_id (nodes w n) + 100) @ '':''"

definition filter_command :: "world \<Rightarrow> string \<Rightarrow> string \<Rightarrow> nref \<Rightarrow> string list" where
  "filter_command w dev ip n =
     [''tc'', ''filter'', ''add'', ''dev'', dev, ''parent'', ''1:'', ''protocol'', ''ip'', ''prio'', ''1'',
      ''u32'', ''match'', ''ip'', ''dst'', ip, ''flowid'', node_to_class w n]"

definition prio_command :: "world \<Rightarrow> traffic_control \<Rightarrow> string \<Rightarrow> string list" where
  "prio_command w tc dev =
     [''tc'', ''qdisc'', ''replace'', ''dev'', dev, ''root'', ''handle'', ''1:'', ''prio'',
      ''bands'', str_nat (os_len (tc_nodes tc)), ''priomap''] @
     replicate 16 (str_nat (node_id (nodes w (source_node tc))))"

definition tc_filter :: "environment \<Rightarrow> traffic_control \<Rightarrow> string \<Rightarrow> nat \<Rightarrow> nref \<Rightarrow> unit prog" where
  "tc_filter E tc dev net_num n =
     bindA (exprA (\<lambda>w. list_item (addrs (host_of w n)) (int net_num))) (\<lambda>ip.
     bindA (getA (\<lambda>w. ''Traffic control for net '' @ str_nat net_num @ '' from '' @
              node_repr w (source_node tc) @ '' to '' @ node_repr w n @ '' uses '' @ dev @ '' ('' @ ip @ '')'')) (\<lambda>msg.
     seqA (log msg)
       (bindA (getA (\<lambda>w. filter_command w dev ip n)) (node_cmd E (source_node tc)))))"

definition tc_device :: "environment \<Rightarrow> traffic_control \<Rightarrow> string \<times> nat \<times> nref list \<Rightarrow> unit prog" where
  "tc_device E tc = (\<lambda>(dev, net_num, ns).
     seqA (tryA (node_cmd E (source_node tc) [''tc'', ''qdisc'', ''del'', ''dev'', dev, ''root''])
             (\<lambda>e. case e of CalledProcessError _ _ \<Rightarrow> ret () | _ \<Rightarrow> raise e))
    (seqA (bindA (getA (\<lambda>w. prio_command w tc dev)) (node_cmd E (source_node tc)))
          (forA ns (tc_filter E tc dev net_num))))"

definition tc_init :: "environment \<Rightarrow> nref \<Rightarrow> nref oset \<Rightarrow> traffic_control prog" where
  "tc_init E source ns =
     (let tc = \<lparr>source_node = source, tc_nodes = ns\<rparr> in
      bindA (get_nodes_by_dev E tc) (\<lambda>d.
      seqA (forA d (tc_device E tc)) (ret tc)))"

definition tc_reset :: "environment \<Rightarrow> traffic_control \<Rightarrow> unit prog" where
  "tc_reset E tc = bindA (get_nodes_by_dev E tc) (\<lambda>d.
     forA (map fst d) (\<lambda>dev.
       node_cmd E (source_node tc) [''tc'', ''qdisc'', ''del'', ''dev'', dev, ''root'']))"

definition netem_args :: "string \<Rightarrow> string \<Rightarrow> string list" where
  "netem_args speed delay =
     (if delay \<noteq> [] then [''delay'', delay] else []) @ (if speed \<noteq> [] then [''rate'', speed] else [])"

definition slow_down :: "environment \<Rightarrow> traffic_control \<Rightarrow> nref \<Rightarrow> string \<Rightarrow> string \<Rightarrow> unit prog" where
  "slow_down E tc to_node speed delay =
     (let source = source_node tc in
      bindA (getA (\<lambda>w. length (addrs (host_of w source)))) (\<lambda>k.
      forA [0..<k] (\<lambda>net_num.
        bindA (getA (\<lambda>w. (node_host (nodes w source), node_host (nodes w to_node)))) (\<lambda>(h, peer).
        bindA (net_device_to_peer E h peer net_num) (\<lambda>dev.
        bindA (getA (\<lambda>w. ''Slowing down connection for net '' @ str_nat net_num @ '' from '' @
                 node_repr w source @ '' to '' @ node_repr w to_node)) (\<lambda>msg.
        seqA (log msg)
          (bindA (getA (\<lambda>w. [''tc'', ''qdisc'', ''replace'', ''dev'', dev, ''parent'', node_to_class w to_node,
                       ''handle'', node_to_handle w to_node, ''netem''] @ netem_args speed delay))
             (node_cmd E source))))))))"

definition remove_slow_down :: "environment \<Rightarrow> traffic_control \<Rightarrow> nref \<Rightarrow> unit prog" where
  "remove_slow_down E tc to_node =
     (let source = source_node tc in
      bindA (getA (\<lambda>w. length (addrs (host_of w source)))) (\<lambda>k.
      forA [0..<k] (\<lambda>net_num.
        bindA (getA (\<lambda>w. (node_host (nodes w source), node_host (nodes w to_node)))) (\<lambda>(h, peer).
        bindA (net_device_to_peer E h peer net_num) (\<lambda>dev.
          bindA (getA (\<lambda>w. [''tc'', ''qdisc'', ''del'', ''dev'', dev, ''parent'', node_to_class w to_node,
                       ''handle'', node_to_handle w to_node]))
             (node_cmd E source))))))"

section \<open>What deploying a configuration changes\<close>

text \<open>
  A command on a node first writes the node's configuration file, if it is outdated. All that
  changes in the objects is which files are outdated.
\<close>

definition deployed :: "world \<Rightarrow> world \<Rightarrow> bool" where
  "deployed w w' \<longleftrightarrow> (\<exists>es. trace w' = trace w @ es) \<and> hosts w' = hosts w \<and> ress w' = ress w \<and>
     vols w' = vols w \<and>
     (\<forall>n. (nodes w' n)\<lparr>config_changed := False\<rparr> = (nodes w n)\<lparr>config_changed := False\<rparr>)"

interpretation dp: step_rel deployed
  by unfold_locales (auto simp: deployed_def)

lemma deployed_effects: "only_effects m \<Longrightarrow> dp.within m"
proof (rule dp.withinI)
  fix s r t assume m: "only_effects m" and run: "m s = (r, t)"
  show "deployed s t"
    using effects_trace [OF m run] objects_eqD [OF effects_objects [OF m run]]
    by (simp add: deployed_def)
qed

lemma deployed_update_config: "dp.within (update_config E n)"
proof -
  have "dp.within (upd_node n (\<lambda>x. x\<lparr>config_changed := False\<rparr>))"
    unfolding upd_node_def by (rule dp.within_mod) (simp add: deployed_def)
  moreover have "dp.within (emit ef)" "dp.within (host_run E h cmd opts)" for ef h cmd opts
    by (simp_all add: deployed_effects effect_rules)
  ultimately show ?thesis unfolding update_config_def by (intro dp.within_rules) auto
qed

lemma deployed_node_run: "dp.within (node_run E n upd cmd opts)"
  unfolding node_run_def
  by (intro dp.within_rules deployed_update_config deployed_effects effects_host_run)

lemma deployed_node_cmd: "dp.within (node_cmd E n cmd)"
  unfolding node_cmd_def by (intro dp.within_rules deployed_node_run)

lemma deployed_node_stdout: "dp.within (node_stdout E n cmd)"
  unfolding node_stdout_def by (intro dp.within_rules deployed_node_run)

lemmas deployed_rules = dp.within_rules deployed_node_cmd deployed_node_stdout

lemma deployed_node:
  assumes "deployed w w'"
  shows "node_host (nodes w' n) = node_host (nodes w n)" and "node_id (nodes w' n) = node_id (nodes w n)"
    and "hosts w' = hosts w" and "\<exists>es. trace w' = trace w @ es"
    and "disks (nodes w' n) = disks (nodes w n)" and "node_resource (nodes w' n) = node_resource (nodes w n)"
proof -
  have eq: "(nodes w' n)\<lparr>config_changed := False\<rparr> = (nodes w n)\<lparr>config_changed := False\<rparr>"
    using assms by (simp add: deployed_def)
  show "node_host (nodes w' n) = node_host (nodes w n)" using arg_cong [OF eq, of node_host] by simp
  show "node_id (nodes w' n) = node_id (nodes w n)" using arg_cong [OF eq, of node_id] by simp
  show "disks (nodes w' n) = disks (nodes w n)" using arg_cong [OF eq, of disks] by simp
  show "node_resource (nodes w' n) = node_resource (nodes w n)" using arg_cong [OF eq, of node_resource] by simp
  show "hosts w' = hosts w" "\<exists>es. trace w' = trace w @ es" using assms by (simp_all add: deployed_def)
qed

section \<open>Every connection gets its class\<close>

text \<open>The pairs of network and node in a table.\<close>

definition dev_pairs :: "nodes_by_dev \<Rightarrow> (nat \<times> nref) list" where
  "dev_pairs d = concat (map (\<lambda>(_, k, ns). map (Pair k) ns) d)"

lemma dev_pairs_simps [simp]:
  "dev_pairs [] = []" "dev_pairs ((dev, k, ns) # d) = map (Pair k) ns @ dev_pairs d"
  by (simp_all add: dev_pairs_def)

lemma dev_pairs_put:
  "dict_get (=) d dev = Some (k, ns) \<Longrightarrow>
     set (dev_pairs (dict_put (=) d dev (k, ns @ [n]))) = insert (k, n) (set (dev_pairs d))"
  by (induction d rule: dict_get.induct [of _ "(=)" _ dev]) (auto split: if_splits)

lemma dev_pairs_new:
  "dict_get (=) d dev = None \<Longrightarrow>
     set (dev_pairs (dict_put (=) d dev (k, []))) = set (dev_pairs d) \<and>
     dict_get (=) (dict_put (=) d dev (k, [])) dev = Some (k, [])"
  by (induction d) (auto split: if_splits)

lemma note_device_pairs:
  assumes "note_device who k n dev d = Inr d'"
  shows "set (dev_pairs d') = insert (k, n) (set (dev_pairs d))"
proof (cases "dict_get (=) d dev")
  case None
  then show ?thesis
    using assms dev_pairs_new [OF None, of k] dev_pairs_put [of "dict_put (=) d dev (k, [])" dev k "[]" n]
    by (simp add: note_device_def Let_def)
next
  case (Some e)
  obtain j ns where e: "e = (j, ns)" by (cases e)
  then have "j = k" "d' = dict_put (=) d dev (k, ns @ [n])"
    using Some assms by (simp_all add: note_device_def Let_def split: if_splits)
  then show ?thesis using Some e dev_pairs_put [of d dev k ns n] by simp
qed

lemma effects_exprA [effect_rules]: "only_effects (exprA f)"
  unfolding exprA_def by (intro effect_rules)

lemma effects_net_device [effect_rules]: "only_effects (net_device_to_peer E h peer k)"
  unfolding net_device_to_peer_def by (intro effect_rules)

lemma effects_device_step: "only_effects (device_step E source d p)"
  unfolding device_step_def by (cases p) (auto intro!: effect_rules)

lemma device_step_pairs:
  assumes "device_step E source d (k, n) w = (Inr d', w')"
  shows "set (dev_pairs d') = (if n = source then {} else {(k, n)}) \<union> set (dev_pairs d)"
proof (cases "n = source")
  case True
  then show ?thesis using assms by (simp add: device_step_def)
next
  case False
  then obtain dev w1 where "exprA (\<lambda>w. note_device (node_repr w n) k n dev d) w1 = (Inr d', w')"
    using assms by (auto simp: device_step_def elim!: bind_InrE)
  then have "note_device (node_repr w1 n) k n dev d = Inr d'" unfolding exprA_def by (auto simp: liftA_def)
  then show ?thesis using False note_device_pairs by simp
qed

lemma device_loop_pairs:
  "foldA ps (device_step E source) d w = (Inr d', w') \<Longrightarrow>
     set (dev_pairs d') = set (filter (\<lambda>(k, n). n \<noteq> source) ps) \<union> set (dev_pairs d)"
proof (induction ps arbitrary: d w)
  case (Cons p ps)
  obtain k n where p: "p = (k, n)" by (cases p)
  obtain d1 w1 where 1: "device_step E source d p w = (Inr d1, w1)"
    and 2: "foldA ps (device_step E source) d1 w1 = (Inr d', w')"
    using Cons.prems unfolding foldA.simps by (rule bind_InrE)
  show ?case using Cons.IH [OF 2] device_step_pairs [of E source d k n w d1 w1] 1 p by auto
qed simp

lemma get_nodes_by_dev_pairs:
  assumes "get_nodes_by_dev E tc w = (Inr d, w')"
  shows "set (dev_pairs d) =
      {0..<length (addrs (host_of w (source_node tc)))} \<times> (set (items (tc_nodes tc)) - {source_node tc})"
    and "deployed w w'"
proof -
  let ?k = "length (addrs (host_of w (source_node tc)))"
  have run: "foldA (List.product [0..<?k] (items (tc_nodes tc))) (device_step E (source_node tc)) [] w = (Inr d, w')"
    using assms by (simp add: get_nodes_by_dev_def)
  show "set (dev_pairs d) = {0..<?k} \<times> (set (items (tc_nodes tc)) - {source_node tc})"
    using device_loop_pairs [OF run] by (auto simp: dev_pairs_def)
  have "dp.within (foldA ps (device_step E source) acc)" for ps source acc
    by (intro dp.within_fold deployed_effects effects_device_step)
  then show "deployed w w'" using run by (rule dp.withinD)
qed

text \<open>A command that a node's host was sent between two states, and that succeeded.\<close>

definition sent :: "host \<Rightarrow> string list \<Rightarrow> world \<Rightarrow> world \<Rightarrow> bool" where
  "sent h cmd w w' \<longleftrightarrow> (\<exists>c a b. trace w' = trace w @ a @ Ssh c (Inr 0) # b \<and>
     sc_host c = host_name h \<and> sc_cmd c = command_string h cmd run_defaults)"

lemma sent_deployed: "deployed w p \<Longrightarrow> sent h cmd p q \<Longrightarrow> deployed q w' \<Longrightarrow> sent h cmd w w'"
  unfolding sent_def deployed_def by (metis append.assoc append_Cons)

lemma host_run_sent:
  assumes "host_run E h cmd run_defaults w = (Inr r, w')"
  shows "sent (hosts w h) cmd w w'"
proof -
  let ?cs = "command_string (hosts w h) cmd run_defaults"
  let ?c = "\<lparr>sc_host = host_name (hosts w h), sc_cmd = ?cs, sc_stdin = None, sc_env = [], sc_timeout = None\<rparr>"
  have "trace w' = trace w @ [Log (host_name (hosts w h) @ '': '' @ ?cs)] @ [Ssh ?c (Inr 0)]"
    using assms unfolding host_run_def ssh_exec_def emit_def
    by (auto simp: Let_def run_defaults_def bindA_def seqA_def getA_def modA_def
        ret_def raise_def liftA_def split: if_splits sum.splits prod.splits)
  then show ?thesis unfolding sent_def
    by (intro exI [of _ ?c] exI [of _ "[Log (host_name (hosts w h) @ '': '' @ ?cs)]"] exI [of _ "[]"]) simp
qed

lemma node_cmd_sent:
  assumes "node_cmd E n cmd w = (Inr u, w')"
  shows "sent (host_of w n) cmd w w'"
proof -
  obtain r where "node_run E n True cmd run_defaults w = (Inr r, w')"
    using assms by (auto simp: node_cmd_def elim!: bind_InrE)
  then obtain x p where 1: "whenA True (update_config E n) w = (Inr x, p)"
    and 2: "bindA (getA (\<lambda>w. node_host (nodes w n))) (\<lambda>h. host_run E h cmd run_defaults) p = (Inr r, w')"
    unfolding node_run_def by (rule seq_InrE)
  have "deployed w p" using dp.withinD [OF deployed_update_config] 1 by simp
  moreover have "sent (host_of p n) cmd p w'" using host_run_sent 2 by simp
  ultimately show ?thesis
    using sent_deployed [of w p _ cmd w' w'] deployed_node(1) [of w p n] deployed_node(3) [of w p] dp.step_refl by simp
qed

lemma deployed_tc_filter: "dp.within (tc_filter E tc dev k n)"
  unfolding tc_filter_def by (intro deployed_rules deployed_effects effects_exprA effects_emit)

lemma deployed_tc_device: "dp.within (tc_device E tc e)"
proof -
  have "dp.within (case x of CalledProcessError _ _ \<Rightarrow> ret () | _ \<Rightarrow> raise x)" for x
    by (cases x) (simp_all add: dp.within_basic)
  then show ?thesis unfolding tc_device_def by (intro deployed_rules deployed_tc_filter)
qed

lemma tc_filter_sent:
  assumes "tc_filter E tc dev k n w = (Inr u, w')"
  shows "\<exists>ip. list_item (addrs (host_of w n)) (int k) = Inr ip \<and>
     sent (host_of w (source_node tc)) (filter_command w dev ip n) w w'"
proof -
  obtain ip msg where ip: "list_item (addrs (host_of w n)) (int k) = Inr ip"
    and r: "seqA (log msg) (bindA (getA (\<lambda>w. filter_command w dev ip n)) (node_cmd E (source_node tc))) w = (Inr u, w')"
    using assms unfolding tc_filter_def exprA_def
    by (auto simp: liftA_def bind_assoc elim!: bind_InrE)
  obtain x p where 1: "log msg w = (Inr x, p)"
    and run: "node_cmd E (source_node tc) (filter_command p dev ip n) p = (Inr u, w')"
    using r by (rule seq_InrE) simp
  have p: "deployed w p" "nodes p = nodes w" "hosts p = hosts w"
    using dp.withinD [OF deployed_effects [OF effects_emit] 1]
      objects_eqD [OF effects_objects [OF effects_emit 1]] by simp_all
  have "sent (host_of w (source_node tc)) (filter_command w dev ip n) p w'"
    using node_cmd_sent [OF run] p(2,3) by (simp add: filter_command_def node_to_class_def)
  then show ?thesis using ip sent_deployed [OF p(1)] dp.step_refl by blast
qed

text \<open>Both commands for a device: first the queueing discipline, then the filter of the node.\<close>

definition classified :: "world \<Rightarrow> traffic_control \<Rightarrow> string \<Rightarrow> string \<Rightarrow> nref \<Rightarrow> world \<Rightarrow> bool" where
  "classified w tc dev ip n w' \<longleftrightarrow> (\<exists>p q. deployed w p \<and>
     sent (host_of w (source_node tc)) (prio_command w tc dev) p q \<and>
     sent (host_of w (source_node tc)) (filter_command w dev ip n) q w')"

lemma classified_deployed:
  assumes w: "deployed w a" and "classified a tc dev ip n b" and b: "deployed b w'"
  shows "classified w tc dev ip n w'"
proof -
  have cmds: "prio_command a tc dev = prio_command w tc dev" "filter_command a dev ip n = filter_command w dev ip n"
    "host_of a (source_node tc) = host_of w (source_node tc)"
    using deployed_node [OF w] by (simp_all add: prio_command_def filter_command_def node_to_class_def)
  obtain p q where "deployed a p" "sent (host_of w (source_node tc)) (prio_command w tc dev) p q"
    "sent (host_of w (source_node tc)) (filter_command w dev ip n) q b"
    using assms(2) unfolding classified_def cmds by blast
  then show ?thesis
    using dp.step_trans [OF w] sent_deployed [OF dp.step_refl _ b] unfolding classified_def by blast
qed

lemma tc_device_classified:
  assumes "tc_device E tc (dev, k, ns) w = (Inr u, w')" and "n \<in> set ns"
  shows "\<exists>ip. list_item (addrs (host_of w n)) (int k) = Inr ip \<and> classified w tc dev ip n w'"
proof -
  let ?del = "tryA (node_cmd E (source_node tc) [''tc'', ''qdisc'', ''del'', ''dev'', dev, ''root''])
     (\<lambda>e. case e of CalledProcessError _ _ \<Rightarrow> ret () | _ \<Rightarrow> raise e)"
  have "dp.within (case x of CalledProcessError _ _ \<Rightarrow> ret () | _ \<Rightarrow> raise x)" for x
    by (cases x) (simp_all add: dp.within_basic)
  then have del: "dp.within ?del" by (intro deployed_rules)
  obtain x p where 1: "?del w = (Inr x, p)"
    and r: "seqA (bindA (getA (\<lambda>w. prio_command w tc dev)) (node_cmd E (source_node tc)))
      (forA ns (tc_filter E tc dev k)) p = (Inr u, w')"
    using assms(1) unfolding tc_device_def prod.case by (rule seq_InrE)
  have p: "deployed w p" using del 1 by (rule dp.withinD)
  obtain y q where 2: "node_cmd E (source_node tc) (prio_command p tc dev) p = (Inr y, q)"
    and 3: "forA ns (tc_filter E tc dev k) q = (Inr u, w')"
    using r by (rule seq_InrE) simp
  obtain a b where ab: "deployed q a" "tc_filter E tc dev k n a = (Inr (), b)" "deployed b w'"
    using dp.for_member [OF deployed_tc_filter 3 assms(2)] by blast
  have wq: "deployed w q" using p dp.withinD [OF deployed_node_cmd 2] by (rule dp.step_trans)
  have wa: "deployed w a" using wq ab(1) by (rule dp.step_trans)
  obtain ip where ip: "list_item (addrs (host_of w n)) (int k) = Inr ip"
    and f: "sent (host_of w (source_node tc)) (filter_command w dev ip n) a b"
    using tc_filter_sent [OF ab(2)] deployed_node [OF wa] by (auto simp: filter_command_def node_to_class_def)
  have "sent (host_of w (source_node tc)) (prio_command w tc dev) p q"
    using node_cmd_sent [OF 2] deployed_node [OF p] by (simp add: prio_command_def)
  then show ?thesis using ip sent_deployed [OF ab(1) f ab(3)] p unfolding classified_def by blast
qed


text \<open>Two nodes with a volume each, whose configuration files are up to date, and a host that names its device.\<close>

definition clean_nodes :: world where
  "clean_nodes = two_nodes\<lparr>nodes := (\<lambda>n. (nodes two_nodes n)\<lparr>config_changed := False, disks := [n]\<rparr>)\<rparr>"

definition route_env :: environment where
  "route_env = ok_env\<lparr>ssh_run := (\<lambda>_ _. \<lparr>sr_out = ''10.43.0.1 dev eth0 src 10.43.0.0'', sr_err = [], sr_result = Inr 0\<rparr>)\<rparr>"

definition clean :: "world \<Rightarrow> bool" where
  "clean w \<longleftrightarrow> objects w = objects clean_nodes"

lemma clean_fields:
  assumes "clean w"
  shows "config_changed (nodes w n) = False" and "node_host (nodes w n) = n"
    and "addrs (hosts w n) = [''10.43.0.'' @ str_nat n]"
  using objects_eqD [OF assms [unfolded clean_def]]
  by (simp_all add: clean_nodes_def two_nodes_def empty_cluster_def sample_host_def)

lemma clean_same:
  assumes "clean w"
  shows "node_volumes w n = node_volumes clean_nodes n" and "vol_host w v = vol_host clean_nodes v"
    and "linux_device w v = linux_device clean_nodes v" and "hosts w = hosts clean_nodes" "nodes w = nodes clean_nodes"
proof -
  note eq = objects_eqD [OF assms [unfolded clean_def]]
  have "vol_res w = vol_res clean_nodes" by (rule ext) (simp add: vol_res_def node_res_def eq)
  then show "node_volumes w n = node_volumes clean_nodes n" by (simp add: node_volumes_def Volumes_def eq)
  show "vol_host w v = vol_host clean_nodes v" "linux_device w v = linux_device clean_nodes v"
    "hosts w = hosts clean_nodes" "nodes w = nodes clean_nodes"
    by (simp_all add: vol_host_def linux_device_def eq)
qed

lemma clean_log: "returns clean (log m) ()"
  unfolding emit_def by (rule returns_mod) (simp add: clean_def objects_def)

lemma clean_host_run:
  "returns clean (host_run route_env h cmd run_defaults) None"
  "returns clean (host_run route_env h cmd with_stdout) (Some (strip ''10.43.0.1 dev eth0 src 10.43.0.0''))"
  by (auto simp: returns_def clean_def objects_def host_run_def ssh_exec_def route_env_def run_defaults_def Let_def
      bindA_def seqA_def getA_def emit_def modA_def ret_def)

lemma clean_update_config: "returns clean (update_config route_env n) ()"
  unfolding update_config_def
  by (rule returns_bind [where x = False]) (simp_all add: returns_get returns_ret clean_fields whenA_def)

lemma clean_node_cmd: "returns clean (node_cmd route_env n cmd) ()"
proof -
  have "returns clean (node_run route_env n True cmd run_defaults) None"
    unfolding node_run_def when_True
    by (rule returns_seq [OF clean_update_config returns_bind [where x = n, OF returns_get clean_host_run(1)]])
       (simp add: clean_fields)
  then show ?thesis unfolding node_cmd_def by (rule returns_bind) (rule returns_ret)
qed

lemma clean_addr: "clean w \<Longrightarrow> list_item (addrs (hosts w n)) (int 0) = Inr (''10.43.0.'' @ str_nat n)"
  by (simp only: clean_fields list_item_def) simp

lemma clean_host_of: "clean w \<Longrightarrow> list_item (addrs (host_of w n)) (int 0) = Inr (''10.43.0.'' @ str_nat n)"
  using clean_addr by (simp only: clean_fields)

lemma clean_device: "returns clean (net_device_to_peer route_env h n 0) ''eth0''"
proof -
  have out: "returns clean (host_stdout route_env h cmd run_defaults) (strip ''10.43.0.1 dev eth0 src 10.43.0.0'')" for cmd
    unfolding host_stdout_def by (rule returns_bind [OF clean_host_run(2)]) (simp add: returns_ret)
  have dev: "list_item (split_on (CHR '' '') (strip ''10.43.0.1 dev eth0 src 10.43.0.0'')) 2 = Inr ''eth0''"
    by code_simp
  show ?thesis unfolding net_device_to_peer_def exprA_def bind_assoc
    by (rule returns_bind_get, rule returns_bind_lift, erule clean_addr)
       (rule returns_bind, rule out, rule returns_lift, rule dev)
qed

lemma clean_filter: "returns clean (tc_filter route_env tc dev 0 n) ()"
  unfolding tc_filter_def exprA_def bind_assoc
  by (rule returns_bind_get, rule returns_bind_lift, erule clean_host_of)
     (intro returns_bind_get returns_seq [OF clean_log] clean_node_cmd)

lemma clean_tc_device: "returns clean (tc_device route_env tc (dev, 0, ns)) ()"
  unfolding tc_device_def prod.case
  by (rule returns_seq [OF returns_try [OF clean_node_cmd]], rule returns_seq [where x = "()"])
     (intro returns_bind_get clean_node_cmd returns_for clean_filter)+

lemma clean_device_step: "returns clean (device_step route_env 0 [] (0, 1)) [(''eth0'', 0, [1])]"
proof -
  have nd: "note_device who 0 1 ''eth0'' [] = Inr [(''eth0'', 0, [1])]" for who
    by (simp add: note_device_def)
  have "returns clean (exprA (\<lambda>w. note_device (node_repr w 1) 0 1 ''eth0'' [])) [(''eth0'', 0, [1])]"
    unfolding exprA_def nd by (intro returns_bind_get returns_lift refl)
  then show ?thesis unfolding device_step_def prod.case
    by (simp only: one_neq_zero if_False, intro returns_bind_get)
       (simp only: prod.case, rule returns_bind [OF clean_device])
qed

lemma clean_nodes_by_dev:
  "returns clean (get_nodes_by_dev route_env \<lparr>source_node = 0, tc_nodes = os_init (=) [0, 1]\<rparr>)
     [(''eth0'', 0, [1])]"
proof -
  have "items (os_init (=) [0, 1 :: nref]) = [0, 1]" by code_simp
  moreover have "returns clean (device_step route_env 0 [] (0, 0)) []"
    by (simp add: device_step_def returns_ret)
  then have "returns clean (foldA [(0, 0), (0, 1)] (device_step route_env 0) []) [(''eth0'', 0, [1])]"
    unfolding foldA.simps by (rule returns_bind) (rule returns_bind [OF clean_device_step returns_ret])
  ultimately show ?thesis unfolding get_nodes_by_dev_def
    by (intro returns_bind_get) (simp add: clean_fields)
qed


end
