(* ===== verification/Workloads.thy ===== *)
theory Workloads
  imports Traffic_Control
begin

text \<open>
  What tests put on the volumes: \<open>fio\<close> runs (\<open>Host.fio_file\<close> and its callers in
  \<open>src/python/drbdtest.py\<close>), snapshots and superblocks, and the comparison of
  data between nodes (\<open>src/python/datatools.py\<close>). The values of \<open>fio\<close> parameters are given as text.
\<close>

section \<open>fio\<close>

definition fio_write_args :: "(string \<times> string) list" where
  "fio_write_args = [(''verify'', ''md5''), (''do_verify'', ''0''), (''rw'', ''write'')]"

definition fio_verify_args :: "(string \<times> string) list" where
  "fio_verify_args = [(''verify'', ''md5''), (''verify_only'', ''1''), (''rw'', ''read'')]"

definition fio_write_small_args :: "(string \<times> string) list" where
  "fio_write_small_args = fio_write_args @ [(''size'', ''4K''), (''randrepeat'', ''0'')]"

text \<open>\<open>{**a, **b}\<close>: a key keeps its first position and gets its last value.\<close>

definition merge_args :: "(string \<times> string) list \<Rightarrow> (string \<times> string) list" where
  "merge_args kvs = foldl (\<lambda>d (k, v). dict_put (=) d k v) [] kvs"

definition fio_command ::
  "string \<Rightarrow> (string \<times> string) list \<Rightarrow> (string \<times> string) list \<Rightarrow> bool \<Rightarrow> string list" where
  "fio_command native base kwargs windows =
     [''fio'', ''--output-format=json'', ''--max-jobs=16'', ''--name=test''] @
     map (\<lambda>(k, v). ''--'' @ k @ ''='' @ v)
       (merge_args ((''filename'', replace_char (CHR '':'') [BS, CHR '':''] native) # base @ kwargs)) @
     (if windows then [''--thread''] else [])"

text \<open>A number or string as \<open>str.format\<close> shows it; \<open>fio\<close> reports numbers here.\<close>

definition json_format :: "json \<Rightarrow> string" where
  "json_format j = (case j of JInt i \<Rightarrow> str_int i | JStr s \<Rightarrow> s | _ \<Rightarrow> json_dumps j)"

definition fio_results :: "json \<Rightarrow> exn + string" where
  "fio_results out =
     (let io = (\<lambda>jb k. case json_get jb k of Inl e \<Rightarrow> Inl e | Inr j \<Rightarrow> json_get j ''io_kbytes'') in
      case json_get out ''jobs'' of Inl e \<Rightarrow> Inl e
      | Inr js \<Rightarrow> (case json_nth js 0 of Inl e \<Rightarrow> Inl e
      | Inr jb \<Rightarrow> (case io jb ''read'' of Inl e \<Rightarrow> Inl e
      | Inr r \<Rightarrow> (case io jb ''write'' of Inl e \<Rightarrow> Inl e
      | Inr wr \<Rightarrow> (case json_get jb ''elapsed'' of Inl e \<Rightarrow> Inl e
      | Inr tm \<Rightarrow> Inr (''fio results: read='' @ json_format r @ ''KiB, write='' @ json_format wr @
                      ''KiB, time='' @ json_format tm @ ''s''))))))"

definition fio_file ::
  "environment \<Rightarrow> href \<Rightarrow> string \<Rightarrow> (string \<times> string) list \<Rightarrow> (string \<times> string) list \<Rightarrow> json prog" where
  "fio_file E h filename base kwargs =
     bindA (native_filename E h filename) (\<lambda>native.
     bindA (getA (\<lambda>w. platform_helper (hosts w h) = WindowsPlatform)) (\<lambda>windows.
     bindA (host_stdout E h (fio_command native base kwargs windows) run_defaults) (\<lambda>result.
     bindA (getA (\<lambda>w. (''fio-'' @ host_name (hosts w h) @ ''-'' @ str_nat (fio_count (hosts w h)) @ ''.json'', logdir w))) (\<lambda>(name, d).
     seqA (log (''write fio output to '' @ name))
    (seqA (emit (LocalWrite (path_join d name) result))
    (bindA (liftA (json_loads result)) (\<lambda>out.
     bindA (liftA (fio_results out)) (\<lambda>msg.
     seqA (log msg)
    (seqA (upd_host h (\<lambda>x. x\<lparr>fio_count := Suc (fio_count x)\<rparr>))
          (ret out))))))))))"

text \<open>\<open>Node.fio_file\<close> does not return the result.\<close>

definition node_fio_file ::
  "environment \<Rightarrow> nref \<Rightarrow> string \<Rightarrow> (string \<times> string) list \<Rightarrow> (string \<times> string) list \<Rightarrow> unit prog" where
  "node_fio_file E n filename base kwargs = bindA (getA (\<lambda>w. node_host (nodes w n))) (\<lambda>h.
     ignore (fio_file E h filename base kwargs))"

definition node_fio ::
  "environment \<Rightarrow> nref \<Rightarrow> (string \<times> string) list \<Rightarrow> (string \<times> string) list \<Rightarrow> unit prog" where
  "node_fio E n base kwargs = bindA (exprA (\<lambda>w. node_volumes w n)) (\<lambda>vs.
     forA (items vs) (\<lambda>v. bindA (volume_device E v) (\<lambda>d. node_fio_file E n d base kwargs)))"

definition node_write :: "environment \<Rightarrow> nref \<Rightarrow> (string \<times> string) list \<Rightarrow> unit prog" where
  "node_write E n kwargs = node_fio E n fio_write_small_args kwargs"

definition volume_fio ::
  "environment \<Rightarrow> vref \<Rightarrow> (string \<times> string) list \<Rightarrow> (string \<times> string) list \<Rightarrow> unit prog" where
  "volume_fio E v base kwargs = bindA (volume_device E v) (\<lambda>d.
     bindA (getA (\<lambda>w. vol_node (vols w v))) (\<lambda>n. node_fio_file E n d base kwargs))"

definition volume_write :: "environment \<Rightarrow> vref \<Rightarrow> (string \<times> string) list \<Rightarrow> unit prog" where
  "volume_write E v kwargs = volume_fio E v fio_write_small_args kwargs"

definition volumes_write :: "environment \<Rightarrow> vref oset \<Rightarrow> (string \<times> string) list \<Rightarrow> unit prog" where
  "volumes_write E vs kwargs = forA (items vs) (\<lambda>v. volume_write E v kwargs)"

definition volumes_fio ::
  "environment \<Rightarrow> vref oset \<Rightarrow> (string \<times> string) list \<Rightarrow> (string \<times> string) list \<Rightarrow> unit prog" where
  "volumes_fio E vs base kwargs = forA (items vs) (\<lambda>v. volume_fio E v base kwargs)"

definition volume_take_snapshot :: "environment \<Rightarrow> vref \<Rightarrow> string \<Rightarrow> string prog" where
  "volume_take_snapshot E v name_ext =
     bindA (getA (\<lambda>w. (vol_host w v, vol_disk (vols w v)))) (\<lambda>(h, d).
       case d of None \<Rightarrow> raise AttributeError | Some x \<Rightarrow> volume_snapshot E h x name_ext)"

definition volumes_snapshot :: "environment \<Rightarrow> vref oset \<Rightarrow> string \<Rightarrow> string list prog" where
  "volumes_snapshot E vs name_ext = bindA (getA (\<lambda>w. filter (has_disk w) (items vs))) (\<lambda>ds.
     mapA ds (\<lambda>v. volume_take_snapshot E v name_ext))"

definition volumes_suspend :: "environment \<Rightarrow> vref oset \<Rightarrow> unit prog" where
  "volumes_suspend E vs = forA (items vs) (volume_suspend E)"

definition volumes_resume :: "environment \<Rightarrow> vref oset \<Rightarrow> unit prog" where
  "volumes_resume E vs = forA (items vs) (volume_resume E)"

text \<open>The metadata of a volume as \<open>drbdmeta\<close> dumps it.\<close>

definition dump_superblock :: "environment \<Rightarrow> nref \<Rightarrow> vref \<Rightarrow> json prog" where
  "dump_superblock E n v = bindA (getA (\<lambda>w. disk_arg w v)) (\<lambda>d.
     bindA (node_stdout E n [''drbdmeta'', ''--force'', ''-'', ''v09'', d, ''internal'',
              ''dump-superblock'', ''--output-format'', ''json'']) (\<lambda>out. liftA (json_loads out)))"

text \<open>The method \<open>startswith\<close> that the raw value needs is one of strings.\<close>

definition uuid_of_json :: "json \<Rightarrow> exn + string" where
  "uuid_of_json j = (case j of JStr s \<Rightarrow> Inr (uuid_from_raw s) | _ \<Rightarrow> Inl AttributeError)"

definition get_disk_current_uuid :: "environment \<Rightarrow> nref \<Rightarrow> nat \<Rightarrow> string prog" where
  "get_disk_current_uuid E n volume_nr =
     bindA (exprA (\<lambda>w. list_item (disks (nodes w n)) (int volume_nr))) (\<lambda>v.
     bindA (dump_superblock E n v) (\<lambda>data.
     bindA (liftA (json_get data ''current_uuid'')) (\<lambda>raw. liftA (uuid_of_json raw))))"

definition get_disk_bitmap_uuid :: "environment \<Rightarrow> nref \<Rightarrow> nref \<Rightarrow> nat \<Rightarrow> string prog" where
  "get_disk_bitmap_uuid E n peer volume_nr =
     bindA (exprA (\<lambda>w. list_item (disks (nodes w n)) (int volume_nr))) (\<lambda>v.
     bindA (dump_superblock E n v) (\<lambda>data.
     bindA (liftA (json_get data ''peers'')) (\<lambda>ps.
     bindA (getA (\<lambda>w. node_id (nodes w peer))) (\<lambda>i.
     bindA (liftA (json_nth ps (int i))) (\<lambda>p.
     bindA (liftA (json_get p ''bitmap_uuid'')) (\<lambda>raw. liftA (uuid_of_json raw)))))))"

section \<open>Comparing data\<close>

definition md5sum_command :: "string \<Rightarrow> nat option \<Rightarrow> nat option \<Rightarrow> string list" where
  "md5sum_command filename size_mb offset_mb =
     [''/bin/bash'', ''-c'', ''set -o pipefail ; dd if='' @ filename @ '' bs=1M iflag=direct '' @
        (if truthy_opt offset_mb then ''skip='' @ str_nat (the offset_mb) else []) @ '' '' @
        (if truthy_opt size_mb then ''count='' @ str_nat (the size_mb) else []) @ '' | md5sum'']"

definition read_md5sum :: "environment \<Rightarrow> nref \<Rightarrow> string \<Rightarrow> nat option \<Rightarrow> nat option \<Rightarrow> string prog" where
  "read_md5sum E n filename size_mb offset_mb = node_stdout E n (md5sum_command filename size_mb offset_mb)"

text \<open>\<open>n.volumes[0].disk\<close> or \<open>n.volumes[0].device()\<close>\<close>

definition data_file :: "environment \<Rightarrow> nref \<Rightarrow> bool \<Rightarrow> string prog" where
  "data_file E n backing_disk =
     bindA (exprA (\<lambda>w. node_volumes w n)) (\<lambda>vs.
     bindA (liftA (list_item (items vs) 0)) (\<lambda>v.
       if backing_disk then getA (\<lambda>w. disk_arg w v) else volume_device E v))"

definition node_md5sum ::
  "environment \<Rightarrow> nat option \<Rightarrow> bool \<Rightarrow> nat option \<Rightarrow> nref \<Rightarrow> string prog" where
  "node_md5sum E size_mb backing_disk offset_mb n =
     bindA (data_file E n backing_disk) (\<lambda>filename.
     bindA (getA (\<lambda>w. version_less (drbd_version_tuple (host_of w n)) (9, 0, 0))) (\<lambda>old.
       if old \<and> \<not> backing_disk
       then seqA (primary E n False True)
           (bindA (read_md5sum E n filename size_mb offset_mb) (\<lambda>s.
            seqA (node_secondary E n True False) (ret s)))
       else read_md5sum E n filename size_mb offset_mb))"

definition verify_data ::
  "environment \<Rightarrow> nref oset \<Rightarrow> nat option \<Rightarrow> bool \<Rightarrow> nat option \<Rightarrow> unit prog" where
  "verify_data E ns size_mb backing_disk offset_mb =
     bindA (getA (\<lambda>w. ''* Validate data is same on nodes '' @ join '' '' (map (node_repr w) (items ns)))) (\<lambda>msg.
     seqA (log msg)
    (seqA (whenA (backing_disk \<and> size_mb = None)
             (raise (RuntimeError ''verifying data on backing disk requires explicit size'')))
    (bindA (mapA (items ns) (node_md5sum E size_mb backing_disk offset_mb)) (\<lambda>md5sums.
       whenA (1 < length (remdups md5sums))
         (seqA (log (''['' @ join '', '' (map quoted md5sums) @ '']''))
               (raise (RuntimeError ''Data differs!'')))))))"

section \<open>Data that was found equal is equal\<close>

text \<open>A command that a host was sent between two states, that succeeded, and what it answered.\<close>

definition answered :: "environment \<Rightarrow> host \<Rightarrow> string list \<Rightarrow> string \<Rightarrow> world \<Rightarrow> world \<Rightarrow> bool" where
  "answered E h cmd s w w' \<longleftrightarrow> (\<exists>c a b. trace w' = trace w @ a @ Ssh c (Inr 0) # b \<and>
     sc_host c = host_name h \<and> sc_cmd c = command_string h cmd run_defaults \<and>
     strip (sr_out (ssh_run E (trace w @ a) c)) = s)"

lemma answered_deployed:
  assumes "deployed w p" and "answered E h cmd s p q" and "deployed q w'"
  shows "answered E h cmd s w w'"
proof -
  obtain c a b where 1: "trace q = trace p @ a @ Ssh c (Inr 0) # b" "sc_host c = host_name h"
    "sc_cmd c = command_string h cmd run_defaults" "strip (sr_out (ssh_run E (trace p @ a) c)) = s"
    using assms(2) unfolding answered_def by blast
  obtain x y where 2: "trace p = trace w @ x" "trace w' = trace q @ y"
    using assms(1,3) unfolding deployed_def by blast
  show ?thesis unfolding answered_def
    by (rule exI [of _ c], rule exI [of _ "x @ a"], rule exI [of _ "b @ y"]) (use 1 2 in simp)
qed

lemma host_run_answered:
  assumes "host_run E h cmd with_stdout w = (Inr r, w')"
  shows "\<exists>s. r = Some s \<and> answered E (hosts w h) cmd s w w'"
proof -
  let ?cs = "command_string (hosts w h) cmd with_stdout"
  let ?l = "Log (host_name (hosts w h) @ '': '' @ ?cs)"
  let ?c = "\<lparr>sc_host = host_name (hosts w h), sc_cmd = ?cs, sc_stdin = None, sc_env = [], sc_timeout = None\<rparr>"
  have cs: "?cs = command_string (hosts w h) cmd run_defaults"
    by (cases "netns (hosts w h)") (simp_all add: command_string_def run_defaults_def)
  have "trace w' = trace w @ [?l] @ [Ssh ?c (Inr 0)] \<and> r = Some (strip (sr_out (ssh_run E (trace w @ [?l]) ?c)))"
    using assms unfolding host_run_def ssh_exec_def emit_def
    by (auto simp: Let_def run_defaults_def bindA_def seqA_def getA_def modA_def
        ret_def raise_def liftA_def split: if_splits sum.splits prod.splits)
  then show ?thesis unfolding answered_def
    by (intro exI [of _ "strip (sr_out (ssh_run E (trace w @ [?l]) ?c))"] conjI exI [of _ ?c] exI [of _ "[?l]"] exI [of _ "[]"])
       (simp_all add: cs)
qed

lemma node_stdout_answered:
  assumes "node_stdout E n cmd w = (Inr s, w')"
  shows "answered E (host_of w n) cmd s w w'"
proof -
  obtain r w1 where run: "node_run E n True cmd with_stdout w = (Inr r, w1)"
    and r: "(case r of None \<Rightarrow> raise TypeError | Some s \<Rightarrow> ret s) w1 = (Inr s, w')"
    using assms unfolding node_stdout_def by (rule bind_InrE)
  obtain x p where 1: "whenA True (update_config E n) w = (Inr x, p)"
    and 2: "bindA (getA (\<lambda>w. node_host (nodes w n))) (\<lambda>h. host_run E h cmd with_stdout) p = (Inr r, w1)"
    using run unfolding node_run_def by (rule seq_InrE)
  have p: "deployed w p" using dp.withinD [OF deployed_update_config] 1 by simp
  obtain t where "r = Some t" "answered E (host_of p n) cmd t p w1"
    using host_run_answered 2 by fastforce
  then have "answered E (host_of w n) cmd s p w'" using r deployed_node(1,3) [OF p] by (simp add: raise_def)
  then show ?thesis using answered_deployed [OF p] dp.step_refl by blast
qed

lemma deployed_volumes:
  assumes "deployed w p"
  shows "node_volumes p n = node_volumes w n" and "disk_arg p = disk_arg w" and "linux_device p = linux_device w"
    and "vol_host p v = vol_host w v"
proof -
  note eq = deployed_node(5,6) [OF assms]
  have vols: "vols p = vols w" using assms by (simp add: deployed_def)
  have "vol_res p = vol_res w" by (rule ext) (simp add: vol_res_def node_res_def eq vols)
  then show "node_volumes p n = node_volumes w n" by (simp add: node_volumes_def Volumes_def eq)
  show "disk_arg p = disk_arg w" by (rule ext) (simp add: disk_arg_def vols)
  show "linux_device p = linux_device w" by (rule ext) (simp add: linux_device_def vols)
  show "vol_host p v = vol_host w v" using deployed_node(1) [OF assms] by (simp add: vol_host_def vols)
qed

lemma data_file_result:
  assumes "data_file E n bd w = (Inr fn, w')"
  shows "\<exists>vs v. node_volumes w n = Inr vs \<and> list_item (items vs) 0 = Inr v \<and> (bd \<longrightarrow> fn = disk_arg w v) \<and>
     (\<not> bd \<and> platform_helper (hosts w (vol_host w v)) = LinuxPlatform \<longrightarrow> fn = linux_device w v)"
  using assms unfolding data_file_def exprA_def
  by (auto simp: liftA_def volume_device_def elim!: bind_InrE split: if_splits)

lemma deployed_volume_device: "dp.within (volume_device E v)"
proof -
  have "dp.within (windows_device E v)"
    unfolding windows_device_def run_powershell_on_disk_def by (intro dp.within_rules deployed_node_run)
  then have "dp.within (case ph of LinuxPlatform \<Rightarrow> getA (\<lambda>w. linux_device w v) | WindowsPlatform \<Rightarrow> windows_device E v)" for ph
    by (cases ph) (simp_all add: dp.within_basic)
  then show ?thesis unfolding volume_device_def by (intro dp.within_rules)
qed

lemma deployed_data_file: "dp.within (data_file E n bd)"
  unfolding data_file_def by (intro dp.within_rules deployed_volume_device deployed_effects effects_exprA)

text \<open>No promotion is needed to read: the backing disk is read, or DRBD 9 runs.\<close>

definition readable :: "world \<Rightarrow> bool \<Rightarrow> nref \<Rightarrow> bool" where
  "readable w bd n \<longleftrightarrow> bd \<or> is_v9 (host_of w n)"

lemma node_md5sum_readable:
  assumes "readable w bd n"
  shows "node_md5sum E size_mb bd offset_mb n w =
    bindA (data_file E n bd) (\<lambda>fn. read_md5sum E n fn size_mb offset_mb) w"
proof (cases "data_file E n bd w")
  case (Pair r p)
  have "deployed w p" using dp.withinD [OF deployed_data_file Pair] .
  then have "readable p bd n" using assms deployed_node(1,3) by (simp add: readable_def)
  then show ?thesis using Pair by (cases r) (auto simp: node_md5sum_def bindA_def readable_def is_v9_def getA_def)
qed

abbreviation file_md5sum :: "environment \<Rightarrow> nat option \<Rightarrow> bool \<Rightarrow> nat option \<Rightarrow> nref \<Rightarrow> string prog" where
  "file_md5sum E size_mb bd offset_mb n \<equiv>
     bindA (data_file E n bd) (\<lambda>fn. read_md5sum E n fn size_mb offset_mb)"

lemma deployed_file_md5sum: "dp.within (file_md5sum E size_mb bd offset_mb n)"
  unfolding read_md5sum_def by (intro dp.within_bind deployed_data_file deployed_node_stdout)

lemma md5sums_readable:
  "list_all (readable w bd) ns \<Longrightarrow>
     mapA ns (node_md5sum E size_mb bd offset_mb) w = mapA ns (file_md5sum E size_mb bd offset_mb) w"
proof (induction ns arbitrary: w)
  case (Cons n ns)
  let ?m = "file_md5sum E size_mb bd offset_mb"
  obtain r p where run: "?m n w = (r, p)" by (cases "?m n w")
  have "deployed w p" using dp.withinD [OF deployed_file_md5sum run] .
  then have "list_all (readable p bd) ns" using Cons.prems deployed_node(1,3) by (auto simp: readable_def list_all_iff)
  then have "mapA ns (node_md5sum E size_mb bd offset_mb) p = mapA ns ?m p" by (rule Cons.IH)
  moreover have "node_md5sum E size_mb bd offset_mb n w = (r, p)"
    using node_md5sum_readable Cons.prems run by simp
  ultimately show ?case using run by (cases r) (simp_all only: mapA.simps bind_ok bind_err, simp add: bindA_def)
qed simp

lemma remdups_one: "\<not> 1 < length (remdups xs) \<Longrightarrow> x \<in> set xs \<Longrightarrow> y \<in> set xs \<Longrightarrow> x = y"
  by (metis length_remdups_card_conv card_le_Suc0_iff_eq finite_set linorder_not_less One_nat_def)

lemma mapA_length: "mapA xs f s = (Inr ys, t) \<Longrightarrow> length ys = length xs"
proof (induction xs arbitrary: s ys)
  case (Cons x xs)
  obtain y p where "bindA (mapA xs f) (\<lambda>zs. ret (y # zs)) p = (Inr ys, t)"
    using Cons.prems unfolding mapA.simps by (rule bind_InrE)
  then obtain zs q where "mapA xs f p = (Inr zs, q)" and "ret (y # zs) q = (Inr ys, t)" by (rule bind_InrE)
  then show ?case using Cons.IH by auto
qed simp

lemma file_md5sum_answered:
  assumes p: "deployed w p" and "file_md5sum E size_mb bd offset_mb n p = (Inr s, q)" and q: "deployed q w'"
  shows "\<exists>vs v fn. node_volumes w n = Inr vs \<and> list_item (items vs) 0 = Inr v \<and>
     (bd \<longrightarrow> fn = disk_arg w v) \<and>
     (\<not> bd \<and> platform_helper (hosts w (vol_host w v)) = LinuxPlatform \<longrightarrow> fn = linux_device w v) \<and>
     answered E (host_of w n) (md5sum_command fn size_mb offset_mb) s w w'"
proof -
  obtain fn t where 1: "data_file E n bd p = (Inr fn, t)" and 2: "read_md5sum E n fn size_mb offset_mb t = (Inr s, q)"
    using assms(2) by (rule bind_InrE)
  have t: "deployed w t" using p dp.withinD [OF deployed_data_file 1] by (rule dp.step_trans)
  have "answered E (host_of w n) (md5sum_command fn size_mb offset_mb) s t q"
    using node_stdout_answered [OF 2 [unfolded read_md5sum_def]] deployed_node(1,3) [OF t] by simp
  then have "answered E (host_of w n) (md5sum_command fn size_mb offset_mb) s w w'"
    using answered_deployed [OF t _ q] by blast
  then show ?thesis
    using data_file_result [OF 1] deployed_volumes [OF p] deployed_node(3) [OF p] by auto
qed

text \<open>
  C12: When \<open>verify_data\<close> returns, every node (with DRBD 9, or when backing disks are compared) was sent
  the checksum command for its data, that is for its first backing disk or device, with the given
  range; the commands succeeded and all of them answered the same checksum.
\<close>
theorem verify_data_sound:
  assumes "list_all (readable w bd) (items ns)" and "verify_data E ns size_mb bd offset_mb w = (Inr u, w')"
  shows "\<exists>s. \<forall>n \<in> set (items ns). \<exists>vs v fn. node_volumes w n = Inr vs \<and> list_item (items vs) 0 = Inr v \<and>
     (bd \<longrightarrow> fn = disk_arg w v) \<and>
     (\<not> bd \<and> platform_helper (hosts w (vol_host w v)) = LinuxPlatform \<longrightarrow> fn = linux_device w v) \<and>
     answered E (host_of w n) (md5sum_command fn size_mb offset_mb) s w w'"
proof -
  let ?m = "file_md5sum E size_mb bd offset_mb"
  let ?chk = "whenA (bd \<and> size_mb = None)
     (raise (RuntimeError ''verifying data on backing disk requires explicit size'') :: unit prog)"
  let ?cmp = "\<lambda>sums. whenA (1 < length (remdups sums)) (seqA (log (''['' @ join '', '' (map quoted sums) @ '']''))
     (raise (RuntimeError ''Data differs!'')))"
  obtain msg where "seqA (log msg) (seqA ?chk (bindA (mapA (items ns) (node_md5sum E size_mb bd offset_mb)) ?cmp)) w = (Inr u, w')"
    using assms(2) unfolding verify_data_def bind_getA by blast
  then obtain x w1 where "log msg w = (Inr x, w1)"
    and r1: "seqA ?chk (bindA (mapA (items ns) (node_md5sum E size_mb bd offset_mb)) ?cmp) w1 = (Inr u, w')"
    by (rule seq_InrE)
  then have ww1: "deployed w w1" using dp.withinD [OF deployed_effects [OF effects_emit]] by blast
  obtain y w2 where "?chk w1 = (Inr y, w2)"
    and r2: "bindA (mapA (items ns) (node_md5sum E size_mb bd offset_mb)) ?cmp w2 = (Inr u, w')"
    using r1 by (rule seq_InrE)
  then have ww2: "deployed w w2" using ww1 by (auto simp: whenA_def raise_def split: if_splits)
  obtain sums w3 where 1: "mapA (items ns) (node_md5sum E size_mb bd offset_mb) w2 = (Inr sums, w3)"
    and 2: "?cmp sums w3 = (Inr u, w')"
    using r2 by (rule bind_InrE)
  have w3: "w3 = w'" and same: "\<not> 1 < length (remdups sums)"
    using 2 by (auto simp: whenA_def seqA_def raise_def bindA_def emit_def modA_def split: if_splits)
  have "list_all (readable w2 bd) (items ns)"
    using assms(1) deployed_node(1,3) [OF ww2] by (auto simp: readable_def list_all_iff)
  then have run: "mapA (items ns) ?m w2 = (Inr sums, w')" using 1 md5sums_readable w3 by simp
  have len: "length sums = length (items ns)" using mapA_length [OF run] .
  have each: "\<exists>vs v fn. node_volumes w n = Inr vs \<and> list_item (items vs) 0 = Inr v \<and>
     (bd \<longrightarrow> fn = disk_arg w v) \<and>
     (\<not> bd \<and> platform_helper (hosts w (vol_host w v)) = LinuxPlatform \<longrightarrow> fn = linux_device w v) \<and>
     answered E (host_of w n) (md5sum_command fn size_mb offset_mb) (hd sums) w w'" if n: "n \<in> set (items ns)" for n
  proof -
    obtain i where i: "i < length (items ns)" "items ns ! i = n" using n by (auto simp: in_set_conv_nth)
    obtain p q where pq: "deployed w2 p" "?m n p = (Inr (sums ! i), q)" "deployed q w'"
      using dp.map_member [OF deployed_file_md5sum run i(1)] i(2) by blast
    have "sums \<noteq> []" using i(1) len by auto
    then have "sums ! i = hd sums"
      using i(1) len by (intro remdups_one [OF same]) simp_all
    with pq show ?thesis using file_md5sum_answered [OF dp.step_trans [OF ww2 pq(1)] _ pq(3)] by simp
  qed
  then show ?thesis by blast
qed

lemma clean_volume: "node_volumes clean_nodes n = Inr (os_init (=) [n])"
proof -
  have "disks (nodes clean_nodes n) = [n]" by (simp add: clean_nodes_def)
  then show ?thesis
    by (simp add: node_volumes_def Volumes_def coll_init_def same_resource_def Let_def items_init_eq)
qed

lemma clean_data_file: "returns clean (data_file route_env n False) (linux_device clean_nodes n)"
proof -
  have linux: "platform_helper (hosts clean_nodes h) = LinuxPlatform" for h
    by (simp add: clean_nodes_def two_nodes_def empty_cluster_def sample_host_def)
  have vol: "clean w \<Longrightarrow> node_volumes w n = Inr (os_init (=) [n])" for w
    by (simp only: clean_same clean_volume)
  have first: "list_item (items (os_init (=) [n])) 0 = Inr n" by (simp add: list_item_def items_init_eq)
  have "returns clean (volume_device route_env n) (linux_device clean_nodes n)"
    unfolding volume_device_def
    by (rule returns_bind_get, rule returns_bind_get) (simp only: clean_same linux platform.case, rule returns_get, simp only: clean_same)
  then show ?thesis unfolding data_file_def exprA_def bind_assoc if_False
    by (rule_tac returns_bind_get, rule_tac returns_bind_lift, erule_tac vol, rule_tac returns_bind_lift, rule_tac first)
qed

lemma clean_md5sum:
  "returns clean (file_md5sum route_env size_mb False offset_mb n) (strip ''10.43.0.1 dev eth0 src 10.43.0.0'')"
proof -
  have "returns clean (node_run route_env n True cmd with_stdout) (Some (strip ''10.43.0.1 dev eth0 src 10.43.0.0''))" for cmd
    unfolding node_run_def when_True
    by (rule returns_seq, rule clean_update_config, rule returns_bind_get, rule clean_host_run)
  then have "returns clean (read_md5sum route_env n fn size_mb offset_mb) (strip ''10.43.0.1 dev eth0 src 10.43.0.0'')" for fn
    unfolding read_md5sum_def node_stdout_def by (rule returns_bind) (simp add: returns_ret)
  then show ?thesis using clean_data_file by (rule_tac returns_bind)
qed

theorem verify_data_sound_witness:
  "\<exists>s. answered route_env (host_of clean_nodes 0) (md5sum_command ''/dev/drbd0'' (Some 1) None) s clean_nodes
       (snd (verify_data route_env (os_init (=) [0, 1]) (Some 1) False None clean_nodes)) \<and>
     answered route_env (host_of clean_nodes 1) (md5sum_command ''/dev/drbd1'' (Some 1) None) s clean_nodes
       (snd (verify_data route_env (os_init (=) [0, 1]) (Some 1) False None clean_nodes))"
proof -
  let ?ns = "os_init (=) [0, 1] :: nref oset"
  let ?sum = "strip ''10.43.0.1 dev eth0 src 10.43.0.0''"
  have start: "clean clean_nodes" by (simp add: clean_def)
  have ready: "list_all (readable w False) (items ?ns)" if "clean w" for w
    using that by (simp add: list_all_iff readable_def is_v9_def clean_same clean_nodes_def two_nodes_def empty_cluster_def sample_host_def)
  have it: "items ?ns = [0, 1]" by (simp add: items_init_eq)
  have "returns clean (mapA (items ?ns) (file_md5sum route_env (Some 1) False None)) (map (\<lambda>_. ?sum) (items ?ns))"
    by (rule returns_map) (rule clean_md5sum)
  then have sums: "returns clean (mapA (items ?ns) (node_md5sum route_env (Some 1) False None)) [?sum, ?sum]"
    using md5sums_readable [OF ready] unfolding returns_def it by simp
  have run: "returns clean (verify_data route_env ?ns (Some 1) False None) ()"
    unfolding verify_data_def
    by (rule returns_bind_get, rule returns_seq, rule clean_log, rule returns_seq, simp add: whenA_def, rule returns_ret)
       (rule returns_bind, rule sums, simp add: whenA_def returns_ret)
  obtain w' where w': "verify_data route_env ?ns (Some 1) False None clean_nodes = (Inr (), w')"
    using returnsD [OF run start] by blast
  have vol: "v = n" if vs: "node_volumes clean_nodes n = Inr vs" "list_item (items vs) 0 = Inr v" for n vs v
  proof -
    have "vs = os_init (=) [n]" using vs(1) clean_volume by simp
    then show ?thesis using vs(2) by (simp add: items_init_eq list_item_def)
  qed
  have linux: "platform_helper (hosts clean_nodes h) = LinuxPlatform" for h
    by (simp add: clean_nodes_def two_nodes_def empty_cluster_def sample_host_def)
  have "str_nat 0 = ''0''" "str_nat 1 = ''1''" by code_simp+
  then have dev: "linux_device clean_nodes 0 = ''/dev/drbd0''" "linux_device clean_nodes 1 = ''/dev/drbd1''"
    by (simp_all add: linux_device_def clean_nodes_def two_nodes_def empty_cluster_def)
  obtain s where all: "\<forall>n \<in> set (items ?ns). \<exists>vs v fn. node_volumes clean_nodes n = Inr vs \<and> list_item (items vs) 0 = Inr v \<and>
     (False \<longrightarrow> fn = disk_arg clean_nodes v) \<and>
     (\<not> False \<and> platform_helper (hosts clean_nodes (vol_host clean_nodes v)) = LinuxPlatform \<longrightarrow> fn = linux_device clean_nodes v) \<and>
     answered route_env (host_of clean_nodes n) (md5sum_command fn (Some 1) None) s clean_nodes w'"
    using verify_data_sound [OF ready [OF start] w'] by (rule exE)
  have one: "answered route_env (host_of clean_nodes n) (md5sum_command (linux_device clean_nodes n) (Some 1) None) s clean_nodes w'"
    if n: "n \<in> set (items ?ns)" for n
  proof -
    obtain vs v fn where v: "node_volumes clean_nodes n = Inr vs" "list_item (items vs) 0 = Inr v"
      and "fn = linux_device clean_nodes v"
      "answered route_env (host_of clean_nodes n) (md5sum_command fn (Some 1) None) s clean_nodes w'"
      using bspec [OF all n] linux by blast
    then show ?thesis unfolding vol [OF v] by simp
  qed
  have "0 \<in> set (items ?ns)" "1 \<in> set (items ?ns)" unfolding it by simp_all
  then show ?thesis using one [of 0] one [of 1] unfolding w' snd_conv dev by blast
qed

end
