(* ===== verification/Busy_Write.thy ===== *)
theory Busy_Write
  imports Workloads
begin

text \<open>
  The background writer: the class \<open>BusyWrite\<close> of \<open>src/python/busywrite.py\<close>. Its object is a
  record that the methods thread beside the world, so that an exception leaves both as they
  are at that moment. The two file names do not exist before the first \<open>start\<close>.
\<close>

record busy_write =
  bw_volume :: vref
  bw_node :: nref
  fio_pid :: "string option"
  fio_out_str :: "string option"
  output_filename :: "string option"
  stderr_filename :: "string option"

type_synonym 'a bprog = "(busy_write \<times> world, 'a) act"

definition onW :: "'a prog \<Rightarrow> 'a bprog" where
  "onW m = (\<lambda>(b, w). case m w of (r, w') \<Rightarrow> (r, (b, w')))"

abbreviation getB :: "(busy_write \<Rightarrow> 'a) \<Rightarrow> 'a bprog" where
  "getB f \<equiv> getA (\<lambda>(b, _). f b)"

abbreviation modB :: "(busy_write \<Rightarrow> busy_write) \<Rightarrow> unit bprog" where
  "modB f \<equiv> modA (\<lambda>(b, w). (f b, w))"

definition busy_init :: "world \<Rightarrow> vref \<Rightarrow> busy_write" where
  "busy_init w v = \<lparr>bw_volume = v, bw_node = vol_node (vols w v), fio_pid = None, fio_out_str = None,
     output_filename = None, stderr_filename = None\<rparr>"

definition busy_base_args :: string where
  "busy_base_args = ''--rw=randwrite --direct=1 --iodepth=32 --time_based --runtime=600''"

text \<open>The name of a volume's device in the shell command of \<open>start\<close>.\<close>

definition escape_filename :: "string \<Rightarrow> string" where
  "escape_filename s = replace_char BS [BS, BS] (replace_char (CHR '':'') [BS, CHR '':''] s)"

definition async_prefix :: "string \<Rightarrow> nat \<Rightarrow> string" where
  "async_prefix name k = ''fio-'' @ name @ ''-'' @ str_nat k @ ''-async''"

definition busy_command :: "bool \<Rightarrow> string \<Rightarrow> string \<Rightarrow> string \<Rightarrow> string \<Rightarrow> string \<Rightarrow> string list" where
  "busy_command linux native base_args arg_str out err =
     [''setsid'', ''bash'', ''-c'',
      ''fio --output-format=json --max-jobs=4 --name=test '' @
      (if linux then ''--ioengine=libaio '' else ''--ioengine=windowsaio --thread '') @
      ''--filename='' @ escape_filename native @ '' '' @ base_args @ '' '' @ arg_str @
      '' < /dev/null > /tmp/'' @ out @ '' 2> /tmp/'' @ err @ '' & echo $!'']"

definition busy_start :: "environment \<Rightarrow> string \<Rightarrow> string \<Rightarrow> unit bprog" where
  "busy_start E arg_str base_args =
     bindA (getA (\<lambda>(b, w). async_prefix (node_name (nodes w (bw_node b))) (fio_count (host_of w (bw_node b))))) (\<lambda>p.
     seqA (modB (\<lambda>b. b\<lparr>output_filename := Some (p @ ''.json''), stderr_filename := Some (p @ ''-stderr'')\<rparr>))
    (bindA (getA (\<lambda>(b, w). (bw_volume b, bw_node b, node_host (nodes w (bw_node b))))) (\<lambda>(v, n, h).
     bindA (onW (bindA (getA (\<lambda>w. platform_helper (hosts w h) = LinuxPlatform)) (\<lambda>linux.
                 bindA (volume_device E v) (\<lambda>d.
                 bindA (native_filename E h d) (\<lambda>native.
                   node_stdout E n (busy_command linux native base_args arg_str (p @ ''.json'') (p @ ''-stderr'')))))))
       (\<lambda>pid.
     seqA (modB (\<lambda>b. b\<lparr>fio_pid := Some pid\<rparr>))
          (onW (upd_host h (\<lambda>x. x\<lparr>fio_count := fio_count x + 1\<rparr>)))))))"

definition is_running :: "environment \<Rightarrow> bool bprog" where
  "is_running E = bindA (getB (\<lambda>b. (fio_pid b, bw_node b))) (\<lambda>(pid, n).
     case pid of
       None \<Rightarrow> ret False
     | Some p \<Rightarrow>
         bindA (onW (node_stdout E n [''bash'', ''-c'', ''ps -p '' @ p @ '' > /dev/null && echo true || echo false''])) (\<lambda>s.
           if s = ''true'' then ret True
           else if s = ''false'' then ret False
           else raise (RuntimeError (''unexpected output from running check: '' @ s))))"

text \<open>\<open>s[s.find('{'):]\<close>: without a brace, \<open>find\<close> gives -1 and the slice is the last character.\<close>

definition from_brace :: "string \<Rightarrow> string" where
  "from_brace s = (if CHR ''{'' \<in> set s then dropWhile (\<lambda>c. c \<noteq> CHR ''{'') s else drop (length s - 1) s)"

text \<open>An attribute that may not exist yet.\<close>

definition attrB :: "(busy_write \<Rightarrow> string option) \<Rightarrow> string bprog" where
  "attrB f = bindA (getB f) (\<lambda>x. case x of None \<Rightarrow> raise AttributeError | Some s \<Rightarrow> ret s)"

definition save_log :: "string \<Rightarrow> string \<Rightarrow> unit prog" where
  "save_log name text = bindA (getA logdir) (\<lambda>d. emit (LocalWrite (path_join d name) text))"

definition busy_wait :: "environment \<Rightarrow> nat option \<Rightarrow> unit bprog" where
  "busy_wait E timeout =
     bindA (getB (\<lambda>b. (fio_pid b, bw_node b))) (\<lambda>(pid, n).
     seqA (onW (ignore (node_run E n True [''tail'', ''--pid='' @ str_opt pid, ''-f'', ''/dev/null'']
                 (run_defaults\<lparr>ro_timeout := timeout\<rparr>))))
    (seqA (modB (\<lambda>b. b\<lparr>fio_pid := None\<rparr>))
    (bindA (attrB output_filename) (\<lambda>out_name.
     bindA (onW (node_stdout E n [''cat'', ''/tmp/'' @ out_name])) (\<lambda>out.
     seqA (modB (\<lambda>b. b\<lparr>fio_out_str := Some (from_brace out)\<rparr>))
    (seqA (onW (save_log out_name (from_brace out)))
    (bindA (attrB stderr_filename) (\<lambda>err_name.
     bindA (onW (node_stdout E n [''cat'', ''/tmp/'' @ err_name])) (\<lambda>err.
       onW (save_log err_name err))))))))))"

definition kill_jobs :: "environment \<Rightarrow> unit bprog" where
  "kill_jobs E = bindA (getB (\<lambda>b. (fio_pid b, bw_node b))) (\<lambda>(pid, n).
     case pid of
       None \<Rightarrow> raise (RuntimeError ''Start first'')
     | Some p \<Rightarrow> onW (node_cmd E n [''bash'', ''-c'', ''kill $(ps --ppid '' @ p @ '' -o pid=)'']))"

definition busy_stop :: "environment \<Rightarrow> unit bprog" where
  "busy_stop E = bindA (getB (\<lambda>b. (fio_pid b, bw_node b))) (\<lambda>(pid, n).
     case pid of
       None \<Rightarrow> raise (RuntimeError ''Start first'')
     | Some p \<Rightarrow> seqA (onW (node_cmd E n [''kill'', p])) (busy_wait E None))"

definition get_write_kib :: "json bprog" where
  "get_write_kib = bindA (getB fio_out_str) (\<lambda>out.
     case out of
       None \<Rightarrow> raise (RuntimeError ''Wait for fio to stop first'')
     | Some s \<Rightarrow>
         bindA (liftA (json_loads s)) (\<lambda>j.
         bindA (liftA (json_get j ''jobs'')) (\<lambda>js.
         bindA (liftA (json_nth js 0)) (\<lambda>jb.
         bindA (liftA (json_get jb ''write'')) (\<lambda>wr. liftA (json_get wr ''io_kbytes''))))))"

section \<open>The life of a writer\<close>

datatype busy_op =
  Start string string | IsRunning | Wait "nat option" | KillJobs | Stop | GetWriteKib

fun busy_do :: "environment \<Rightarrow> busy_op \<Rightarrow> unit bprog" where
  "busy_do E (Start arg_str base_args) = busy_start E arg_str base_args"
| "busy_do E IsRunning = bindA (is_running E) (\<lambda>_. ret ())"
| "busy_do E (Wait timeout) = busy_wait E timeout"
| "busy_do E KillJobs = kill_jobs E"
| "busy_do E Stop = busy_stop E"
| "busy_do E GetWriteKib = bindA get_write_kib (\<lambda>_. ret ())"

text \<open>
  The states of a writer: after its construction, after each call of a method, whether it returned
  or raised, and after anything else that happened in the world.
\<close>

inductive busy_reach :: "environment \<Rightarrow> vref \<Rightarrow> busy_write \<times> world \<Rightarrow> bool" for E v where
  new: "busy_reach E v (busy_init w v, w)"
| call: "busy_reach E v s \<Longrightarrow> busy_do E a s = (r, s') \<Longrightarrow> busy_reach E v s'"
| outside: "busy_reach E v (b, w) \<Longrightarrow> busy_reach E v (b, w')"

text \<open>
  Both file names exist or none does, and they are of the same run; a process or an output is
  only there with them; the output, unless it is a single character, starts with a brace.
\<close>

definition busy_ok :: "vref \<Rightarrow> busy_write \<Rightarrow> bool" where
  "busy_ok v b \<longleftrightarrow> bw_volume b = v \<and>
     (case output_filename b of
        None \<Rightarrow> stderr_filename b = None \<and> fio_pid b = None \<and> fio_out_str b = None
      | Some out \<Rightarrow> \<exists>name k. out = async_prefix name k @ ''.json'' \<and>
          stderr_filename b = Some (async_prefix name k @ ''-stderr'')) \<and>
     (\<forall>s. fio_out_str b = Some s \<longrightarrow> length s \<le> 1 \<or> hd s = CHR ''{'')"

abbreviation ok_state :: "vref \<Rightarrow> busy_write \<times> world \<Rightarrow> bool" where
  "ok_state v \<equiv> \<lambda>(b, _). busy_ok v b"

abbreviation named_state :: "vref \<Rightarrow> busy_write \<times> world \<Rightarrow> bool" where
  "named_state v \<equiv> \<lambda>(b, _). busy_ok v b \<and> output_filename b \<noteq> None"

lemma pres_onW [pres_rules]: "pres (\<lambda>(b, _). Q b) (onW m)"
  by (auto simp: pres_iff onW_def split: prod.splits)

lemma pres_bind_get: "(\<And>s. pres P (f (g s))) \<Longrightarrow> pres P (bindA (getA g) f)"
  by (simp add: pres_iff)

lemma pres_enter:
  assumes "\<And>s. P s \<Longrightarrow> Q (g s)" and "pres Q k" and "\<And>s. Q s \<Longrightarrow> P s"
  shows "pres P (seqA (modA g) k)"
  using assms by (simp add: pres_iff)

lemma pres_named_attr:
  assumes "\<And>x. pres (named_state v) (k x)"
  shows "pres (ok_state v) (bindA (attrB output_filename) k)"
proof (rule presI)
  fix s :: "busy_write \<times> world" assume ok: "ok_state v s"
  obtain b w where s: "s = (b, w)" by (cases s)
  show "ok_state v (snd (bindA (attrB output_filename) k s))"
  proof (cases "output_filename b")
    case None
    then show ?thesis using ok s by (simp add: attrB_def bindA_def getA_def raise_def)
  next
    case (Some x)
    then have "named_state v (snd (k x s))" using presD [OF assms, of s x] ok s by simp
    then show ?thesis using Some s by (auto simp: attrB_def bindA_def getA_def ret_def)
  qed
qed

lemma from_brace_shape: "length (from_brace s) \<le> 1 \<or> hd (from_brace s) = CHR ''{''"
proof (cases "CHR ''{'' \<in> set s")
  case True
  then have "dropWhile (\<lambda>c. c \<noteq> CHR ''{'') s \<noteq> []" by (simp add: dropWhile_eq_Nil_conv)
  then show ?thesis using True hd_dropWhile [of "\<lambda>c. c \<noteq> CHR ''{''" s] by (simp add: from_brace_def)
next
  case False
  then show ?thesis by (cases s) (simp_all add: from_brace_def)
qed

lemma pres_start: "pres (ok_state v) (busy_start E a c)"
proof -
  have names: "named_state v (case s of (b, w) \<Rightarrow> (b\<lparr>output_filename := Some (async_prefix name k @ ''.json''),
       stderr_filename := Some (async_prefix name k @ ''-stderr'')\<rparr>, w))" if "ok_state v s" for s name k
    using that by (cases s) (auto simp: busy_ok_def split: option.splits intro!: exI [of _ name] exI [of _ k])
  have pid: "pres (named_state v) (modB (\<lambda>b. b\<lparr>fio_pid := Some p\<rparr>))" for p
    by (rule pres_modA) (auto simp: busy_ok_def split: option.splits)
  show ?thesis unfolding busy_start_def
    by (rule pres_bind_get, simp only: split_def, rule pres_enter [where Q = "named_state v"])
       (use names in \<open>auto simp: split_def intro!: pres_rules pid [unfolded split_def not_None_eq] pres_onW [unfolded split_def]\<close>)
qed

lemma pres_wait: "pres (ok_state v) (busy_wait E timeout)"
proof -
  have pid: "pres (ok_state v) (modB (\<lambda>b. b\<lparr>fio_pid := None\<rparr>))"
    by (rule pres_modA) (auto simp: busy_ok_def split: option.splits)
  have out: "pres (named_state v) (modB (\<lambda>b. b\<lparr>fio_out_str := Some (from_brace t)\<rparr>))" for t
    using from_brace_shape [of t] by (intro pres_modA) (auto simp: busy_ok_def split: option.splits)
  have attr: "pres (named_state v) (attrB f)" for f unfolding attrB_def by (intro pres_rules)
  show ?thesis unfolding busy_wait_def
    by (intro pres_rules pres_named_attr pid out attr)
qed

text \<open>
  C16: Whatever methods are called on a \<open>BusyWrite\<close> object, in whatever order and with whatever
  outcome, the object stays well formed: a process id or an output is only there after both file
  names are, the two names are of the same run, and an output that \<open>get_write_kib\<close> is to parse has at
  most one character or starts with the opening brace of a JSON object.
\<close>
theorem busy_write_type:
  assumes "busy_reach E v (b, w)"
  shows "busy_ok v b"
proof -
  have "ok_state v s" if "busy_reach E v s" for s
    using that
  proof (induction rule: busy_reach.induct)
    case (new w)
    then show ?case by (simp add: busy_init_def busy_ok_def)
  next
    case (call s a r s')
    have "pres (ok_state v) (busy_do E a)"
    proof (cases a)
      case (Start arg_str base_args)
      then show ?thesis by (simp add: pres_start)
    next
      case (Wait t)
      then show ?thesis by (simp add: pres_wait)
    qed (auto simp: is_running_def kill_jobs_def busy_stop_def get_write_kib_def
        intro!: pres_rules pres_wait split: option.splits)
    then show ?case using call by (rule_tac pres_result)
  qed simp
  then show ?thesis using assms by fastforce
qed

theorem busy_write_type_witness:
  "busy_ok 0 (fst (snd (busy_do route_env (Start [] busy_base_args) (busy_init clean_nodes 0, clean_nodes))))"
proof -
  obtain r b w where run: "busy_do route_env (Start [] busy_base_args) (busy_init clean_nodes 0, clean_nodes) = (r, (b, w))"
    by (metis prod.collapse)
  have "busy_reach route_env 0 (b, w)"
    using busy_reach.call [OF busy_reach.new run] .
  then have "busy_ok 0 b" by (rule busy_write_type)
  then show ?thesis by (simp only: run fst_conv snd_conv)
qed

end
