(* ===== verification/Endurance.thy ===== *)
theory Endurance
  imports Busy_Write
begin

text \<open>
  The endurance tests: \<open>src/python/endurance.py\<close>, which puts the writer, the slow network, the
  delayed disk and the comparison of data together. The time in milliseconds is a parameter, the
  clock, that gives it by the effects so far; the loop of \<open>run_resync\<close> runs on fuel, and ends with
  \<open>None\<close> when the fuel does.
\<close>

section \<open>Configuration\<close>

record endurance_config =
  protocol :: "string option"
  network_rate :: "string option"
  disk_delay_ms :: "nat option"
  diskless_primary :: bool

definition endurance_config_init :: endurance_config where
  "endurance_config_init =
     \<lparr>protocol = None, network_rate = None, disk_delay_ms = None, diskless_primary = False\<rparr>"

text \<open>Strings here hold no quotes or backslashes, which \<open>repr\<close> would escape.\<close>

definition endurance_config_repr :: "endurance_config \<Rightarrow> string" where
  "endurance_config_repr c =
     (let str = (\<lambda>x. case x of None \<Rightarrow> ''None'' | Some s \<Rightarrow> quoted s) in
      ''EnduranceConfig(protocol='' @ str (protocol c) @ '', network_rate='' @ str (network_rate c) @
      '', disk_delay_ms='' @ (case disk_delay_ms c of None \<Rightarrow> ''None'' | Some n \<Rightarrow> str_nat n) @
      '', diskless_primary='' @ (if diskless_primary c then ''True'' else ''False'') @ '')'')"

definition data_size_mb :: nat where
  "data_size_mb = 280"

definition data_size :: string where
  "data_size = str_nat data_size_mb @ ''M''"

definition test_runtime :: nat where
  "test_runtime = 9 * 60"

section \<open>Steps\<close>

text \<open>
  \<open>node.volumes[0].disk_volume.set_delay_ms(ms)\<close>: the object has the new delay before the device
  mapper is told. Only a \<open>DelayVolume\<close> has the method.
\<close>

definition volume_set_delay_ms :: "environment \<Rightarrow> vref \<Rightarrow> nat \<Rightarrow> unit prog" where
  "volume_set_delay_ms E v ms = bindA (getA (\<lambda>w. (vol_host w v, vol_disk (vols w v)))) (\<lambda>(h, d).
     case d of
       None \<Rightarrow> raise AttributeError
     | Some x \<Rightarrow>
         seqA (case x of
                 DelayVolume name backing sectors _ \<Rightarrow>
                   upd_vol v (\<lambda>y. y\<lparr>vol_disk := Some (DelayVolume name backing sectors ms)\<rparr>)
               | _ \<Rightarrow> raise AttributeError)
              (ignore (set_delay_ms E h x ms)))"

definition first_volume :: "nref \<Rightarrow> vref prog" where
  "first_volume n = bindA (exprA (\<lambda>w. node_volumes w n)) (\<lambda>vs. liftA (list_item (items vs) 0))"

definition delay_disks :: "environment \<Rightarrow> nref oset \<Rightarrow> nat \<Rightarrow> unit prog" where
  "delay_disks E ns ms = forA (items ns) (\<lambda>n. bindA (first_volume n) (\<lambda>v. volume_set_delay_ms E v ms))"

definition endurance_setup ::
  "environment \<Rightarrow> rref \<Rightarrow> endurance_config \<Rightarrow> nref \<Rightarrow> nref oset \<Rightarrow> unit prog" where
  "endurance_setup E r cfg primary_n diskful_nodes =
     seqA (set_disk_options r ''al-extents 67; c-max-rate 1G; c-min-rate 0;'')
    (seqA (set_net_options r (''protocol '' @ (if truthy_str (protocol cfg) then the (protocol cfg) else ''C'') @ '';''))
    (seqA (ignore (resource_add_disk E r ''300M'' (Some (items diskful_nodes)) None []
             (disk_defaults\<lparr>do_delay_ms := if truthy_opt (disk_delay_ms cfg) then Some 0 else None\<rparr>) md_defaults))
    (seqA (resource_up_wait E r [] [''Inconsistent'', ''Diskless''])
    (seqA (log ''* Make up-to-date data available.'')
    (seqA (resource_skip_initial_sync E r)
    (seqA (primary E primary_n False True)
          (node_write E primary_n [(''direct'', ''1''), (''size'', data_size), (''bs'', ''1M'')])))))))"

definition start_fio :: "environment \<Rightarrow> nat \<Rightarrow> string \<Rightarrow> unit bprog" where
  "start_fio E runtime fio_arg_str =
     busy_start E (''--runtime='' @ str_nat runtime @ '' --size='' @ data_size @ '' --numjobs=2 '' @
       ''--norandommap=1 --randrepeat=0 '' @
       ''--rw=randrw --rwmixwrite=70 --percentage_random=50 --random_distribution=zipf:2.0 '' @
       ''--blocksize_range=4k-64k '' @ fio_arg_str) busy_base_args"

definition endurance_teardown :: "environment \<Rightarrow> rref \<Rightarrow> nref \<Rightarrow> nref oset \<Rightarrow> unit prog" where
  "endurance_teardown E r primary_n diskful_nodes =
     seqA (node_secondary E primary_n True False)
    (seqA (verify_data E diskful_nodes (Some data_size_mb) True None)
    (seqA (log ''* Shut down and clean up.'')
    (seqA (resource_down E r False)
          (cluster_teardown E True))))"

text \<open>A block of the program in which a \<open>BusyWrite\<close> object lives.\<close>

definition with_writer :: "vref \<Rightarrow> 'a bprog \<Rightarrow> 'a prog" where
  "with_writer v m = (\<lambda>w. case m (busy_init w v, w) of (r, (_, w')) \<Rightarrow> (r, w'))"

text \<open>The node that is made primary and the nodes with a disk.\<close>

definition endurance_nodes :: "rref \<Rightarrow> endurance_config \<Rightarrow> (nref oset \<times> nref \<times> nref oset) prog" where
  "endurance_nodes r cfg =
     bindA (getA (\<lambda>w. res_nodes (ress w r))) (\<lambda>ns.
     bindA (liftA (list_item (items ns) 0)) (\<lambda>p.
     bindA (if diskless_primary cfg then exprA (\<lambda>w. coll_from (=) (node_res w) ns 1) else ret ns) (\<lambda>ds.
       ret (ns, p, ds))))"

section \<open>run\<close>

definition endurance_io :: "environment \<Rightarrow> endurance_config \<Rightarrow> nref \<Rightarrow> unit prog" where
  "endurance_io E cfg primary_n =
     (if truthy_str (protocol cfg)
      then bindA (first_volume primary_n) (\<lambda>v.
             with_writer v
               (seqA (start_fio E test_runtime [])
               (seqA (onW (log (''* Waiting '' @ str_nat test_runtime @ ''s for endurance run'')))
                     (busy_wait E (Some (test_runtime + 10))))))
      else seqA (log ''* Write 4K'')
          (seqA (node_write E primary_n [(''direct'', ''1'')])
          (seqA (log (''* Doing nothing for '' @ str_nat test_runtime @ ''s''))
                (emit (Sleep (Secs test_runtime))))))"

definition endurance_run :: "environment \<Rightarrow> rref \<Rightarrow> endurance_config \<Rightarrow> unit prog" where
  "endurance_run E r cfg =
     bindA (endurance_nodes r cfg) (\<lambda>(ns, primary_n, diskful_nodes).
     bindA (tc_init E primary_n ns) (\<lambda>tc.
     seqA (endurance_setup E r cfg primary_n diskful_nodes)
    (seqA (whenA (truthy_str (network_rate cfg))
             (bindA (exprA (\<lambda>w. coll_from (=) (node_res w) ns 1)) (\<lambda>rest.
                forA (items rest) (\<lambda>n. slow_down E tc n (the (network_rate cfg)) []))))
    (seqA (whenA (truthy_opt (disk_delay_ms cfg)) (delay_disks E diskful_nodes (the (disk_delay_ms cfg))))
    (seqA (endurance_io E cfg primary_n)
    (seqA (whenA (truthy_opt (disk_delay_ms cfg)) (delay_disks E diskful_nodes 0))
    (seqA (endurance_teardown E r primary_n diskful_nodes)
          (tc_reset E tc))))))))"

section \<open>run_resync\<close>

definition fio_rates :: "string list" where
  "fio_rates = [''1M'', ''4M'', ''16M'', ''64M'', ''256M'', ''1G'']"

definition wait_replication :: "environment \<Rightarrow> nref \<Rightarrow> nref \<Rightarrow> string \<Rightarrow> unit prog" where
  "wait_replication E n1 n2 state = bindA (peer_devices (Some n1) (Some n2) None None False) (\<lambda>ps.
     ignore (peer_devices_event E ps [''peer-device .* replication:'' @ state] evd))"

definition resync_round :: "environment \<Rightarrow> rref \<Rightarrow> nref \<Rightarrow> nref \<Rightarrow> nat \<Rightarrow> unit bprog" where
  "resync_round E r source_n target_n nr =
     seqA (start_fio E 60 (''--rate='' @ fio_rates ! (nr mod length fio_rates)))
    (seqA (onW (emit (Sleep (Millis 500))))
    (seqA (onW (bindA (getA (\<lambda>w. [''invalidate-remote'', res_name (ress w r) @ '':'' @ node_name (nodes w target_n)]))
             (node_drbdadm E source_n)))
    (seqA (onW (wait_replication E source_n target_n ''SyncSource''))
    (seqA (onW (wait_replication E target_n source_n ''SyncTarget''))
    (seqA (onW (wait_replication E source_n target_n ''Established''))
    (seqA (onW (wait_replication E target_n source_n ''Established''))
          (busy_stop E)))))))"

fun resync_loop ::
  "environment \<Rightarrow> (effect list \<Rightarrow> nat) \<Rightarrow> nat \<Rightarrow> rref \<Rightarrow> nref \<Rightarrow> nref \<Rightarrow> nat \<Rightarrow> nat \<Rightarrow> unit option bprog" where
  "resync_loop E clock 0 r source_n target_n start nr = ret None"
| "resync_loop E clock (Suc fuel) r source_n target_n start nr =
     bindA (getA (\<lambda>(_, w). int (clock (trace w)) - int start < int (1000 * test_runtime))) (\<lambda>more.
       if more
       then seqA (resync_round E r source_n target_n nr)
                 (resync_loop E clock fuel r source_n target_n start (Suc nr))
       else ret (Some ()))"

text \<open>One traffic control per node, slowing down its connections to all others.\<close>

definition slow_network :: "environment \<Rightarrow> nref oset \<Rightarrow> string \<Rightarrow> traffic_control list prog" where
  "slow_network E ns rate = mapA (items ns) (\<lambda>from_n.
     bindA (tc_init E from_n ns) (\<lambda>tc.
     seqA (forA (items ns) (\<lambda>to_n. whenA (to_n \<noteq> from_n) (slow_down E tc to_n rate [])))
          (ret tc)))"

definition source_target :: "world \<Rightarrow> nref oset \<Rightarrow> exn + nref \<times> nref" where
  "source_target w ds =
     (case coll_to (=) (node_res w) ds 2 of
        Inl e \<Rightarrow> Inl e
      | Inr two \<Rightarrow> (case items two of [a, b] \<Rightarrow> Inr (a, b) | _ \<Rightarrow> Inl ValueError))"

definition resync_body ::
  "environment \<Rightarrow> (effect list \<Rightarrow> nat) \<Rightarrow> nat \<Rightarrow> rref \<Rightarrow> endurance_config \<Rightarrow> nref oset \<Rightarrow> nref \<Rightarrow> nref oset \<Rightarrow>
   nref \<Rightarrow> nref \<Rightarrow> unit option bprog" where
  "resync_body E clock fuel r cfg ns primary_n diskful_nodes source_n target_n =
     bindA (onW (if truthy_str (network_rate cfg)
                 then slow_network E ns (the (network_rate cfg)) else ret [])) (\<lambda>tcs.
     seqA (onW (whenA (truthy_opt (disk_delay_ms cfg)) (delay_disks E diskful_nodes (the (disk_delay_ms cfg)))))
    (bindA (getA (\<lambda>(_, w). clock (trace w))) (\<lambda>start.
     bindA (resync_loop E clock fuel r source_n target_n start 0) (\<lambda>ended.
       case ended of
         None \<Rightarrow> ret None
       | Some u \<Rightarrow>
           seqA (onW (whenA (truthy_opt (disk_delay_ms cfg)) (delay_disks E diskful_nodes 0)))
          (seqA (onW (endurance_teardown E r primary_n diskful_nodes))
          (seqA (onW (forA tcs (tc_reset E)))
                (ret (Some u))))))))"

definition run_resync ::
  "environment \<Rightarrow> (effect list \<Rightarrow> nat) \<Rightarrow> nat \<Rightarrow> rref \<Rightarrow> endurance_config \<Rightarrow> unit option prog" where
  "run_resync E clock fuel r cfg =
     bindA (endurance_nodes r cfg) (\<lambda>(ns, primary_n, diskful_nodes).
     bindA (exprA (\<lambda>w. source_target w diskful_nodes)) (\<lambda>(source_n, target_n).
     seqA (endurance_setup E r cfg primary_n diskful_nodes)
    (bindA (first_volume primary_n) (\<lambda>v.
     with_writer v
       (resync_body E clock fuel r cfg ns primary_n diskful_nodes source_n target_n)))))"

section \<open>The loop of run_resync ends\<close>

text \<open>Effects only ever get added to the trace; here for the writer's statements.\<close>

definition longer :: "world \<Rightarrow> world \<Rightarrow> bool" where
  "longer w w' \<longleftrightarrow> (\<exists>es. trace w' = trace w @ es)"

interpretation lw: step_rel longer
  by unfold_locales (auto simp: longer_def)

interpretation lb: step_rel "\<lambda>s s'. longer (snd s) (snd s')"
  by unfold_locales (auto intro: lw.step_refl lw.step_trans)

lemma longer_deployed: "dp.within m \<Longrightarrow> lw.within m"
  by (rule lw.withinI) (auto simp: longer_def deployed_def dest: dp.withinD)

lemma longer_effects: "only_effects m \<Longrightarrow> lw.within m"
  by (intro longer_deployed deployed_effects)

lemma longer_mod: "(\<And>w. trace (f w) = trace w) \<Longrightarrow> lw.within (modA f)"
  by (rule lw.within_mod) (simp add: longer_def)

lemma longer_onW: "lw.within m \<Longrightarrow> lb.within (onW m)"
  by (rule lb.withinI) (auto simp: onW_def dest: lw.withinD split: prod.splits)

lemma longer_modB: "lb.within (modB f)"
  by (rule lb.within_mod) (simp add: longer_def split: prod.splits)

lemma longer_upd_host: "lw.within (upd_host h f)"
  unfolding upd_host_def by (rule longer_mod) simp

lemmas longer_rules = lw.within_rules lb.within_rules longer_onW longer_modB longer_upd_host

lemma longer_native_filename: "lw.within (native_filename E h f)"
  unfolding native_filename_def windows_native_filename_def
  by (intro longer_effects effect_rules)

lemma longer_start: "lb.within (busy_start E a c)"
  unfolding busy_start_def
  by (intro longer_rules longer_native_filename longer_deployed [OF deployed_volume_device]
      longer_deployed [OF deployed_node_stdout])

lemma longer_wait: "lb.within (busy_wait E t)"
  unfolding busy_wait_def attrB_def save_log_def ignore_def
  by (intro longer_rules longer_deployed [OF deployed_node_run] longer_deployed [OF deployed_node_stdout]
      longer_effects [OF effects_emit])

lemma longer_stop: "lb.within (busy_stop E)"
  unfolding busy_stop_def
  by (intro longer_rules longer_wait longer_deployed [OF deployed_node_cmd])

lemma longer_connection: "lw.within (Connection n m)"
  unfolding Connection_def by (intro longer_rules longer_mod) simp

lemma longer_wait_replication: "lw.within (wait_replication E n m st)"
  unfolding wait_replication_def peer_devices_def connections_def ignore_def
  by (intro longer_rules longer_connection longer_effects [OF effects_exprA] longer_effects [OF effects_events(4)])

text \<open>What \<open>time.time\<close> and \<open>time.sleep\<close> promise: time does not go back, and a sleep takes its time.\<close>

definition clock_doc :: "(effect list \<Rightarrow> nat) \<Rightarrow> bool" where
  "clock_doc clock \<longleftrightarrow> (\<forall>tr es. clock tr \<le> clock (tr @ es)) \<and>
     (\<forall>tr d. clock tr + millis d \<le> clock (tr @ [Sleep d]))"

lemma clock_longer: "clock_doc clock \<Longrightarrow> longer w w' \<Longrightarrow> clock (trace w) \<le> clock (trace w')"
  by (auto simp: clock_doc_def longer_def)

lemma round_time:
  assumes clock: "clock_doc clock" and run: "resync_round E r source target k s = (Inr u, s')"
  shows "clock (trace (snd s)) + 500 \<le> clock (trace (snd s'))"
proof -
  let ?drbd = "bindA (getA (\<lambda>w. [''invalidate-remote'', res_name (ress w r) @ '':'' @ node_name (nodes w target)]))
     (node_drbdadm E source)"
  let ?rest = "seqA (onW ?drbd) (seqA (onW (wait_replication E source target ''SyncSource''))
    (seqA (onW (wait_replication E target source ''SyncTarget''))
    (seqA (onW (wait_replication E source target ''Established''))
    (seqA (onW (wait_replication E target source ''Established'')) (busy_stop E)))))"
  have rest: "lb.within ?rest"
    unfolding node_drbdadm_def
    by (intro longer_rules longer_wait_replication longer_stop longer_deployed [OF deployed_node_cmd])
  obtain x a where 1: "start_fio E 60 (''--rate='' @ fio_rates ! (k mod length fio_rates)) s = (Inr x, a)"
    and 2: "seqA (onW (emit (Sleep (Millis 500)))) ?rest a = (Inr u, s')"
    using run unfolding resync_round_def by (rule seq_InrE)
  obtain y b where 3: "onW (emit (Sleep (Millis 500))) a = (Inr y, b)" and 4: "?rest b = (Inr u, s')"
    using 2 by (rule seq_InrE)
  have "longer (snd s) (snd a)" using lb.withinD [OF longer_start 1 [unfolded start_fio_def]] .
  then have sa: "clock (trace (snd s)) \<le> clock (trace (snd a))" using clock_longer [OF clock] by blast
  have "trace (snd b) = trace (snd a) @ [Sleep (Millis 500)]"
    using 3 by (auto simp: onW_def emit_def modA_def split: prod.splits)
  then have ab: "clock (trace (snd a)) + 500 \<le> clock (trace (snd b))"
    using clock unfolding clock_doc_def by (metis millis.simps(2))
  have "clock (trace (snd b)) \<le> clock (trace (snd s'))"
    using clock_longer [OF clock] lb.withinD [OF rest 4] by blast
  with sa ab show ?thesis by simp
qed

lemma resync_loop_ends:
  assumes clock: "clock_doc clock"
  shows "resync_loop E clock fuel r source target start k s = (Inr x, s') \<Longrightarrow> 0 < fuel \<Longrightarrow>
     start \<le> clock (trace (snd s)) \<Longrightarrow> start + 540500 \<le> clock (trace (snd s)) + 500 * fuel \<Longrightarrow>
     x = Some () \<and> start + 540000 \<le> clock (trace (snd s'))"
proof (induction fuel arbitrary: k s)
  case (Suc fuel)
  define more where "more \<longleftrightarrow> int (clock (trace (snd s))) - int start < int (1000 * test_runtime)"
  have run: "(if more then seqA (resync_round E r source target k) (resync_loop E clock fuel r source target start (Suc k))
      else ret (Some ())) s = (Inr x, s')"
    using Suc.prems(1) by (simp add: more_def split_def)
  show ?case
  proof (cases more)
    case False
    then show ?thesis using run Suc.prems(3) by (auto simp: more_def test_runtime_def)
  next
    case True
    then obtain u t where 1: "resync_round E r source target k s = (Inr u, t)"
      and 2: "resync_loop E clock fuel r source target start (Suc k) t = (Inr x, s')"
      using run by (auto elim: seq_InrE)
    have "clock (trace (snd s)) + 500 \<le> clock (trace (snd t))" using clock 1 by (rule round_time)
    moreover have "clock (trace (snd s)) < start + 540000" using True by (auto simp: more_def test_runtime_def)
    ultimately show ?thesis using Suc.IH [OF 2] Suc.prems(3,4) by simp
  qed
qed simp

lemma resync_body_some:
  assumes "clock_doc clock" and "1081 \<le> fuel"
  shows "resync_body E clock fuel r cfg ns p ds source target s \<noteq> (Inr None, s')"
proof
  let ?rest = "\<lambda>tcs x. case x of None \<Rightarrow> ret None
     | Some u \<Rightarrow> seqA (onW (whenA (truthy_opt (disk_delay_ms cfg)) (delay_disks E ds 0)))
          (seqA (onW (endurance_teardown E r p ds)) (seqA (onW (forA tcs (tc_reset E))) (ret (Some u))))"
  assume "resync_body E clock fuel r cfg ns p ds source target s = (Inr None, s')"
  then obtain tcs a where "seqA (onW (whenA (truthy_opt (disk_delay_ms cfg)) (delay_disks E ds (the (disk_delay_ms cfg)))))
     (bindA (getA (\<lambda>(_, w). clock (trace w))) (\<lambda>start.
      bindA (resync_loop E clock fuel r source target start 0) (?rest tcs))) a = (Inr None, s')"
    unfolding resync_body_def by (rule bind_InrE)
  then obtain y c where "bindA (getA (\<lambda>(_, w). clock (trace w))) (\<lambda>start.
      bindA (resync_loop E clock fuel r source target start 0) (?rest tcs)) c = (Inr None, s')"
    by (rule seq_InrE)
  then have "bindA (resync_loop E clock fuel r source target (clock (trace (snd c))) 0) (?rest tcs) c = (Inr None, s')"
    unfolding bind_getA by (simp only: split_def)
  then obtain x d where loop: "resync_loop E clock fuel r source target (clock (trace (snd c))) 0 c = (Inr x, d)"
    and fin: "?rest tcs x d = (Inr None, s')"
    by (rule bind_InrE)
  have "x = Some ()" using resync_loop_ends [OF assms(1) loop] assms(2) by simp
  then show False using fin by (auto elim!: seq_InrE)
qed


definition sleep_clock :: "effect list \<Rightarrow> nat" where
  "sleep_clock tr = sum_list (map (\<lambda>e. case e of Sleep d \<Rightarrow> millis d | _ \<Rightarrow> 0) tr)"


end
