(* ===== verification/Tls.thy ===== *)
theory Tls
  imports Lifecycle
begin

text \<open>
  The certificates of the kernel TLS handshake service: \<open>src/python/tls.py\<close>. The OpenSSL binding is a
  parameter: the keys it generates, in order, and the text form of keys and certificates; a
  certificate is the record of what the code sets in it. The dates are those of \<open>datetime\<close>, whose
  arithmetic the code uses for one hour back and one day ahead.
\<close>

section \<open>Dates\<close>

record datetime =
  year :: nat
  month :: nat
  day :: nat
  hour :: nat
  minute :: nat
  second :: nat

definition leap :: "nat \<Rightarrow> bool" where
  "leap y \<longleftrightarrow> y mod 4 = 0 \<and> (y mod 100 \<noteq> 0 \<or> y mod 400 = 0)"

definition month_days :: "nat \<Rightarrow> nat \<Rightarrow> nat" where
  "month_days y m = (if m = 2 then (if leap y then 29 else 28) else if m \<in> {4, 6, 9, 11} then 30 else 31)"

definition date_ok :: "datetime \<Rightarrow> bool" where
  "date_ok d \<longleftrightarrow> 1000 < year d \<and> year d < 9999 \<and> 1 \<le> month d \<and> month d \<le> 12 \<and>
     1 \<le> day d \<and> day d \<le> month_days (year d) (month d) \<and> hour d < 24 \<and> minute d < 60 \<and> second d < 60"

text \<open>\<open>now + timedelta(days=1)\<close> and \<open>now - timedelta(hours=1)\<close>\<close>

definition plus_day :: "datetime \<Rightarrow> datetime" where
  "plus_day d =
     (if day d < month_days (year d) (month d) then d\<lparr>day := day d + 1\<rparr>
      else if month d < 12 then d\<lparr>month := month d + 1, day := 1\<rparr>
      else d\<lparr>year := year d + 1, month := 1, day := 1\<rparr>)"

definition minus_day :: "datetime \<Rightarrow> datetime" where
  "minus_day d =
     (if 1 < day d then d\<lparr>day := day d - 1\<rparr>
      else if 1 < month d then d\<lparr>month := month d - 1, day := month_days (year d) (month d - 1)\<rparr>
      else d\<lparr>year := year d - 1, month := 12, day := 31\<rparr>)"

definition minus_hour :: "datetime \<Rightarrow> datetime" where
  "minus_hour d = (if 0 < hour d then d\<lparr>hour := hour d - 1\<rparr> else minus_day (d\<lparr>hour := 23\<rparr>))"

definition two_digits :: "nat \<Rightarrow> string" where
  "two_digits n = (if n < 10 then ''0'' @ str_nat n else str_nat n)"

text \<open>\<open>%Y%m%d%H%M%S\<close> and a \<open>Z\<close>\<close>

definition time_text :: "datetime \<Rightarrow> string" where
  "time_text d = str_nat (year d) @ two_digits (month d) @ two_digits (day d) @ two_digits (hour d) @ two_digits (minute d) @
     two_digits (second d) @ ''Z''"

section \<open>Certificates\<close>

record 'k x509 =
  subject_cn :: string
  not_before :: string
  not_after :: string
  issuer_cn :: string
  pubkey :: 'k
  signer :: 'k
  sign_digest :: string

record 'k crypto =
  gen_key :: "nat \<Rightarrow> 'k"  \<comment> \<open>the \<open>i\<close>-th call of \<open>generate_key(TYPE_RSA, 2048)\<close>\<close>
  dump_certificate :: "'k x509 \<Rightarrow> string"
  dump_privatekey :: "'k \<Rightarrow> string"

definition gen_cert :: "datetime \<Rightarrow> 'k \<Rightarrow> string \<Rightarrow> string option \<Rightarrow> 'k \<Rightarrow> 'k x509" where
  "gen_cert now key common_name issuer sign_key =
     \<lparr>subject_cn = common_name, not_before = time_text (minus_hour now), not_after = time_text (plus_day now),
      issuer_cn = (case issuer of Some i \<Rightarrow> i | None \<Rightarrow> common_name), pubkey = key, signer = sign_key,
      sign_digest = ''sha256''\<rparr>"

definition tlshd_config :: string where
  "tlshd_config =
     (let auth = (\<lambda>side. ''[authenticate.'' @ side @ '']'' @ NL @
        ''x509.truststore=/etc/tlshd.d/ca.crt'' @ NL @ ''x509.certificate=/etc/tlshd.d/tls.crt'' @ NL @
        ''x509.private_key=/etc/tlshd.d/tls.key'' @ NL) in
      NL @ ''[debug]'' @ NL @ ''loglevel=10'' @ NL @ ''tls=10'' @ NL @ NL @ auth ''client'' @ NL @ auth ''server'')"

definition put_file :: "environment \<Rightarrow> href \<Rightarrow> string \<Rightarrow> string \<Rightarrow> unit prog" where
  "put_file E h path text = ignore (host_run E h [''bash'', ''-c'', ''cat > '' @ path] (with_stdin text))"

definition ca_cert :: "'k crypto \<Rightarrow> datetime \<Rightarrow> 'k x509" where
  "ca_cert C now = gen_cert now (gen_key C 0) ''drbd9-tests'' None (gen_key C 0)"

definition node_cert :: "'k crypto \<Rightarrow> datetime \<Rightarrow> string \<Rightarrow> nat \<Rightarrow> 'k x509" where
  "node_cert C now name i = gen_cert now (gen_key C i) name (Some (issuer_cn (ca_cert C now))) (gen_key C 0)"

definition tls_host :: "environment \<Rightarrow> 'k crypto \<Rightarrow> datetime \<Rightarrow> nat \<times> href \<Rightarrow> unit prog" where
  "tls_host E C now = (\<lambda>(i, h).
     bindA (getA (\<lambda>w. host_name (hosts w h))) (\<lambda>name.
     seqA (host_cmd E h [''mkdir'', ''-p'', ''/etc/tlshd.d''])
    (seqA (put_file E h ''/etc/tlshd.conf'' tlshd_config)
    (seqA (put_file E h ''/etc/tlshd.d/ca.crt'' (dump_certificate C (ca_cert C now)))
    (seqA (put_file E h ''/etc/tlshd.d/tls.crt'' (dump_certificate C (node_cert C now name i)))
    (seqA (put_file E h ''/etc/tlshd.d/tls.key'' (dump_privatekey C (gen_key C i)))
    (seqA (ignore (host_run E h [''modprobe'', ''handshake''] (run_defaults\<lparr>ro_catch := True\<rparr>)))
          (host_cmd E h [''systemctl'', ''restart'', ''tlshd.service'']))))))))"

text \<open>The authority's key is the first one generated, then one per host.\<close>

definition setup_kernel_tls_helper :: "environment \<Rightarrow> 'k crypto \<Rightarrow> datetime \<Rightarrow> href list \<Rightarrow> unit prog" where
  "setup_kernel_tls_helper E C now hs = forA (zip [1..<Suc (length hs)] hs) (tls_host E C now)"

section \<open>Now is within the validity\<close>

text \<open>The order of two times.\<close>

definition earlier :: "datetime \<Rightarrow> datetime \<Rightarrow> bool" where
  "earlier a b \<longleftrightarrow> year a < year b \<or> year a = year b \<and> (month a < month b \<or> month a = month b \<and>
     (day a < day b \<or> day a = day b \<and> (hour a < hour b \<or> hour a = hour b \<and>
     (minute a < minute b \<or> minute a = minute b \<and> second a < second b))))"

lemma plus_day_later: "date_ok d \<Longrightarrow> earlier d (plus_day d)"
  by (auto simp: earlier_def plus_day_def)

lemma minus_hour_earlier: "date_ok d \<Longrightarrow> earlier (minus_hour d) d"
  by (auto simp: earlier_def minus_hour_def minus_day_def date_ok_def)

lemma minus_plus_day:
  assumes "date_ok d"
  shows "minus_day (plus_day d) = d"
proof -
  have "day d = month_days (year d) (month d)" if "\<not> day d < month_days (year d) (month d)"
    using that assms by (simp add: date_ok_def)
  moreover have "month d = 12" if "\<not> month d < 12" using that assms by (simp add: date_ok_def)
  moreover have "0 < day d" "0 < month d" using assms by (simp_all add: date_ok_def)
  ultimately show ?thesis by (auto simp: minus_day_def plus_day_def month_days_def)
qed

text \<open>
  Every host gets a certificate for its own key, under its own name, that the authority of the
  common certificate signed, and that names this authority as its issuer.
\<close>

lemma node_cert_chain:
  "signer (node_cert C now name i) = pubkey (ca_cert C now)"
  "issuer_cn (node_cert C now name i) = subject_cn (ca_cert C now)"
  "pubkey (node_cert C now name i) = gen_key C i" "subject_cn (node_cert C now name i) = name"
  "signer (ca_cert C now) = pubkey (ca_cert C now)"
  by (simp_all add: node_cert_def ca_cert_def gen_cert_def)

section \<open>What is installed\<close>

text \<open>A file that a host was told to write between two states, and did.\<close>

definition installed :: "host \<Rightarrow> string \<Rightarrow> string \<Rightarrow> world \<Rightarrow> world \<Rightarrow> bool" where
  "installed h path text w w' \<longleftrightarrow> (\<exists>c a b. trace w' = trace w @ a @ Ssh c (Inr 0) # b \<and>
     sc_host c = host_name h \<and> sc_stdin c = Some text \<and>
     sc_cmd c = command_string h [''bash'', ''-c'', ''cat > '' @ path] run_defaults)"

lemma installed_grows:
  assumes "grows w p" and "installed h path text p q" and "grows q w'"
  shows "installed h path text w w'"
proof -
  obtain c a b where 1: "trace q = trace p @ a @ Ssh c (Inr 0) # b" and c: "sc_host c = host_name h"
    "sc_stdin c = Some text" "sc_cmd c = command_string h [''bash'', ''-c'', ''cat > '' @ path] run_defaults"
    using assms(2) unfolding installed_def by blast
  obtain x y where 2: "trace p = trace w @ x" "trace w' = trace q @ y"
    using assms(1,3) unfolding grows_def by blast
  have "trace w' = trace w @ (x @ a) @ Ssh c (Inr 0) # (b @ y)" using 1 2 by simp
  then show ?thesis using c unfolding installed_def by blast
qed

lemma host_run_stdin:
  assumes "host_run E h cmd (with_stdin text) w = (Inr r, w')"
  shows "\<exists>c a b. trace w' = trace w @ a @ Ssh c (Inr 0) # b \<and> sc_host c = host_name (hosts w h) \<and>
     sc_stdin c = Some text \<and> sc_cmd c = command_string (hosts w h) cmd run_defaults"
proof -
  let ?cs = "command_string (hosts w h) cmd (with_stdin text)"
  let ?l = "Log (host_name (hosts w h) @ '': '' @ ?cs)"
  let ?c = "\<lparr>sc_host = host_name (hosts w h), sc_cmd = ?cs, sc_stdin = Some text, sc_env = [], sc_timeout = None\<rparr>"
  have cs: "?cs = command_string (hosts w h) cmd run_defaults"
    by (cases "netns (hosts w h)") (simp_all add: command_string_def run_defaults_def)
  have "trace w' = trace w @ [?l] @ Ssh ?c (Inr 0) # []"
    using assms unfolding host_run_def ssh_exec_def emit_def
    by (auto simp: Let_def run_defaults_def bindA_def seqA_def getA_def modA_def
        ret_def raise_def liftA_def split: if_splits sum.splits prod.splits)
  then show ?thesis by (intro exI [of _ ?c] exI [of _ "[?l]"] exI [of _ "[]"]) (simp add: cs)
qed

lemma put_file_installed:
  assumes "put_file E h path text w = (Inr u, w')"
  shows "installed (hosts w h) path text w w'"
proof -
  obtain r where "host_run E h [''bash'', ''-c'', ''cat > '' @ path] (with_stdin text) w = (Inr r, w')"
    using assms unfolding put_file_def ignore_def by (auto elim!: bind_InrE)
  then show ?thesis unfolding installed_def by (rule host_run_stdin)
qed

lemma effects_put_file [effect_rules]: "only_effects (put_file E h path text)"
  unfolding put_file_def ignore_def by (intro effect_rules)

lemma effects_tls_host: "only_effects (tls_host E C now p)"
  unfolding tls_host_def ignore_def by (cases p) (auto intro!: effect_rules)

lemma tls_host_installed:
  assumes "tls_host E C now (i, h) w = (Inr u, w')"
  shows "installed (hosts w h) ''/etc/tlshd.d/ca.crt'' (dump_certificate C (ca_cert C now)) w w'"
    and "installed (hosts w h) ''/etc/tlshd.d/tls.crt'' (dump_certificate C (node_cert C now (host_name (hosts w h)) i)) w w'"
    and "installed (hosts w h) ''/etc/tlshd.d/tls.key'' (dump_privatekey C (gen_key C i)) w w'"
proof -
  let ?name = "host_name (hosts w h)"
  let ?k5 = "host_cmd E h [''systemctl'', ''restart'', ''tlshd.service'']"
  let ?k4 = "seqA (ignore (host_run E h [''modprobe'', ''handshake''] (run_defaults\<lparr>ro_catch := True\<rparr>))) ?k5"
  let ?key = "put_file E h ''/etc/tlshd.d/tls.key'' (dump_privatekey C (gen_key C i))"
  let ?crt = "put_file E h ''/etc/tlshd.d/tls.crt'' (dump_certificate C (node_cert C now ?name i))"
  let ?ca = "put_file E h ''/etc/tlshd.d/ca.crt'' (dump_certificate C (ca_cert C now))"
  let ?pre = "seqA (host_cmd E h [''mkdir'', ''-p'', ''/etc/tlshd.d'']) (put_file E h ''/etc/tlshd.conf'' tlshd_config)"
  have run: "seqA ?pre (seqA ?ca (seqA ?crt (seqA ?key ?k4))) w = (Inr u, w')"
    using assms unfolding tls_host_def seq_assoc by simp
  have eff: "only_effects ?pre" "only_effects ?ca" "only_effects ?crt" "only_effects ?key" "only_effects ?k4"
    unfolding ignore_def by (intro effect_rules)+
  obtain x1 w1 where 1: "?pre w = (Inr x1, w1)" and r1: "seqA ?ca (seqA ?crt (seqA ?key ?k4)) w1 = (Inr u, w')"
    using run by (rule seq_InrE)
  obtain x2 w2 where 2: "?ca w1 = (Inr x2, w2)" and r2: "seqA ?crt (seqA ?key ?k4) w2 = (Inr u, w')"
    using r1 by (rule seq_InrE)
  obtain x3 w3 where 3: "?crt w2 = (Inr x3, w3)" and r3: "seqA ?key ?k4 w3 = (Inr u, w')"
    using r2 by (rule seq_InrE)
  obtain x4 w4 where 4: "?key w3 = (Inr x4, w4)" and r4: "?k4 w4 = (Inr u, w')"
    using r3 by (rule seq_InrE)
  have g: "grows w w1" "grows w1 w2" "grows w2 w3" "grows w3 w4" "grows w4 w'"
    using eff.withinD [OF eff(1) 1] eff.withinD [OF eff(2) 2] eff.withinD [OF eff(3) 3]
      eff.withinD [OF eff(4) 4] eff.withinD [OF eff(5) r4] by simp_all
  note ts = eff.step_trans
  have "hosts w1 = hosts w" "hosts w2 = hosts w" "hosts w3 = hosts w"
    using g(1,2,3) unfolding grows_def by (metis objects_eqD(1))+
  then show "installed (hosts w h) ''/etc/tlshd.d/ca.crt'' (dump_certificate C (ca_cert C now)) w w'"
    and "installed (hosts w h) ''/etc/tlshd.d/tls.crt'' (dump_certificate C (node_cert C now ?name i)) w w'"
    and "installed (hosts w h) ''/etc/tlshd.d/tls.key'' (dump_privatekey C (gen_key C i)) w w'"
    using installed_grows [OF g(1) put_file_installed [OF 2] ts [OF g(3) ts [OF g(4) g(5)]]]
      installed_grows [OF ts [OF g(1) g(2)] put_file_installed [OF 3] ts [OF g(4) g(5)]]
      installed_grows [OF ts [OF g(1) ts [OF g(2) g(3)]] put_file_installed [OF 4] g(5)] by simp_all
qed


lemma ok_host_run: "\<not> ro_return_stdout opts \<Longrightarrow> returns (\<lambda>_. True) (host_run ok_env h cmd opts) None"
  by (simp add: returns_def host_run_def ssh_exec_def ok_env_def Let_def bindA_def seqA_def getA_def
      emit_def modA_def ret_def)

lemma ok_tls_host: "returns (\<lambda>_. True) (tls_host ok_env C now (i, h)) ()"
proof -
  have cmd: "returns (\<lambda>_. True) (host_cmd ok_env h cmd) ()" for cmd
    unfolding host_cmd_def by (rule returns_bind [OF ok_host_run returns_ret]) (simp add: run_defaults_def)
  have put: "returns (\<lambda>_. True) (put_file ok_env h path t) ()" for path t
    unfolding put_file_def ignore_def by (rule returns_bind [OF ok_host_run returns_ret]) (simp add: run_defaults_def)
  have "returns (\<lambda>_. True) (ignore (host_run ok_env h cmd (run_defaults\<lparr>ro_catch := True\<rparr>))) ()" for cmd
    unfolding ignore_def by (rule returns_bind [OF ok_host_run returns_ret]) (simp add: run_defaults_def)
  then show ?thesis unfolding tls_host_def prod.case
    by (rule_tac returns_bind_get) (rule returns_seq, rule cmd, rule returns_seq, rule put, rule returns_seq, rule put,
        rule returns_seq, rule put, rule returns_seq, rule put, rule returns_seq, assumption, rule cmd)
qed

definition sample_crypto :: "nat crypto" where
  "sample_crypto = \<lparr>gen_key = (\<lambda>i. i), dump_certificate = (\<lambda>c. subject_cn c), dump_privatekey = str_nat\<rparr>"

definition new_year :: datetime where
  "new_year = \<lparr>year = 2024, month = 1, day = 1, hour = 0, minute = 30, second = 0\<rparr>"


text \<open>
  The texts end in \<open>Z\<close>, but \<open>datetime.now()\<close> is local time. Where local time is two hours ahead, the
  moment that is now in UTC comes before the first moment of the validity.
\<close>

lemma month_days_bounds: "28 \<le> month_days y m" "month_days y 12 = 31"
  by (simp_all add: month_days_def)

lemma minus_hour_ok:
  assumes "date_ok now" and "1001 < year now"
  shows "date_ok (minus_hour now)"
proof (cases "0 < hour now")
  case True
  then show ?thesis using assms by (auto simp: date_ok_def minus_hour_def)
next
  case False
  have "1 \<le> month_days (year now) (month now - 1)" using month_days_bounds(1) [of "year now" "month now - 1"] by simp
  then show ?thesis using False assms
    by (auto simp: date_ok_def minus_hour_def minus_day_def month_days_bounds(2))
qed

lemma tls_validity_is_local:
  assumes "date_ok now" and "1001 < year now" and "utc = minus_hour (minus_hour now)"
  shows "\<exists>from. not_before (gen_cert now key name issuer sign_key) = time_text from \<and> earlier utc from"
  using assms minus_hour_earlier [OF minus_hour_ok] by (auto simp: gen_cert_def)

end
