(* ===== verification/Test_Start.thy ===== *)
theory Test_Start
  imports Tls
begin

text \<open>
  The start of a test as a whole: \<open>Host.start_dmesg\<close> and \<open>Host.start_dmesg_with_cmd\<close> of
  \<open>src/python/drbdtest.py\<close>, and \<open>setup\<close> with the capture of the kernel logs and the TLS certificates in
  place. The thread that reads the log is in theory \<open>Logging\<close>; the runs here are those in which
  the wait for its first line ends, and \<open>pid_line\<close> is this line, by host and what happened before.
\<close>

definition start_dmesg_with_cmd :: "(effect list \<Rightarrow> string \<Rightarrow> string) \<Rightarrow> href \<Rightarrow> string \<Rightarrow> unit prog" where
  "start_dmesg_with_cmd pid_line h cmd =
     bindA (getA (\<lambda>w. (host_name (hosts w h), path_join (logdir w) (''dmesg-'' @ host_name (hosts w h))))) (\<lambda>(hn, out_path).
     seqA (emit (LocalWrite out_path []))
    (seqA (emit (Spawn hn cmd))
    (bindA (getA (\<lambda>w. pid_line (trace w) hn)) (\<lambda>first_message.
       upd_host h (\<lambda>x. x\<lparr>dmesg_process := True, dmesg_pid := first_message\<rparr>)))))"

definition start_dmesg :: "(effect list \<Rightarrow> string \<Rightarrow> string) \<Rightarrow> href \<Rightarrow> unit prog" where
  "start_dmesg pid_line h = on_platform h
     (start_dmesg_with_cmd pid_line h ''echo $$ ; dmesg --follow-new --time-format=iso || dmesg --follow'')
     (start_dmesg_with_cmd pid_line h ''echo $$ ; tail -f /cygdrive/c/WinDRBD/windrbd-kernel.log'')"

text \<open>\<open>setup\<close> with everything it calls.\<close>

definition full_setup ::
  "environment \<Rightarrow> (effect list \<Rightarrow> string \<Rightarrow> string) \<Rightarrow> 'k crypto \<Rightarrow> datetime \<Rightarrow> setup_args \<Rightarrow> nat option \<Rightarrow> nat option \<Rightarrow>
   nat \<Rightarrow> bool \<Rightarrow> string option \<Rightarrow> unit prog" where
  "full_setup E pid_line C now args exact max_nodes min_nodes multi_paths ns =
     test_setup E (start_dmesg pid_line) (setup_kernel_tls_helper E C now) args exact max_nodes min_nodes multi_paths ns"

section \<open>The hosts after the setup\<close>

text \<open>
  What every statement after the creation of a host keeps: the list of hosts, their names, the
  versions that are asked for, and a kernel log that is captured stays captured.
\<close>

definition staffed :: "world \<Rightarrow> world \<Rightarrow> bool" where
  "staffed w w' \<longleftrightarrow> cl_hosts w' = cl_hosts w \<and> next_href w' = next_href w \<and>
     (\<forall>h. host_name (hosts w' h) = host_name (hosts w h) \<and> (dmesg_process (hosts w h) \<longrightarrow> dmesg_process (hosts w' h)))"

interpretation st: step_rel staffed
  by unfold_locales (auto simp: staffed_def)

named_theorems staff_rules \<open>statements that keep the hosts of the cluster\<close>

lemmas staffed_within [staff_rules] = st.within_rules

lemma objects_more: "objects w' = objects w \<Longrightarrow> cl_hosts w' = cl_hosts w \<and> next_href w' = next_href w"
proof -
  assume "objects w' = objects w"
  then have "cl_hosts (objects w') = cl_hosts (objects w)" "next_href (objects w') = next_href (objects w)" by simp_all
  then show ?thesis by (simp add: objects_def)
qed

lemma staffed_effects: "only_effects m \<Longrightarrow> st.within m"
proof (rule st.withinI)
  fix w r w' assume "only_effects m" "m w = (r, w')"
  then have "objects w' = objects w" by (rule effects_objects)
  then show "staffed w w'" using objects_more [of w' w] objects_eqD(1) [of w' w] by (simp add: staffed_def)
qed

lemma staffed_upd_host [staff_rules]:
  "(\<And>x. host_name (f x) = host_name x \<and> (dmesg_process x \<longrightarrow> dmesg_process (f x))) \<Longrightarrow> st.within (upd_host h f)"
  unfolding upd_host_def by (rule st.within_mod) (simp add: staffed_def)

lemma staffed_platform [staff_rules]:
  "st.within a \<Longrightarrow> st.within b \<Longrightarrow> st.within (case ph of LinuxPlatform \<Rightarrow> a | WindowsPlatform \<Rightarrow> b)"
  by (cases ph) simp_all

lemma staffed_called [staff_rules]:
  "(\<And>k c. st.within (f k c)) \<Longrightarrow> st.within g \<Longrightarrow> st.within (case e of CalledProcessError k c \<Rightarrow> f k c | _ \<Rightarrow> g)"
  by (cases e) simp_all

lemma staffed_commands [staff_rules]:
  "st.within (host_run E h cmd opts)" "st.within (host_stdout E h cmd opts)" "st.within (host_cmd E h cmd)"
  "st.within (host_run_quiet E h cmd opts)" "st.within (ssh_exec E c)" "st.within (emit ef)"
  "st.within (run_helper E h helper args t b)" "st.within (tls_host E C now x)" "st.within (cluster_logscan E yes fs no eopts)"
  by (intro staffed_effects effect_rules effects_run_helper effects_tls_host)+

lemma staffed_ignore [staff_rules]: "st.within m \<Longrightarrow> st.within (ignore m)"
  unfolding ignore_def by (intro staff_rules)

lemma staffed_read_version [staff_rules]: "st.within (host_read_drbd_version E h)"
  unfolding host_read_drbd_version_def read_drbd_version_def windows_read_drbd_version_def windows_version_line_def
  by (intro staff_rules) simp_all

lemma staffed_init_host [staff_rules]:
  "st.within (linux_init_host E h backend backing mp ns)" "st.within (windows_init_host E h mp ns)"
  unfolding linux_init_host_def windows_init_host_def get_default_addr_def note_address_def ensure_netdev_def
  by ((intro staff_rules)[1]; simp)+

lemma staffed_probe: "st.within (host_probe E h name backend backing mp ns)"
  unfolding host_probe_def get_platform_helper_def by (intro staff_rules) simp_all

lemma staffed_global_config: "st.within (host_global_config E h)"
  unfolding host_global_config_def by (intro staff_rules)

lemma staffed_start_dmesg: "st.within (start_dmesg pl h)"
  unfolding start_dmesg_def start_dmesg_with_cmd_def by (intro staff_rules) simp_all

lemma start_dmesg_captures: "start_dmesg pl h w = (Inr (), w') \<Longrightarrow> dmesg_process (hosts w' h)"
  unfolding start_dmesg_def start_dmesg_with_cmd_def
  by (auto simp: upd_host_def elim!: bind_InrE seq_InrE split: platform.splits)

lemma host_init_new:
  assumes "host_init E (start_dmesg pl) name vg backend backing p mp ns w = (Inr h, w')"
  shows "h = next_href w \<and> next_href w' = Suc h \<and> cl_hosts w' = cl_hosts w \<and> host_name (hosts w' h) = name \<and>
    dmesg_process (hosts w' h) \<and> (\<forall>k. k \<noteq> h \<longrightarrow> host_name (hosts w' k) = host_name (hosts w k) \<and>
      (dmesg_process (hosts w k) \<longrightarrow> dmesg_process (hosts w' k)))"
proof -
  let ?h = "next_href w"
  let ?w = "w\<lparr>next_href := Suc ?h, hosts := (hosts w)(?h := new_host name vg p)\<rparr>"
  have "seqA (host_probe E ?h name backend backing mp ns) (seqA (start_dmesg pl ?h)
      (seqA (host_global_config E ?h) (ret ?h))) ?w = (Inr h, w')"
    using assms by (simp add: host_init_def)
  then obtain x w1 where 1: "host_probe E ?h name backend backing mp ns ?w = (Inr x, w1)"
    and r: "seqA (start_dmesg pl ?h) (seqA (host_global_config E ?h) (ret ?h)) w1 = (Inr h, w')"
    by (rule seq_InrE)
  from r obtain y w2 where 2: "start_dmesg pl ?h w1 = (Inr y, w2)"
    and r': "seqA (host_global_config E ?h) (ret ?h) w2 = (Inr h, w')" by (rule seq_InrE)
  from r' obtain z w3 where "host_global_config E ?h w2 = (Inr z, w3)" "ret ?h w3 = (Inr h, w')" by (rule seq_InrE)
  then have 3: "host_global_config E ?h w2 = (Inr z, w')" and h: "h = ?h" by simp_all
  have "staffed ?w w1" "staffed w1 w2" "staffed w2 w'"
    using st.withinD [OF staffed_probe 1] st.withinD [OF staffed_start_dmesg 2] st.withinD [OF staffed_global_config 3] by blast+
  moreover have "dmesg_process (hosts w2 ?h)" using start_dmesg_captures 2 by simp
  ultimately show ?thesis by (simp add: staffed_def h new_host_def)
qed

definition manned :: "world \<Rightarrow> string list \<Rightarrow> bool" where
  "manned w names \<longleftrightarrow> map (\<lambda>h. host_name (hosts w h)) (cl_hosts w) = names \<and> distinct (cl_hosts w) \<and>
     (\<forall>h \<in> set (cl_hosts w). h < next_href w \<and> dmesg_process (hosts w h))"

lemma manned_staffed: "manned w names \<Longrightarrow> staffed w w' \<Longrightarrow> manned w' names"
  by (simp add: manned_def staffed_def)

lemma staffed_touch [staff_rules]: "st.within (touch_config r)"
  unfolding touch_config_def upd_node_def by (intro staff_rules st.within_mod) (simp add: staffed_def)

lemma staffed_install [staff_rules]: "st.within (install_drbd E h version)"
  unfolding install_drbd_def host_rmmod_def linux_rmmod_def by (intro staff_rules)

lemma setup_host_step:
  assumes "manned w names"
    and "bindA (host_init E (start_dmesg pl) name vg backend backing p mp ns) (\<lambda>h.
       seqA (modA (\<lambda>w. w\<lparr>cl_hosts := cl_hosts w @ [h]\<rparr>))
            (whenA other (seqA (install_drbd E h v) (upd_host h (\<lambda>x. x\<lparr>has_other_version := True\<rparr>))))) w = (Inr (), w')"
  shows "manned w' (names @ [name])"
proof -
  obtain h w1 where 1: "host_init E (start_dmesg pl) name vg backend backing p mp ns w = (Inr h, w1)"
    and 2: "whenA other (seqA (install_drbd E h v) (upd_host h (\<lambda>x. x\<lparr>has_other_version := True\<rparr>)))
       (w1\<lparr>cl_hosts := cl_hosts w1 @ [h]\<rparr>) = (Inr (), w')"
    using assms(2) by (auto elim!: bind_InrE)
  have "\<forall>k \<in> set (cl_hosts w). k \<noteq> h" using assms(1) host_init_new [OF 1] by (auto simp: manned_def)
  then have "manned (w1\<lparr>cl_hosts := cl_hosts w1 @ [h]\<rparr>) (names @ [name])"
    using assms(1) host_init_new [OF 1] by (auto simp: manned_def less_SucI)
  moreover have "st.within (whenA other (seqA (install_drbd E h v) (upd_host h (\<lambda>x. x\<lparr>has_other_version := True\<rparr>))))"
    by (intro staff_rules) simp
  ultimately show ?thesis using manned_staffed st.withinD 2 by blast
qed

lemma setup_hosts_manned:
  assumes "cl_hosts w = []" and "setup_hosts E (start_dmesg pl) args mp ns w = (Inr (), w')"
  shows "manned w' (arg_hosts args)"
proof -
  let ?body = "\<lambda>(i, name). bindA (host_init E (start_dmesg pl) name (arg_volume_group args) (arg_storage_backend args)
                (arg_backing_device args) 7789 mp ns) (\<lambda>h.
       seqA (modA (\<lambda>w. w\<lparr>cl_hosts := cl_hosts w @ [h]\<rparr>))
            (whenA (truthy_str (arg_drbd_version_other args) \<and> int i = arg_drbd_other_node args)
              (seqA (install_drbd E h (the (arg_drbd_version_other args)))
                    (upd_host h (\<lambda>x. x\<lparr>has_other_version := True\<rparr>)))))"
  have "manned w' (names @ map snd xs)" if "manned w names" "forA xs ?body w = (Inr (), w')" for xs names w
    using that
  proof (induction xs arbitrary: w names)
    case (Cons x xs)
    obtain i name where x: "x = (i, name)" by (cases x)
    obtain w1 where 1: "?body (i, name) w = (Inr (), w1)" and 2: "forA xs ?body w1 = (Inr (), w')"
      using Cons.prems(2) unfolding x forA.simps by (rule seq_InrE) simp
    have "manned w1 (names @ [name])" using setup_host_step [OF Cons.prems(1)] 1 by simp
    from Cons.IH [OF this 2] show ?case by (simp add: x)
  qed simp
  moreover have "manned w []" using assms(1) by (simp add: manned_def)
  moreover have "map snd (enumerate 0 (arg_hosts args)) = arg_hosts args" by (simp add: enumerate_eq_zip)
  ultimately show ?thesis using assms(2) unfolding setup_hosts_def by fastforce
qed

text \<open>After the versions were checked the hosts do not change any more.\<close>

definition settled :: "world \<Rightarrow> world \<Rightarrow> bool" where
  "settled w w' \<longleftrightarrow> hosts w' = hosts w \<and> cl_hosts w' = cl_hosts w \<and> next_href w' = next_href w \<and>
     cl_drbd_version w' = cl_drbd_version w \<and> cl_drbd_version_other w' = cl_drbd_version_other w"

interpretation se: step_rel settled
  by unfold_locales (auto simp: settled_def)

lemma settled_effects: "only_effects m \<Longrightarrow> se.within m"
proof (rule se.withinI)
  fix w r w' assume "only_effects m" "m w = (r, w')"
  then have o: "objects w' = objects w" by (rule effects_objects)
  then have "cl_drbd_version (objects w') = cl_drbd_version (objects w)"
    "cl_drbd_version_other (objects w') = cl_drbd_version_other (objects w)" by simp_all
  then show "settled w w'" using objects_more [OF o] objects_eqD(1) [OF o] by (simp add: settled_def objects_def)
qed

lemma settled_end:
  "se.within (write_drbd_versions_meta E f)" "se.within (forA hs host_listen_to_events)"
  "se.within (cluster_logscan E yes fs no opts)" "se.within (disable_faults E h)" "se.within (check_selinux E h)"
proof -
  have "only_effects (version_entry E h d)" for h d
    unfolding version_entry_def by (intro effect_rules effects_run_helper) (simp add: eff.within_rules split: exn.split)
  then show "se.within (write_drbd_versions_meta E f)"
    unfolding write_drbd_versions_meta_def by (intro settled_effects effect_rules)
  show "se.within (forA hs host_listen_to_events)"
    unfolding host_listen_to_events_def by (intro settled_effects effect_rules)
  show "se.within (cluster_logscan E yes fs no opts)" by (intro settled_effects effect_rules)
  show "se.within (disable_faults E h)" "se.within (check_selinux E h)"
    unfolding disable_faults_def check_selinux_def ignore_def by (intro settled_effects effect_rules effects_run_helper)+
qed

lemma settled_listen: "se.within (listen_to_events E)"
  unfolding listen_to_events_def ignore_def
  by (intro se.within_rules se.within_mod settled_end) (simp add: settled_def)

lemma validate_passes:
  assumes "validate_drbd_versions E w = (Inr (), w')"
  shows "w' = w \<and> list_all (version_ok w) (cl_hosts w)"
proof -
  obtain hashes w1 where 1: "foldA (cl_hosts w) (\<lambda>hashes h. validate_host h hashes) [] w = (Inr hashes, w1)"
    and 2: "bindA (getA cl_drbd_version) (\<lambda>v. whenA (1 < length (remdups hashes))
         (raise (RuntimeError (''Differing git hashes found for DRBD version '' @ quoted (str_opt v) @ '': {'' @
            join '', '' (map quoted (set_order E hashes)) @ ''}'')))) w1 = (Inr (), w')"
    using assms unfolding validate_drbd_versions_def bind_getA by (rule bind_InrE)
  have "w' = w1" using 2 unfolding bind_getA by (cases "1 < length (remdups hashes)") simp_all
  then show ?thesis using 1 validate_hosts_result [of w "cl_hosts w" "[]"] by (auto split: if_splits)
qed


section \<open>A setup that succeeds\<close>

definition win_text :: string where
  "win_text = ''CYGWIN_NT'' @ NL @ ''DRBD_KERNEL_VERSION=9.2.1''"

definition win_env :: environment where
  "win_env = ok_env\<lparr>ssh_run := (\<lambda>_ _. \<lparr>sr_out = win_text, sr_err = [], sr_result = Inr 0\<rparr>)\<rparr>"

lemma win_text_facts:
  "strip win_text = win_text" "splitlines win_text = [''CYGWIN_NT'', ''DRBD_KERNEL_VERSION=9.2.1'']"
  "split_on (CHR ''='') ''CYGWIN_NT'' = [''CYGWIN_NT'']"
  "split_on (CHR ''='') ''DRBD_KERNEL_VERSION=9.2.1'' = [''DRBD_KERNEL_VERSION'', ''9.2.1'']"
  "startswith (map upper_char win_text) ''CYGWIN''" "map upper_char win_text \<noteq> ''LINUX''"
  "\<exists>v. list_item (split_on (CHR ''_'') win_text) 1 = Inr v" "win_text \<notin> {''Enforcing'', ''Permissive''}"
  "\<exists>t. group (match_version ''9.2.1'') = Inr t"
proof -
  show "strip win_text = win_text" by code_simp
  show "splitlines win_text = [''CYGWIN_NT'', ''DRBD_KERNEL_VERSION=9.2.1'']" by code_simp
  show "split_on (CHR ''='') ''CYGWIN_NT'' = [''CYGWIN_NT'']" by code_simp
  show "split_on (CHR ''='') ''DRBD_KERNEL_VERSION=9.2.1'' = [''DRBD_KERNEL_VERSION'', ''9.2.1'']" by code_simp
  show "startswith (map upper_char win_text) ''CYGWIN''" by code_simp
  show "map upper_char win_text \<noteq> ''LINUX''" by code_simp
  have "list_item (split_on (CHR ''_'') win_text) 1 = Inr (''NT'' @ NL @ ''DRBD'')" by code_simp
  then show "\<exists>v. list_item (split_on (CHR ''_'') win_text) 1 = Inr v" ..
  show "win_text \<notin> {''Enforcing'', ''Permissive''}" by code_simp
  have "group (match_version ''9.2.1'') = Inr (9, 2, 1)" by code_simp
  then show "\<exists>t. group (match_version ''9.2.1'') = Inr t" ..
qed

abbreviation no_version :: "world \<Rightarrow> bool" where
  "no_version w \<equiv> cl_drbd_version w = None \<and> cl_drbd_version_other w = None"

lemma win_exec: "returns no_version (ssh_exec win_env c) (win_text, [], 0)"
  by (simp add: returns_def ssh_exec_def win_env_def ok_env_def bindA_def seqA_def getA_def emit_def modA_def ret_def liftA_def)

lemma win_run: "returns no_version (host_run win_env h cmd opts) (if ro_return_stdout opts then Some win_text else None)"
  by (simp add: returns_def host_run_def ssh_exec_def win_env_def ok_env_def Let_def bindA_def seqA_def getA_def
      emit_def modA_def ret_def liftA_def win_text_facts(1))

lemma win_commands:
  "returns no_version (host_stdout win_env h cmd opts) win_text" "returns no_version (host_cmd win_env h cmd) ()"
  "\<not> ro_return_stdout opts \<Longrightarrow> returns no_version (ignore (host_run win_env h cmd opts)) ()"
  using win_run [of h cmd "opts\<lparr>ro_return_stdout := True\<rparr>"] win_run [of h cmd run_defaults] win_run [of h cmd opts]
  unfolding host_stdout_def host_cmd_def ignore_def
  by (auto simp: run_defaults_def intro!: returns_ret elim!: returns_bind)

lemma win_platform: "returns no_version (get_platform_helper win_env h) WindowsPlatform"
  unfolding get_platform_helper_def
  by (rule returns_bind_get, rule returns_bind [OF win_exec])
    (simp add: Let_def win_text_facts(1,5,6) returns_ret)

lemma returns_upd_host: "returns no_version (upd_host h f) ()"
  unfolding upd_host_def by (rule returns_mod) simp

lemma win_version: "returns no_version (windows_read_drbd_version win_env h) ()"
  unfolding returns_def
proof (intro allI impI)
  fix w assume "no_version w"
  then obtain w1 where 1: "host_stdout win_env h [''drbdadm'', ''--version''] run_defaults w = (Inr win_text, w1)" "no_version w1"
    using returnsD [OF win_commands(1)] by blast
  obtain t where t: "group (match_version ''9.2.1'') = Inr t" using win_text_facts(9) by blast
  have "forA [''CYGWIN_NT'', ''DRBD_KERNEL_VERSION=9.2.1''] (windows_version_line h) w1 =
      (Inr (), w1\<lparr>hosts := (hosts w1)(h := (hosts w1 h)\<lparr>drbd_version := ''9.2.1''\<rparr>)\<rparr>)"
    by (simp add: windows_version_line_def win_text_facts(3,4) Let_def list_item_def lift_Inr upd_host_def
        seqA_def bindA_def)
  then show "\<exists>t. windows_read_drbd_version win_env h w = (Inr (), t) \<and> no_version t"
    using 1 t by (simp add: windows_read_drbd_version_def bind_ok seq_ok win_text_facts(2) lift_Inr upd_host_def)
qed

lemma win_init_host: "returns no_version (windows_init_host win_env h False None) ()"
proof -
  obtain v where v: "list_item (split_on (CHR ''_'') win_text) 1 = Inr v" using win_text_facts(7) by blast
  show ?thesis
    unfolding windows_init_host_def if_False truthy_str_def
    by (simp, rule returns_seq [OF returns_upd_host], rule returns_bind [OF win_commands(1)],
        rule returns_bind_lift [OF v [simplified]], rule returns_seq [OF returns_upd_host], rule returns_bind [OF win_commands(1)],
        rule returns_upd_host)
qed

lemma win_probe: "returns no_version (host_probe win_env h name backend backing False None) ()"
  unfolding returns_def
proof (intro allI impI)
  fix w assume w: "no_version w"
  obtain w1 where 1: "get_platform_helper win_env h w = (Inr WindowsPlatform, w1)" "no_version w1"
    using returnsD [OF win_platform w] by blast
  let ?w = "w1\<lparr>hosts := (hosts w1)(h := (hosts w1 h)\<lparr>platform_helper := WindowsPlatform\<rparr>)\<rparr>"
  have "host_read_drbd_version win_env h ?w = windows_read_drbd_version win_env h ?w"
    by (simp add: host_read_drbd_version_def)
  moreover have nv: "no_version ?w" using 1(2) by simp
  ultimately obtain w2 where 2: "host_read_drbd_version win_env h ?w = (Inr (), w2)" "no_version w2"
    using returnsD [OF win_version nv] by auto
  let ?rest = "bindA (getA (\<lambda>w. if is_v9 (hosts w h) then [''hostname'', ''-f''] else [''hostname''])) (\<lambda>cmd.
     bindA (host_stdout win_env h cmd run_defaults) (\<lambda>hn.
     seqA (upd_host h (\<lambda>x. x\<lparr>hostname := hn, netdevs := []\<rparr>))
    (seqA (windows_init_host win_env h False None)
    (bindA (getA (\<lambda>w. hosts w h)) (\<lambda>x.
     log (''host '' @ name @ '' is running '' @ [QUOTE] @ os_id x @ [QUOTE] @ '' version '' @
       [QUOTE] @ os_version_id x @ [QUOTE]))))))"
  have "returns no_version ?rest ()"
    by (rule returns_bind_get, rule returns_bind [OF win_commands(1)], rule returns_seq [OF returns_upd_host],
        rule returns_seq [OF win_init_host], rule returns_bind_get) (simp add: returns_def emit_def)
  then obtain w3 where 3: "?rest w2 = (Inr (), w3)" "no_version w3" using returnsD [of no_version ?rest "()" w2] 2(2) by blast
  have run: "bindA (get_platform_helper win_env h) f w = f WindowsPlatform w1"
    "seqA (upd_host h (\<lambda>x. x\<lparr>platform_helper := WindowsPlatform\<rparr>)) k w1 = k ?w"
    "seqA (host_read_drbd_version win_env h) k ?w = k w2" for f and k :: "unit prog"
    using 1(1) 2(1) by (simp_all add: bindA_def seqA_def upd_host_def)
  have "host_probe win_env h name backend backing False None w = (Inr (), w3)"
    unfolding host_probe_def run platform.case by (rule 3(1))
  then show "\<exists>t. host_probe win_env h name backend backing False None w = (Inr (), t) \<and> no_version t" using 3(2) by blast
qed

lemma win_start_dmesg: "returns no_version (start_dmesg pl h) ()"
  by (auto simp: returns_def start_dmesg_def start_dmesg_with_cmd_def bindA_def seqA_def emit_def upd_host_def split: platform.split)

lemma win_global_config: "returns no_version (host_global_config win_env h) ()"
  unfolding host_global_config_def
  by (rule returns_bind_get, rule returns_seq [OF win_commands(2)], rule returns_bind_get)
    (simp add: win_commands(3) run_defaults_def)

lemma win_host_init: "no_version w \<Longrightarrow> \<exists>h w'. host_init win_env (start_dmesg pl) name vg backend backing p False None w = (Inr h, w') \<and> no_version w'"
proof -
  assume w: "no_version w"
  let ?h = "next_href w"
  let ?w = "w\<lparr>next_href := Suc ?h, hosts := (hosts w)(?h := new_host name vg p)\<rparr>"
  let ?m = "seqA (host_probe win_env ?h name backend backing False None) (seqA (start_dmesg pl ?h)
      (seqA (host_global_config win_env ?h) (ret ?h)))"
  have "returns no_version ?m ?h"
    by (rule returns_seq [OF win_probe], rule returns_seq [OF win_start_dmesg], rule returns_seq [OF win_global_config], rule returns_ret)
  moreover have "no_version ?w" using w by simp
  ultimately obtain w' where m: "?m ?w = (Inr ?h, w')" "no_version w'" by (auto dest: returnsD [of no_version ?m ?h ?w])
  have "host_init win_env (start_dmesg pl) name vg backend backing p False None w = ?m ?w"
    unfolding host_init_def by (simp only: bind_getA seq_modA)
  then have "host_init win_env (start_dmesg pl) name vg backend backing p False None w = (Inr ?h, w')" unfolding m(1) .
  then show ?thesis using m(2) by (intro exI [of _ ?h] exI [of _ w'] conjI; simp only:)
qed

definition win_args :: setup_args where
  "win_args = \<lparr>arg_hosts = [''win''], arg_job = ''job'', arg_resource = ''res'', arg_logdir = ''log'', arg_cleanup = ''always'',
     arg_volume_group = ''scratch'', arg_transport = None, arg_tls = ''no'', arg_override_max = False,
     arg_report_and_quit = False, arg_no_rmmod = False, arg_proxy = False, arg_lz4 = False, arg_zstd = None,
     arg_memlimit = None, arg_storage_backend = ''lvm'', arg_backing_device = None, arg_drbd_version = None,
     arg_drbd_version_other = None, arg_drbd_other_node = 0, arg_selinux_debug = False\<rparr>"

lemma win_setup_hosts: "returns no_version (setup_hosts win_env (start_dmesg pl) win_args False None) ()"
  unfolding returns_def
proof (intro allI impI)
  fix w assume "no_version w"
  then obtain h w1 where 1: "host_init win_env (start_dmesg pl) ''win'' ''scratch'' ''lvm'' None 7789 False None w = (Inr h, w1)"
    "no_version w1"
    using win_host_init by blast
  then show "\<exists>t. setup_hosts win_env (start_dmesg pl) win_args False None w = (Inr (), t) \<and> no_version t"
    by (simp add: setup_hosts_def win_args_def enumerate_eq_zip truthy_str_def seqA_def bindA_def)
qed

lemma win_helper:
  "returns no_version (run_helper win_env h helper args t b) (if b then Some win_text else None)"
proof -
  have f: "read_file win_env name = Inr []" for name by (simp add: win_env_def ok_env_def)
  have "returns no_version (install_helper win_env h helper target) ()" for target
    unfolding install_helper_def
    by (rule returns_bind_lift [OF f]) (simp add: win_commands(3) run_defaults_def)
  then show ?thesis unfolding run_helper_def Let_def
    using win_run [of h _ "run_defaults\<lparr>ro_timeout := t, ro_return_stdout := b\<rparr>"] by (auto intro: returns_seq)
qed

lemma win_validate: "returns no_version (validate_drbd_versions win_env) ()"
proof -
  have "list_all (version_ok w) hs" "\<not> snd (expected_version w h)" if "no_version w" for w h hs
    using that by (auto simp: version_ok_def expected_version_def truthy_str_def list_all_iff)
  then show ?thesis
    using validate_hosts_result by (fastforce simp: returns_def validate_drbd_versions_def bindA_def)
qed

lemma win_listen: "returns no_version (listen_to_events win_env) ()"
proof -
  have "returns no_version (forA hs host_listen_to_events) ()" for hs
    by (rule returns_for) (simp add: returns_def host_listen_to_events_def emit_def)
  moreover have "returns no_version (seqA (modA (\<lambda>w. w\<lparr>logscan_ready := True\<rparr>))
      (bindA (getA f) (\<lambda>fs. ignore (cluster_logscan win_env yes fs no opts)))) ()" for f yes no opts
    by (simp add: returns_def ignore_def cluster_logscan_def win_env_def ok_env_def bindA_def seqA_def emit_def liftA_def Let_def
        ret_def)
  ultimately show ?thesis unfolding listen_to_events_def
    by (intro returns_bind_get) (rule returns_seq)
qed

lemma win_meta: "returns no_version (write_drbd_versions_meta win_env f) ()"
proof -
  have "\<exists>d' t. version_entry win_env h d w = (Inr d', t) \<and> no_version t" if nv: "no_version w" for h d w
  proof -
    obtain t where "run_helper win_env h ''installed-drbd-package'' [] None True w = (Inr (Some win_text), t)" "no_version t"
      using returnsD [OF win_helper [of h "''installed-drbd-package''" "[]" None True] nv] by auto
    then show ?thesis by (simp add: version_entry_def bindA_def tryA_def ret_def getA_def)
  qed
  then have "\<exists>d' t. foldA hs (\<lambda>d h. version_entry win_env h d) d w = (Inr d', t) \<and> no_version t" if "no_version w" for hs d w
    using that
  proof (induction hs arbitrary: d w)
    case (Cons h hs)
    then obtain d1 t1 where 1: "version_entry win_env h d w = (Inr d1, t1)" "no_version t1" by meson
    then obtain d2 t2 where "foldA hs (\<lambda>d h. version_entry win_env h d) d1 t1 = (Inr d2, t2)" "no_version t2"
      using Cons.IH [OF Cons.prems(1)] by meson
    with 1 show ?case by (simp add: bindA_def)
  qed simp
  note fold = this
  show ?thesis unfolding returns_def
  proof (intro allI impI)
    fix w assume "no_version w"
    then obtain d t where "foldA (cl_hosts w) (\<lambda>d h. version_entry win_env h d) [] w = (Inr d, t)" "no_version t"
      using fold by blast
    then show "\<exists>t. write_drbd_versions_meta win_env f w = (Inr (), t) \<and> no_version t"
      by (simp add: write_drbd_versions_meta_def bindA_def emit_def)
  qed
qed

lemma win_hosts_end:
  "returns no_version (disable_faults win_env h) ()" "returns no_version (check_selinux win_env h) ()"
proof -
  have hlp: "returns no_version (ignore (run_helper win_env h helper [] None False)) ()" for helper
    unfolding ignore_def by (rule returns_bind [OF win_helper returns_ret])
  show "returns no_version (disable_faults win_env h) ()"
    unfolding disable_faults_def by (rule returns_bind_get) (simp add: hlp returns_ret split: platform.split)
  show "returns no_version (check_selinux win_env h) ()"
    unfolding check_selinux_def
    by (rule returns_bind [OF win_commands(1)]) (use win_text_facts(1,8) in \<open>simp add: returns_ret whenA_def\<close>)
qed


end
