(* ===== verification/Disk_Usage.thy ===== *)
theory Disk_Usage
  imports Storage Json Complex_Main
begin

text \<open>
  How full a volume is: the methods \<open>fill_percentage\<close> of \<open>src/python/disktools.py\<close>. The floating point result
  is a rational number; \<open>float\<close> reads numbers with a fraction and an exponent, but not infinities
  and \<open>NaN\<close>, which \<open>lvs\<close> does not report.
\<close>

section \<open>Reading numbers and columns\<close>

definition ten_to :: "int \<Rightarrow> rat" where
  "ten_to e = (if e < 0 then 1 / 10 ^ nat (- e) else 10 ^ nat e)"

definition split_sign :: "string \<Rightarrow> bool \<times> string" where
  "split_sign t = (case t of
     [] \<Rightarrow> (False, [])
   | c # r \<Rightarrow> if c = CHR ''-'' then (True, r) else if c = CHR ''+'' then (False, r) else (False, t))"

text \<open>The digits before and after the point, and the rest.\<close>

definition mantissa :: "string \<Rightarrow> string \<times> string \<times> string" where
  "mantissa b =
     (case dropWhile is_digit b of
        [] \<Rightarrow> (takeWhile is_digit b, [], [])
      | c # q \<Rightarrow> if c = CHR ''.'' then (takeWhile is_digit b, takeWhile is_digit q, dropWhile is_digit q)
                 else (takeWhile is_digit b, [], c # q))"

definition exponent :: "string \<Rightarrow> exn + int" where
  "exponent r =
     (case r of
        [] \<Rightarrow> Inr 0
      | c # q \<Rightarrow> (case split_sign q of (neg, ds) \<Rightarrow>
          if (c = CHR ''e'' \<or> c = CHR ''E'') \<and> ds \<noteq> [] \<and> list_all is_digit ds
          then Inr (if neg then - int (nat_of_digits ds) else int (nat_of_digits ds)) else Inl ValueError))"

definition py_float :: "string \<Rightarrow> exn + rat" where
  "py_float s =
     (case split_sign (strip s) of (neg, b) \<Rightarrow> (case mantissa b of (ip, fp, r) \<Rightarrow>
        if ip = [] \<and> fp = [] then Inl ValueError
        else map_sum id (\<lambda>e. (if neg then -1 else 1) * of_nat (nat_of_digits (ip @ fp)) * ten_to (e - int (length fp)))
               (exponent r)))"

definition float_of_json :: "json \<Rightarrow> exn + rat" where
  "float_of_json v =
     (case v of
        JStr s \<Rightarrow> py_float s
      | JInt n \<Rightarrow> Inr (of_int n)
      | JFloat s \<Rightarrow> py_float s
      | JBool b \<Rightarrow> Inr (if b then 1 else 0)
      | _ \<Rightarrow> Inl TypeError)"

text \<open>\<open>s.split()\<close>\<close>

definition py_split :: "string \<Rightarrow> string list" where
  "py_split s = filter (\<lambda>p. p \<noteq> [])
     (split_on (CHR '' '') (map (\<lambda>c. if is_space c then CHR '' '' else c) s))"

section \<open>The volumes\<close>

text \<open>The third column of a line of \<open>zfs get -Hp\<close>.\<close>

definition zfs_value :: "string list \<Rightarrow> int \<Rightarrow> int prog" where
  "zfs_value ls i =
     bindA (liftA (list_item ls i)) (\<lambda>l. bindA (liftA (list_item (py_split l) 2)) (\<lambda>s. liftA (py_int s)))"

fun fill_percentage :: "environment \<Rightarrow> href \<Rightarrow> disk_volume \<Rightarrow> rat prog" where
  "fill_percentage E h (LvmVolume name lv lvsize) =
     bindA (host_stdout E h [''lvs'', ''--reportformat'', ''json'', lv] run_defaults) (\<lambda>json_str.
     bindA (liftA (json_loads json_str)) (\<lambda>rep.
     bindA (liftA (json_get rep ''report'')) (\<lambda>r. bindA (liftA (json_nth r 0)) (\<lambda>r0.
     bindA (liftA (json_get r0 ''lv'')) (\<lambda>l. bindA (liftA (json_nth l 0)) (\<lambda>l0.
     bindA (liftA (json_get l0 ''data_percent'')) (\<lambda>x. liftA (float_of_json x))))))))"
| "fill_percentage E h (StorageSpacesVolume name lv) =
     raise (NotImplementedError ''storage pool storage volume does not support fill_percentage (yet)'')"
| "fill_percentage E h (RawVolume backing guid start part) =
     raise (NotImplementedError ''raw storage volume does not support fill_percentage'')"
| "fill_percentage E h (ZfsVolume dataset) =
     bindA (host_stdout E h [''zfs'', ''get'', ''-Hp'', ''used,volsize'', dataset] run_defaults) (\<lambda>out.
     bindA (zfs_value (splitlines out) 0) (\<lambda>used.
     bindA (zfs_value (splitlines out) 1) (\<lambda>volsize.
     if volsize = 0 then raise ZeroDivisionError else ret (of_int used / of_int volsize * 100))))"
| "fill_percentage E h (DelayVolume name backing sectors ms) = fill_percentage E h backing"
| "fill_percentage E h (EmulatedBlockSizeVolume name backing sectors lbs) = fill_percentage E h backing"

section \<open>What is read\<close>

text \<open>The layers on top of a volume do not change the answer, and asking changes no object.\<close>

lemma fill_percentage_layers: "fill_percentage E h d = fill_percentage E h (last (layers d))"
  by (induction E h d rule: fill_percentage.induct) (auto split: list.splits elim: layers.elims)

lemma effects_zfs_value [effect_rules]: "only_effects (zfs_value ls i)"
  unfolding zfs_value_def by (intro effect_rules)

lemma effects_fill_percentage [effect_rules]: "only_effects (fill_percentage E h d)"
  by (induction E h d rule: fill_percentage.induct; simp only: fill_percentage.simps; (intro effect_rules)?; assumption?)

text \<open>A decimal number is read as its value.\<close>

lemma takeWhile_digits:
  assumes "list_all is_digit ds" and "\<not> is_digit c"
  shows "takeWhile is_digit (ds @ c # r) = ds" "dropWhile is_digit (ds @ c # r) = c # r"
  using assms by (induction ds) auto

lemma all_digits:
  assumes "list_all is_digit ds"
  shows "takeWhile is_digit ds = ds" "dropWhile is_digit ds = []"
  using assms by (induction ds) auto

lemma py_float_decimal:
  assumes "ds \<noteq> []" and "list_all is_digit ds" and "list_all is_digit fs"
  shows "py_float (ds @ ''.'' @ fs) = Inr (of_nat (nat_of_digits (ds @ fs)) / 10 ^ length fs)"
proof -
  let ?s = "ds @ CHR ''.'' # fs"
  have "\<not> is_space (CHR ''.'')" by (simp add: is_space_def)
  then have "\<forall>c \<in> set ?s. \<not> is_space c" using assms(2,3) by (auto simp: list_all_iff dest: digits_no_space)
  then have "strip ?s = ?s" using strip_id [of ?s] hd_in_set [of ?s] last_in_set [of ?s] by blast
  moreover have "split_sign ?s = (False, ?s)"
    using assms by (cases ds) (auto simp: split_sign_def is_digit_def)
  moreover have "mantissa ?s = (ds, fs, [])"
    using assms(2,3) by (simp add: mantissa_def takeWhile_digits all_digits is_digit_def)
  ultimately show ?thesis using assms(1) by (simp add: py_float_def exponent_def ten_to_def)
qed

text \<open>
  The answer of \<open>zfs get -Hp used,volsize\<close> for a dataset, in columns separated by tabs, gives the share
  that is used.
\<close>

definition zfs_line :: "string \<Rightarrow> string \<Rightarrow> nat \<Rightarrow> string" where
  "zfs_line dataset prop v = dataset @ [CHR 0x09] @ prop @ [CHR 0x09] @ str_nat v @ [CHR 0x09] @ ''-''"

definition one_word :: "string \<Rightarrow> bool" where
  "one_word s \<longleftrightarrow> s \<noteq> [] \<and> (\<forall>c \<in> set s. \<not> is_space c)"

lemma blank_word: "one_word s \<Longrightarrow> map (\<lambda>c. if is_space c then CHR '' '' else c) s = s \<and> CHR '' '' \<notin> set s"
  by (auto simp: one_word_def is_space_def intro!: map_idI)

lemma py_split_words:
  assumes "one_word a"
  shows "py_split (a @ CHR 0x09 # r) = a # py_split r" "py_split a = [a]"
proof -
  have "is_space (CHR 0x09)" by (simp add: is_space_def)
  with blank_word [OF assms] assms show "py_split (a @ CHR 0x09 # r) = a # py_split r" "py_split a = [a]"
    by (simp_all add: py_split_def split_on_append split_on_none one_word_def)
qed

lemma one_word_str_nat: "one_word (str_nat n)"
  using str_nat_digits [of n] by (auto simp: one_word_def str_nat_nonempty list_all_iff dest: digits_no_space)

lemma zfs_line_columns:
  assumes "one_word dataset" and "one_word prop"
  shows "py_split (zfs_line dataset prop v) = [dataset, prop, str_nat v, ''-'']"
proof -
  have "one_word ''-''" by (simp add: one_word_def is_space_def)
  with assms one_word_str_nat [of v] show ?thesis by (simp add: zfs_line_def py_split_words)
qed

lemma zfs_fill_percentage:
  assumes "one_word dataset" and "0 < volsize"
    and "host_stdout E h [''zfs'', ''get'', ''-Hp'', ''used,volsize'', dataset] run_defaults w =
      (Inr (zfs_line dataset ''used'' used @ NL @ zfs_line dataset ''volsize'' volsize), w')"
  shows "fill_percentage E h (ZfsVolume dataset) w = (Inr (of_nat used / of_nat volsize * 100), w')"
proof -
  have nl: "one_word s \<Longrightarrow> CHR 0x0A \<notin> set s" for s by (auto simp: one_word_def is_space_def)
  have words: "one_word ''used''" "one_word ''volsize''" by (simp_all add: one_word_def is_space_def)
  have line: "CHR 0x0A \<notin> set (zfs_line dataset p v)" if "one_word p" for p v
    using nl [OF assms(1)] nl [OF that] nl [OF one_word_str_nat [of v]] by (simp add: zfs_line_def)
  have ne: "zfs_line dataset p v \<noteq> []" for p v by (simp add: zfs_line_def)
  have "splitlines (zfs_line dataset ''used'' used @ NL @ zfs_line dataset ''volsize'' volsize) =
      [zfs_line dataset ''used'' used, zfs_line dataset ''volsize'' volsize]"
    using line [OF words(1)] line [OF words(2)] ne by (simp add: splitlines_def split_on_append split_on_none Let_def)
  moreover have "zfs_value [zfs_line dataset ''used'' used, zfs_line dataset ''volsize'' volsize] i w' =
      (Inr (if i = 0 then int used else int volsize), w')" if "i = 0 \<or> i = 1" for i
    using that by (auto simp: zfs_value_def list_item_def lift_Inr zfs_line_columns [OF assms(1)] words)
  ultimately show ?thesis using assms(2,3) by (simp add: bindA_def)
qed

end
