(* ===== verification/Packets.thy ===== *)
theory Packets
  imports Platform
begin

text \<open>
  The tables of constants in \<open>src/python/drbdtest.py\<close> that tests pass to \<open>set_fault_injection\<close> and
  \<open>block_packet_type\<close>.
\<close>

definition fault_flags :: "(string \<times> nat) list" where
  "fault_flags =
     [(''DF_META_WRITE'', 1), (''DF_META_READ'', 2), (''DF_RESYNC_WRITE'', 4),
      (''DF_RESYNC_READ'', 8), (''DF_DATA_WRITE'', 16), (''DF_DATA_READ'', 32),
      (''DF_DATA_READ_AHEAD'', 64), (''DF_BITMAP_ALLOC'', 128), (''DF_PEERREQ_ALLOC'', 256),
      (''DF_RECEIVE_CURRUPT'', 512), (''DF_BIO_TOO_SMALL'', 1024)]"

definition packet_types :: "(string \<times> nat) list" where
  "packet_types =
     [(''P_DATA'', 0x00), (''P_DATA_REPLY'', 0x01), (''P_RS_DATA_REPLY'', 0x02),
      (''P_BARRIER'', 0x03), (''P_BITMAP'', 0x04), (''P_BECOME_SYNC_TARGET'', 0x05),
      (''P_BECOME_SYNC_SOURCE'', 0x06), (''P_UNPLUG_REMOTE'', 0x07),
      (''P_DATA_REQUEST'', 0x08), (''P_RS_DATA_REQUEST'', 0x09), (''P_SYNC_PARAM'', 0x0A),
      (''P_PROTOCOL'', 0x0B), (''P_UUIDS'', 0x0C), (''P_SIZES'', 0x0D), (''P_STATE'', 0x0E),
      (''P_SYNC_UUID'', 0x0F), (''P_AUTH_CHALLENGE'', 0x10), (''P_AUTH_RESPONSE'', 0x11),
      (''P_STATE_CHG_REQ'', 0x12), (''P_PING'', 0x13), (''P_PING_ACK'', 0x14),
      (''P_RECV_ACK'', 0x15), (''P_WRITE_ACK'', 0x16), (''P_RS_WRITE_ACK'', 0x17),
      (''P_SUPERSEDED'', 0x18), (''P_NEG_ACK'', 0x19), (''P_NEG_DREPLY'', 0x1A),
      (''P_NEG_RS_DREPLY'', 0x1B), (''P_BARRIER_ACK'', 0x1C), (''P_STATE_CHG_REPLY'', 0x1D),
      (''P_OV_REQUEST'', 0x1E), (''P_OV_REPLY'', 0x1F), (''P_OV_RESULT'', 0x20),
      (''P_CSUM_RS_REQUEST'', 0x21), (''P_RS_IS_IN_SYNC'', 0x22), (''P_SYNC_PARAM89'', 0x23),
      (''P_COMPRESSED_BITMAP'', 0x24), (''P_DELAY_PROBE'', 0x27), (''P_OUT_OF_SYNC'', 0x28),
      (''P_RS_CANCEL'', 0x29), (''P_CONN_ST_CHG_REQ'', 0x2A), (''P_CONN_ST_CHG_REPLY'', 0x2B),
      (''P_RETRY_WRITE'', 0x2C), (''P_PROTOCOL_UPDATE'', 0x2D), (''P_TWOPC_PREPARE'', 0x2E),
      (''P_TWOPC_ABORT'', 0x2F), (''P_DAGTAG'', 0x30), (''P_TRIM'', 0x31),
      (''P_RS_THIN_REQ'', 0x32), (''P_RS_DEALLOCATED'', 0x33), (''P_WSAME'', 0x34),
      (''P_TWOPC_PREP_RSZ'', 0x35), (''P_ZEROES'', 0x36), (''P_PEER_ACK'', 0x40),
      (''P_PEERS_IN_SYNC'', 0x41), (''P_UUIDS110'', 0x42), (''P_PEER_DAGTAG'', 0x43),
      (''P_CURRENT_UUID'', 0x44), (''P_TWOPC_YES'', 0x45), (''P_TWOPC_NO'', 0x46),
      (''P_TWOPC_COMMIT'', 0x47), (''P_TWOPC_RETRY'', 0x48), (''P_CONFIRM_STABLE'', 0x49),
      (''P_RS_CANCEL_AHEAD'', 0x4A), (''P_DISCONNECT'', 0x4B), (''P_RS_DAGTAG_REQ'', 0x4C),
      (''P_RS_CSUM_DAGTAG_REQ'', 0x4D), (''P_RS_THIN_DAGTAG_REQ'', 0x4E),
      (''P_OV_DAGTAG_REQ'', 0x4F), (''P_OV_DAGTAG_REPLY'', 0x50),
      (''P_WRITE_ACK_IN_SYNC'', 0x51), (''P_RS_NEG_ACK'', 0x52), (''P_OV_RESULT_ID'', 0x53),
      (''P_RS_DEALLOCATED_ID'', 0x54)]"

text \<open>Each flag is a bit of its own, in the order of the list, so that flags can be combined.\<close>

lemma fault_flags_bits: "map snd fault_flags = map (\<lambda>i. 2 ^ i) [0..<length fault_flags]"
  by code_simp

text \<open>No code is used twice and every code is a byte.\<close>

lemma packet_codes: "distinct (map snd packet_types)" "distinct (map fst packet_types)"
  "list_all (\<lambda>k. k < 256) (map snd packet_types)"
  by code_simp+

end
