(* ===== verification/Logging.thy ===== *)
theory Logging
  imports Prelude
begin

text \<open>
  The log streams: \<open>src/python/drbdtestlogger.py\<close>, \<open>FirstWriteTrap\<close> and \<open>start_dmesg_with_cmd\<close> of
  \<open>src/python/drbdtest.py\<close>. Several threads write to a \<open>Tee\<close> and change its streams, and one thread
  waits for the first output of another, so both are step relations: a step is a statement of one
  thread. Set objects live in a heap, because the point of the code is which thread holds which
  object; a set is listed in its iteration order.
\<close>

section \<open>Tee\<close>

text \<open>
  Where a thread is inside a method: after the copy of the set, after the change of the copy, or
  inside the loop of \<open>write\<close> (the message, the set object that is iterated, what it held at the
  start, and the position). A thread whose loop found the set changed in size, or that removed a
  stream that is not there, has raised.
\<close>

datatype 'a tee_pc =
    Idle
  | AddCopied 'a nat
  | AddChanged nat
  | RemoveCopied 'a nat
  | RemoveChanged nat
  | Writing string nat "'a list" nat
  | Raised exn

record 'a tee =
  set_heap :: "nat \<Rightarrow> 'a list"
  set_next :: nat
  streams :: nat
  tee_pcs :: "nat \<Rightarrow> 'a tee_pc"
  tee_out :: "(nat \<times> 'a \<times> string) list"  \<comment> \<open>by which thread, to which stream\<close>

definition tee_init :: "'a tee" where
  "tee_init = \<lparr>set_heap = (\<lambda>_. []), set_next = 1, streams = 0, tee_pcs = (\<lambda>_. Idle), tee_out = []\<rparr>"

definition set_add :: "'a \<Rightarrow> 'a list \<Rightarrow> 'a list" where
  "set_add x xs = (if x \<in> set xs then xs else xs @ [x])"

abbreviation goto :: "nat \<Rightarrow> 'a tee_pc \<Rightarrow> 'a tee \<Rightarrow> 'a tee" where
  "goto t pc s \<equiv> s\<lparr>tee_pcs := (tee_pcs s)(t := pc)\<rparr>"

text \<open>\<open>streams = set(self.streams)\<close>: a new object with the same members.\<close>

definition copy_streams :: "'a tee \<Rightarrow> nat \<times> 'a tee" where
  "copy_streams s = (set_next s,
     s\<lparr>set_heap := (set_heap s)(set_next s := set_heap s (streams s)), set_next := Suc (set_next s)\<rparr>)"

inductive tee_step :: "'a tee \<Rightarrow> 'a tee \<Rightarrow> bool" where
  add_copy: "tee_pcs s t = Idle \<Longrightarrow> copy_streams s = (a, s') \<Longrightarrow> tee_step s (goto t (AddCopied x a) s')"
| add_change: "tee_pcs s t = AddCopied x a \<Longrightarrow>
    tee_step s (goto t (AddChanged a) (s\<lparr>set_heap := (set_heap s)(a := set_add x (set_heap s a))\<rparr>))"
| add_assign: "tee_pcs s t = AddChanged a \<Longrightarrow> tee_step s (goto t Idle (s\<lparr>streams := a\<rparr>))"
| remove_copy: "tee_pcs s t = Idle \<Longrightarrow> copy_streams s = (a, s') \<Longrightarrow> tee_step s (goto t (RemoveCopied x a) s')"
| remove_change: "tee_pcs s t = RemoveCopied x a \<Longrightarrow> x \<in> set (set_heap s a) \<Longrightarrow>
    tee_step s (goto t (RemoveChanged a) (s\<lparr>set_heap := (set_heap s)(a := filter (\<lambda>y. y \<noteq> x) (set_heap s a))\<rparr>))"
| remove_absent: "tee_pcs s t = RemoveCopied x a \<Longrightarrow> x \<notin> set (set_heap s a) \<Longrightarrow>
    tee_step s (goto t (Raised KeyError) s)"
| remove_assign: "tee_pcs s t = RemoveChanged a \<Longrightarrow> tee_step s (goto t Idle (s\<lparr>streams := a\<rparr>))"
| write_start: "tee_pcs s t = Idle \<Longrightarrow>
    tee_step s (goto t (Writing m (streams s) (set_heap s (streams s)) 0) s)"
| write_changed: "tee_pcs s t = Writing m a xs i \<Longrightarrow> length (set_heap s a) \<noteq> length xs \<Longrightarrow>
    tee_step s (goto t (Raised (RuntimeError ''Set changed size during iteration'')) s)"
| write_next: "tee_pcs s t = Writing m a xs i \<Longrightarrow> length (set_heap s a) = length xs \<Longrightarrow> i < length xs \<Longrightarrow>
    tee_step s (goto t (Writing m a xs (Suc i)) (s\<lparr>tee_out := tee_out s @ [(t, set_heap s a ! i, m)]\<rparr>))"
| write_end: "tee_pcs s t = Writing m a xs i \<Longrightarrow> length xs \<le> i \<Longrightarrow> tee_step s (goto t Idle s)"

inductive_cases tee_stepE: "tee_step s s'"

section \<open>FirstWriteTrap and start_dmesg_with_cmd\<close>

text \<open>
  The thread that started the reader, at the statement \<open>with condition: condition.wait()\<close>: before it,
  waiting in it, or past it. \<open>notify\<close> wakes a thread that waits, and does nothing when none does.
\<close>

datatype waiter = Before | Waiting | Past

record trap =
  first_message :: "string option"
  trap_target :: "string list"
  main_at :: waiter

definition trap_init :: trap where
  "trap_init = \<lparr>first_message = None, trap_target = [], main_at = Before\<rparr>"

definition trap_write :: "string \<Rightarrow> trap \<Rightarrow> trap" where
  "trap_write m s =
     (case first_message s of
        None \<Rightarrow> s\<lparr>first_message := Some m, main_at := (case main_at s of Waiting \<Rightarrow> Past | x \<Rightarrow> x)\<rparr>
      | Some _ \<Rightarrow> s\<lparr>trap_target := trap_target s @ [m]\<rparr>)"

inductive trap_step :: "trap \<Rightarrow> trap \<Rightarrow> bool" where
  trap_wait: "main_at s = Before \<Longrightarrow> trap_step s (s\<lparr>main_at := Waiting\<rparr>)"
| trap_output: "trap_step s (trap_write m s)"

inductive_cases trap_stepE: "trap_step s s'"

section \<open>debug\<close>

text \<open>\<open>debug(*args, level=...)\<close>: what is printed at a debug level; without the argument the level is 1.\<close>

definition debug_prints :: "int \<Rightarrow> int option \<Rightarrow> bool" where
  "debug_prints debug_level level = ((case level of None \<Rightarrow> 1 | Some l \<Rightarrow> l) \<le> debug_level)"

section \<open>A write reaches the streams it started with\<close>

text \<open>The object that a thread has copied and not yet published.\<close>

definition unpublished :: "'a tee_pc \<Rightarrow> nat option" where
  "unpublished pc = (case pc of AddCopied _ a \<Rightarrow> Some a | AddChanged a \<Rightarrow> Some a
     | RemoveCopied _ a \<Rightarrow> Some a | RemoveChanged a \<Rightarrow> Some a | _ \<Rightarrow> None)"

definition tee_inv :: "'a tee \<Rightarrow> bool" where
  "tee_inv s \<longleftrightarrow> streams s < set_next s \<and>
     (\<forall>t a. unpublished (tee_pcs s t) = Some a \<longrightarrow> a < set_next s \<and> a \<noteq> streams s \<and>
        (\<forall>u. u \<noteq> t \<longrightarrow> unpublished (tee_pcs s u) \<noteq> Some a)) \<and>
     (\<forall>t m a xs i. tee_pcs s t = Writing m a xs i \<longrightarrow> a < set_next s \<and> set_heap s a = xs \<and> i \<le> length xs \<and>
        (\<forall>u. unpublished (tee_pcs s u) \<noteq> Some a))"

lemma unpublished_simps [simp]:
  "unpublished Idle = None" "unpublished (Raised e) = None" "unpublished (Writing m a xs i) = None"
  "unpublished (AddCopied x a) = Some a" "unpublished (AddChanged a) = Some a"
  "unpublished (RemoveCopied x a) = Some a" "unpublished (RemoveChanged a) = Some a"
  by (simp_all add: unpublished_def)

lemma tee_inv_init: "tee_inv tee_init"
  by (simp add: tee_inv_def tee_init_def)

lemma tee_inv_unpublished:
  assumes "tee_inv s" and "unpublished (tee_pcs s t) = Some a"
  shows "a < set_next s" and "a \<noteq> streams s" and "unpublished (tee_pcs s u) = Some a \<Longrightarrow> u = t"
  using assms unfolding tee_inv_def by blast+

lemma tee_inv_writing:
  assumes "tee_inv s" and "tee_pcs s t = Writing m a xs i"
  shows "a < set_next s" and "set_heap s a = xs" and "i \<le> length xs" and "unpublished (tee_pcs s u) \<noteq> Some a"
  using assms unfolding tee_inv_def by blast+

lemma tee_invI:
  assumes "streams s < set_next s"
    and "\<And>t a. unpublished (tee_pcs s t) = Some a \<Longrightarrow> a < set_next s \<and> a \<noteq> streams s"
    and "\<And>t u a. unpublished (tee_pcs s t) = Some a \<Longrightarrow> unpublished (tee_pcs s u) = Some a \<Longrightarrow> u = t"
    and "\<And>t m a xs i. tee_pcs s t = Writing m a xs i \<Longrightarrow> a < set_next s \<and> set_heap s a = xs \<and> i \<le> length xs"
    and "\<And>t m a xs i u. tee_pcs s t = Writing m a xs i \<Longrightarrow> unpublished (tee_pcs s u) \<noteq> Some a"
  shows "tee_inv s"
  unfolding tee_inv_def using assms by blast

lemma inv_copy:
  assumes inv: "tee_inv s" and copy: "copy_streams s = (a, s')" and pc: "unpublished pc = Some a"
  shows "tee_inv (goto t pc s')"
proof -
  have eq: "a = set_next s" "set_heap s' = (set_heap s)(a := set_heap s (streams s))"
    "set_next s' = Suc a" "streams s' = streams s" "tee_pcs s' = tee_pcs s"
    using copy by (auto simp: copy_streams_def)
  have str: "streams s < a" using inv eq by (simp add: tee_inv_def)
  have unp: "b < a" if "unpublished (tee_pcs s u) = Some b" for u b
    using tee_inv_unpublished(1) [OF inv that] eq by simp
  have wr: "b < a \<and> b < Suc a \<and> set_heap s b = xs \<and> i \<le> length xs" if "tee_pcs s u = Writing m b xs i" for u m b xs i
    using tee_inv_writing [OF inv that] eq by simp
  have nw: "pc \<noteq> Writing m b xs i" for m b xs i using pc by auto
  show ?thesis
  proof (rule tee_invI)
    show "u = v" if "unpublished (tee_pcs (goto t pc s') v) = Some b" "unpublished (tee_pcs (goto t pc s') u) = Some b" for u v b
      using that pc unp tee_inv_unpublished(3) [OF inv] by (auto simp: eq(5) split: if_splits)
    show "b < set_next (goto t pc s') \<and> b \<noteq> streams (goto t pc s')" if "unpublished (tee_pcs (goto t pc s') v) = Some b" for v b
      using that pc str unp tee_inv_unpublished(2) [OF inv] by (auto simp: eq(3-5) less_Suc_eq split: if_splits)
  qed (use str nw pc tee_inv_writing(4) [OF inv] in \<open>auto simp: eq(2-5) dest: wr unp split: if_splits\<close>)
qed

lemma inv_change:
  assumes inv: "tee_inv s" and old: "unpublished (tee_pcs s t) = Some a" and pc: "unpublished pc = Some a"
  shows "tee_inv (goto t pc (s\<lparr>set_heap := (set_heap s)(a := ys)\<rparr>))"
proof -
  have nw: "pc \<noteq> Writing m b xs i" for m b xs i using pc by auto
  have same: "unpublished (tee_pcs (goto t pc s) u) = unpublished (tee_pcs s u)" for u using old pc by simp
  have wr: "b \<noteq> a" if "tee_pcs s u = Writing m b xs i" for u m b xs i
    using tee_inv_writing(4) [OF inv that] old by metis
  show ?thesis
  proof (rule tee_invI)
    show "u = v" if "unpublished (tee_pcs (goto t pc (s\<lparr>set_heap := (set_heap s)(a := ys)\<rparr>)) v) = Some b"
      "unpublished (tee_pcs (goto t pc (s\<lparr>set_heap := (set_heap s)(a := ys)\<rparr>)) u) = Some b" for u v b
      using that same tee_inv_unpublished(3) [OF inv] by simp
    show "b < set_next (goto t pc (s\<lparr>set_heap := (set_heap s)(a := ys)\<rparr>)) \<and>
        b \<noteq> streams (goto t pc (s\<lparr>set_heap := (set_heap s)(a := ys)\<rparr>))"
      if "unpublished (tee_pcs (goto t pc (s\<lparr>set_heap := (set_heap s)(a := ys)\<rparr>)) v) = Some b" for v b
      using that same tee_inv_unpublished(1,2) [OF inv] by simp
    show "streams (goto t pc (s\<lparr>set_heap := (set_heap s)(a := ys)\<rparr>)) < set_next (goto t pc (s\<lparr>set_heap := (set_heap s)(a := ys)\<rparr>))"
      using inv by (simp add: tee_inv_def)
  qed (use nw wr pc old tee_inv_writing [OF inv] in \<open>auto split: if_splits\<close>)
qed

lemma inv_assign:
  assumes inv: "tee_inv s" and old: "unpublished (tee_pcs s t) = Some a"
  shows "tee_inv (goto t Idle (s\<lparr>streams := a\<rparr>))"
  by (rule tee_invI) (use tee_inv_unpublished [OF inv] tee_inv_writing [OF inv] old in \<open>auto split: if_splits\<close>)

lemma inv_quiet:
  assumes "tee_inv s" and "unpublished pc = None" and "\<And>m b xs i. pc \<noteq> Writing m b xs i"
  shows "tee_inv (goto t pc s)"
  using assms by (auto simp: tee_inv_def)

lemma inv_writing:
  assumes "tee_inv s" and "a < set_next s" and "set_heap s a = xs" and "i \<le> length xs"
    and "\<And>u. unpublished (tee_pcs s u) \<noteq> Some a"
  shows "tee_inv (goto t (Writing m a xs i) s)"
  using assms by (auto simp: tee_inv_def)

lemma tee_inv_step: "tee_step s s' \<Longrightarrow> tee_inv s \<Longrightarrow> tee_inv s'"
proof (induction rule: tee_step.induct)
  case (write_start s t m)
  then show ?case by (intro inv_writing) (auto simp: tee_inv_def)
next
  case (write_next s t m a xs i)
  let ?s = "s\<lparr>tee_out := tee_out s @ [(t, set_heap s a ! i, m)]\<rparr>"
  have "tee_inv ?s" using write_next(4) by (simp add: tee_inv_def)
  then show ?case using write_next by (intro inv_writing) (auto simp: tee_inv_def)
next
  case (add_change s t x a)
  then show ?case using inv_change [of s t a "AddChanged a"] by simp
next
  case (add_assign s t a)
  then show ?case using inv_assign [of s t a] by simp
next
  case (remove_change s t x a)
  then show ?case using inv_change [of s t a "RemoveChanged a"] by simp
next
  case (remove_assign s t a)
  then show ?case using inv_assign [of s t a] by simp
qed (auto intro: inv_copy inv_quiet)

definition outs_of :: "nat \<Rightarrow> 'a tee \<Rightarrow> ('a \<times> string) list" where
  "outs_of t s = map snd (filter (\<lambda>(u, _). u = t) (tee_out s))"

abbreviation size_error :: exn where
  "size_error \<equiv> RuntimeError ''Set changed size during iteration''"

definition writes_ok :: "'a tee \<Rightarrow> bool" where
  "writes_ok s \<longleftrightarrow> (\<forall>t. tee_pcs s t \<noteq> Raised size_error) \<and>
     (\<forall>t m a xs i. tee_pcs s t = Writing m a xs i \<longrightarrow>
        (\<exists>pre. outs_of t s = pre @ map (\<lambda>x. (x, m)) (take i xs)))"

lemma writes_ok_goto:
  assumes "writes_ok s" and "tee_pcs s' = (tee_pcs s)(t := pc)" and "tee_out s' = tee_out s"
    and "pc \<noteq> Raised size_error" and "\<And>m a xs i. pc = Writing m a xs i \<Longrightarrow> i = 0"
  shows "writes_ok s'"
proof -
  have outs: "outs_of u s' = outs_of u s" for u by (simp add: outs_of_def assms(3))
  have "\<exists>pre. outs_of u s' = pre @ map (\<lambda>x. (x, m)) (take i xs)" if "tee_pcs s' u = Writing m a xs i" for u m a xs i
  proof (cases "u = t")
    case True
    then have "i = 0" using that assms(2,5) by simp
    then show ?thesis by simp
  next
    case False
    then have "tee_pcs s u = Writing m a xs i" using that assms(2) by simp
    then show ?thesis using assms(1) unfolding writes_ok_def outs by blast
  qed
  then show ?thesis using assms(1,2,4) by (simp add: writes_ok_def)
qed

lemma writes_ok_step:
  assumes "tee_step s s'" and "tee_inv s" and "writes_ok s"
  shows "writes_ok s'"
  using assms
proof (induction rule: tee_step.induct)
  case (write_changed s t m a xs i)
  then show ?case using tee_inv_writing(2) by blast
next
  case (write_next s t m a xs i)
  let ?s = "goto t (Writing m a xs (Suc i)) (s\<lparr>tee_out := tee_out s @ [(t, set_heap s a ! i, m)]\<rparr>)"
  have heap: "set_heap s a = xs" using tee_inv_writing(2) [OF write_next(4,1)] .
  have outs: "outs_of u ?s = outs_of u s @ (if u = t then [(xs ! i, m)] else [])" for u
    by (simp add: outs_of_def heap)
  obtain pre where "outs_of t s = pre @ map (\<lambda>x. (x, m)) (take i xs)"
    using write_next(1,5) unfolding writes_ok_def by blast
  then have "outs_of t ?s = pre @ map (\<lambda>x. (x, m)) (take (Suc i) xs)"
    unfolding outs using write_next(3) by (simp add: take_Suc_conv_app_nth)
  moreover have "\<exists>pre. outs_of u ?s = pre @ map (\<lambda>x. (x, n)) (take j ys)"
    if "u \<noteq> t" "tee_pcs s u = Writing n b ys j" for u n b ys j
    using write_next(5) that unfolding writes_ok_def outs by simp
  ultimately show ?case using write_next(5) unfolding writes_ok_def by auto
qed (auto simp: copy_streams_def intro: writes_ok_goto)

text \<open>
  C14: However calls of \<open>Tee.add\<close>, \<open>Tee.remove\<close> and \<open>Tee.write\<close> in several threads interleave, no
  \<open>write\<close> fails because the set it iterates over changed size, and every \<open>write\<close> that is under way
  has sent its message to exactly the first streams of the set that was current when it started,
  each once and in order.
\<close>
theorem tee_write_snapshot:
  assumes "tee_step\<^sup>*\<^sup>* tee_init s"
  shows "tee_pcs s t \<noteq> Raised size_error \<and>
     (tee_pcs s t = Writing m a xs i \<longrightarrow>
        set_heap s a = xs \<and> (\<exists>pre. outs_of t s = pre @ map (\<lambda>x. (x, m)) (take i xs)))"
proof -
  have "tee_inv s \<and> writes_ok s"
    using assms
  proof (induction rule: rtranclp_induct)
    case base
    then show ?case using tee_inv_init by (auto simp: writes_ok_def tee_init_def)
  next
    case (step s s')
    then show ?case using tee_inv_step writes_ok_step by blast
  qed
  then show ?thesis using tee_inv_writing(2) unfolding writes_ok_def by blast
qed

theorem tee_write_snapshot_witness:
  "let s = goto 0 (Writing ''x'' 0 [] 0) tee_init in
   tee_step\<^sup>*\<^sup>* tee_init (s :: nat tee) \<and> set_heap s 0 = [] \<and> outs_of 0 s = []"
proof -
  let ?s = "goto 0 (Writing ''x'' 0 [] 0) (tee_init :: nat tee)"
  have "tee_step tee_init ?s" using write_start [of "tee_init :: nat tee" 0 "''x''"] by (simp add: tee_init_def)
  then have reach: "tee_step\<^sup>*\<^sup>* tee_init ?s" by blast
  have "tee_pcs ?s 0 = Writing ''x'' 0 [] 0" by simp
  then have "set_heap ?s 0 = []" using tee_write_snapshot [OF reach, of 0 "''x''" 0 "[]" 0] by simp
  moreover have "outs_of 0 ?s = []" by (simp add: outs_of_def tee_init_def)
  ultimately show ?thesis using reach by (simp add: Let_def)
qed

section \<open>Waiting for the first output\<close>

text \<open>When the starting thread goes on, the first message is there: the process id that \<open>stop_dmesg\<close> needs.\<close>

lemma trap_past: "trap_step\<^sup>*\<^sup>* trap_init s \<Longrightarrow> main_at s = Past \<Longrightarrow> first_message s \<noteq> None"
proof (induction rule: rtranclp_induct)
  case base
  then show ?case by (simp add: trap_init_def)
next
  case (step s s')
  then show ?case
    by (auto elim!: trap_stepE simp: trap_write_def split: option.splits waiter.splits)
qed

lemma trap_stuck:
  assumes "trap_step\<^sup>*\<^sup>* s s'" and "first_message s \<noteq> None" and "main_at s = Waiting"
  shows "first_message s' \<noteq> None \<and> main_at s' = Waiting"
  using assms(1)
proof (induction rule: rtranclp_induct)
  case base
  then show ?case using assms by simp
next
  case (step s s')
  then show ?case by (auto elim!: trap_stepE simp: trap_write_def split: option.splits)
qed

text \<open>
  C38: The thread that starts the kernel log capture goes on past its wait only after the first
  output was captured, but it may never go on: if the reader's first write comes before the
  wait, the notification is lost, and whatever is written later the thread keeps waiting.
\<close>
theorem dmesg_start_lost_wakeup:
  "(\<forall>s. trap_step\<^sup>*\<^sup>* trap_init s \<longrightarrow> main_at s = Past \<longrightarrow> first_message s \<noteq> None) \<and>
   (\<exists>s. trap_step\<^sup>*\<^sup>* trap_init s \<and> first_message s = Some pid \<and>
      (\<forall>s'. trap_step\<^sup>*\<^sup>* s s' \<longrightarrow> main_at s' = Waiting))"
proof
  show "\<forall>s. trap_step\<^sup>*\<^sup>* trap_init s \<longrightarrow> main_at s = Past \<longrightarrow> first_message s \<noteq> None" using trap_past by blast
  let ?w = "trap_write pid trap_init" and ?s = "(trap_write pid trap_init)\<lparr>main_at := Waiting\<rparr>"
  have "trap_step trap_init ?w" by (rule trap_output)
  moreover have "main_at ?w = Before" by (simp add: trap_write_def trap_init_def)
  then have "trap_step ?w ?s" by (rule trap_wait)
  ultimately have "trap_step\<^sup>*\<^sup>* trap_init ?s" by (meson rtranclp.rtrancl_refl rtranclp.rtrancl_into_rtrancl)
  moreover have "first_message ?s = Some pid" by (simp add: trap_write_def trap_init_def)
  ultimately show "\<exists>s. trap_step\<^sup>*\<^sup>* trap_init s \<and> first_message s = Some pid \<and>
      (\<forall>s'. trap_step\<^sup>*\<^sup>* s s' \<longrightarrow> main_at s' = Waiting)"
    using trap_stuck [of ?s] by (intro exI [of _ ?s]) auto
qed

theorem dmesg_start_lost_wakeup_witness:
  "\<exists>s. trap_step\<^sup>*\<^sup>* trap_init s \<and> first_message s = Some ''4711'' \<and> main_at s = Waiting"
  using dmesg_start_lost_wakeup [of "''4711''"] by blast

end
