(* ===== verification/Test_Generator.thy ===== *)
theory Test_Generator
  imports Prelude "HOL-Library.List_Lexorder" "HOL-Library.Char_ord" "HOL-Library.Product_Lexorder"
begin

text \<open>
  \<open>src/virter/vmshed_tests_generator.py\<close>: which tests run for a DRBD version. Versions are
  lists of elements; \<open>is_lower\<close> compares them with \<open>*\<close> as the greatest element and fails when
  a number meets a name. The program prints, so a statement here carries the lines printed so
  far. The JSON in the test files and the list of files are inputs.
\<close>

section \<open>Versions\<close>

text \<open>An element of a parsed version: an integer, \<open>float('inf')\<close>, a name or the wildcard.\<close>

datatype elem = Num int | Inf | Name string | Star

fun elem_key :: "elem \<Rightarrow> nat \<times> int \<times> string" where
  "elem_key (Num i) = (0, i, [])"
| "elem_key Inf = (1, 0, [])"
| "elem_key (Name s) = (2, 0, s)"
| "elem_key Star = (3, 0, [])"

lemma elem_key_inject: "elem_key x = elem_key y \<longleftrightarrow> x = y"
  by (cases x; cases y) auto

text \<open>The order of elements: numbers, then infinity, then names, then the wildcard.\<close>

instantiation elem :: linorder
begin

definition less_eq_elem :: "elem \<Rightarrow> elem \<Rightarrow> bool" where
  "less_eq_elem x y \<longleftrightarrow> elem_key x \<le> elem_key y"

definition less_elem :: "elem \<Rightarrow> elem \<Rightarrow> bool" where
  "less_elem x y \<longleftrightarrow> elem_key x < elem_key y"

instance
proof
  fix x y z :: elem
  show "x < y \<longleftrightarrow> x \<le> y \<and> \<not> y \<le> x" by (auto simp: less_elem_def less_eq_elem_def)
  show "x \<le> x" by (simp add: less_eq_elem_def)
  show "x \<le> y \<Longrightarrow> y \<le> z \<Longrightarrow> x \<le> z" by (simp add: less_eq_elem_def)
  show "x \<le> y \<Longrightarrow> y \<le> x \<Longrightarrow> x = y" by (simp add: less_eq_elem_def elem_key_inject [symmetric])
  show "x \<le> y \<or> y \<le> x" by (auto simp: less_eq_elem_def)
qed

end

text \<open>Python's \<open><\<close> on two elements neither of which is the wildcard.\<close>

definition numeric :: "elem \<Rightarrow> bool" where
  "numeric x \<longleftrightarrow> (case x of Num _ \<Rightarrow> True | Inf \<Rightarrow> True | _ \<Rightarrow> False)"

definition elem_less :: "elem \<Rightarrow> elem \<Rightarrow> exn + bool" where
  "elem_less x y = (if numeric x = numeric y then Inr (x < y) else Inl TypeError)"

fun is_lower :: "elem list \<Rightarrow> elem list \<Rightarrow> exn + bool" where
  "is_lower version [] = Inr False"
| "is_lower [] (m # ms) = Inr True"
| "is_lower (v # vs) (m # ms) =
     (if v = Star then Inr False
      else if m = Star then Inr True
      else (case elem_less v m of
              Inl e \<Rightarrow> Inl e
            | Inr lt \<Rightarrow>
                if lt then Inr True
                else (case elem_less m v of
                        Inl e \<Rightarrow> Inl e
                      | Inr gt \<Rightarrow> if gt then Inr False else is_lower vs ms)))"

definition is_commit_sha :: "elem \<Rightarrow> bool" where
  "is_commit_sha x =
     (case x of
        Name s \<Rightarrow> (length s = 40 \<or> length s = 64) \<and> list_all (\<lambda>c. c \<in> set ''0123456789abcdef'') s
      | _ \<Rightarrow> False)"

definition parse_elem :: "string \<Rightarrow> elem" where
  "parse_elem s =
     (if s \<noteq> [] \<and> list_all is_digit s then Num (int (nat_of_digits s))
      else if s = ''*'' then Star else Name s)"

definition parse_version :: "string \<Rightarrow> elem list" where
  "parse_version version_str =
     (let elements = map parse_elem (split_on (CHR ''.'') version_str) in
      if 4 \<le> length elements \<and> elements ! 2 = Num 0 \<and>
         (elements ! 3 = Name ''latest'' \<or> is_commit_sha (elements ! 3))
      then [elements ! 0, elements ! 1, Inf] else elements)"

text \<open>The lower of the two versions given on the command line.\<close>

definition version_lower :: "elem list option \<Rightarrow> elem list option \<Rightarrow> exn + elem list option" where
  "version_lower version other =
     (case (version, other) of
        (v, None) \<Rightarrow> Inr v
      | (None, Some o') \<Rightarrow> Inr (Some o')
      | (Some v, Some o') \<Rightarrow>
          (case is_lower v o' of
             Inl e \<Rightarrow> Inl e
           | Inr b \<Rightarrow> Inr (Some (if b then v else o'))))"

text \<open>\<open>drbd_version_lower < [9]\<close>: Python compares the first elements that differ.\<close>

definition below_9 :: "elem list \<Rightarrow> exn + bool" where
  "below_9 v =
     (case v of
        [] \<Rightarrow> Inr True
      | x # _ \<Rightarrow> if x = Num 9 then Inr False
                 else if x = Star then Inl TypeError else elem_less x (Num 9))"

section \<open>Variants\<close>

datatype variant_item = Plain string | Since string string  \<comment> \<open>\<open>drbd_version_min\<close>, \<open>variant\<close>\<close>

fun parse_variants_add :: "variant_item list \<Rightarrow> elem list option \<Rightarrow> exn + string list" where
  "parse_variants_add [] lower = Inr []"
| "parse_variants_add (Plain s # xs) lower = map_sum id (Cons s) (parse_variants_add xs lower)"
| "parse_variants_add (Since m s # xs) lower =
     (case (case lower of None \<Rightarrow> Inr True | Some v \<Rightarrow> is_lower (parse_version m) v) of
        Inl e \<Rightarrow> Inl e
      | Inr b \<Rightarrow> map_sum id (if b then Cons s else id) (parse_variants_add xs lower))"

section \<open>Tests\<close>

record network =
  net_forward :: string
  net_domain :: string
  net_dhcp :: bool

record vmshed_config =
  vms_all :: "int list option"
  vms_ci :: "int list option"
  vms_rdma_ci :: "int list option"
  cfg_version_min :: "string option"
  vm_tags :: "string list"
  variants_add :: "variant_item list"
  samevms :: bool
  networks :: "network list"

datatype selection = All | Ci | Rdma_ci

definition vms_of :: "selection \<Rightarrow> vmshed_config \<Rightarrow> int list option" where
  "vms_of sel c = (case sel of All \<Rightarrow> vms_all c | Ci \<Rightarrow> vms_ci c | Rdma_ci \<Rightarrow> vms_rdma_ci c)"

text \<open>The numbers of VMs a test runs with, empty if it is left out.\<close>

definition test_vms :: "selection \<Rightarrow> elem list option \<Rightarrow> vmshed_config \<Rightarrow> exn + int list" where
  "test_vms sel lower c =
     (case vms_of sel c of
        None \<Rightarrow> Inr []
      | Some vms \<Rightarrow>
          (case (case lower of None \<Rightarrow> Inr False | Some v \<Rightarrow> below_9 v) of
             Inl e \<Rightarrow> Inl e
           | Inr b \<Rightarrow>
               let vms' = (if b then filter (\<lambda>x. x \<le> 2) vms else vms) in
               if vms' = [] then Inr []
               else (case (lower, cfg_version_min c) of
                       (Some v, Some m) \<Rightarrow>
                         map_sum id (\<lambda>low. if low then [] else vms') (is_lower v (parse_version m))
                     | _ \<Rightarrow> Inr vms')))"

text \<open>\<open>str\<close> of a list of integers and of a list of printable ASCII strings.\<close>

definition repr_char :: "char \<Rightarrow> char \<Rightarrow> string" where
  "repr_char q c = (if c = q \<or> c = CHR 0x5C then [CHR 0x5C, c] else [c])"

definition repr_str :: "string \<Rightarrow> string" where
  "repr_str s =
     (let q = (if QUOTE \<in> set s \<and> DQUOTE \<notin> set s then DQUOTE else QUOTE)
      in [q] @ concat (map (repr_char q) s) @ [q])"

definition repr_list :: "('a \<Rightarrow> string) \<Rightarrow> 'a list \<Rightarrow> string" where
  "repr_list f xs = ''['' @ join '', '' (map f xs) @ '']''"

definition network_lines :: "string \<Rightarrow> network \<Rightarrow> string list" where
  "network_lines name n =
     [''[[tests.'' @ name @ ''.networks]]'',
      ''forward = '' @ [DQUOTE] @ net_forward n @ [DQUOTE],
      ''domain = '' @ [DQUOTE] @ net_domain n @ [DQUOTE],
      ''dhcp = '' @ (if net_dhcp n then ''true'' else ''false'')]"

definition test_lines ::
  "string list \<Rightarrow> elem list option \<Rightarrow> string \<Rightarrow> vmshed_config \<Rightarrow> int list \<Rightarrow> exn + string list" where
  "test_lines default_variants lower name c vms =
     map_sum id (\<lambda>added.
       [''[tests.'' @ name @ '']'', ''vms = '' @ repr_list str_int vms] @
       (if vm_tags c = [] then [] else [''vm_tags = '' @ repr_list repr_str (vm_tags c)]) @
       [''variants = '' @ repr_list repr_str (sort (remdups (default_variants @ added)))] @
       (if samevms c then [''samevms = true''] else []) @
       concat (map (network_lines name) (networks c)) @ [[]])
     (parse_variants_add (variants_add c) lower)"

section \<open>The program\<close>

type_synonym 'a out = "(string list, 'a) act"

definition print_lines :: "string list \<Rightarrow> unit out" where
  "print_lines ls = modA (\<lambda>o'. o' @ ls)"

definition gen_test ::
  "selection \<Rightarrow> string list \<Rightarrow> elem list option \<Rightarrow> string \<times> vmshed_config \<Rightarrow> unit out" where
  "gen_test sel default_variants lower = (\<lambda>(name, c).
     bindA (liftA (test_vms sel lower c)) (\<lambda>vms.
       whenA (vms \<noteq> [])
         (bindA (liftA (test_lines default_variants lower name c vms)) print_lines)))"

text \<open>A test file without a configuration line, or without \<open>vms_all\<close>, is refused.\<close>

definition check_config ::
  "string \<Rightarrow> string \<times> vmshed_config option \<Rightarrow> exn + string \<times> vmshed_config" where
  "check_config tests_dir = (\<lambda>(name, co).
     let filepath = tests_dir @ ''/'' @ name in
     case co of
       None \<Rightarrow> Inl (RuntimeError (''no '' @ [DQUOTE] @ ''### vmshed: '' @ [DQUOTE] @
                 '' line found in '' @ [DQUOTE] @ filepath @ [DQUOTE]))
     | Some c \<Rightarrow>
         if vms_all c = None \<or> vms_all c = Some []
         then Inl (RuntimeError (''no '' @ [DQUOTE] @ ''vms_all'' @ [DQUOTE] @ '' configured for '' @
                [DQUOTE] @ filepath @ [DQUOTE]))
         else Inr (name, c))"

text \<open>\<open>parse_version(s) if s else None\<close>\<close>

definition parse_arg :: "string option \<Rightarrow> elem list option" where
  "parse_arg x = (case x of None \<Rightarrow> None | Some s \<Rightarrow> if s = [] then None else Some (parse_version s))"

definition gen_header :: "string \<Rightarrow> string \<Rightarrow> string list" where
  "gen_header timeout variants_toml =
     [''test_suite_file = '' @ [DQUOTE] @ ''run.toml'' @ [DQUOTE],
      ''test_timeout = '' @ [DQUOTE] @ timeout @ [DQUOTE],
      ''artifacts = ['' @ [DQUOTE] @ ''/gcov.tar.gz'' @ [DQUOTE] @ '']'', [],
      rev (lstrip (rev variants_toml)), [], ''[tests]'']"

definition gen_main ::
  "string \<Rightarrow> selection \<Rightarrow> string option \<Rightarrow> string option \<Rightarrow> string list \<Rightarrow> string \<Rightarrow> string \<Rightarrow>
   (string \<times> vmshed_config option) list \<Rightarrow> unit out" where
  "gen_main tests_dir sel version other default_variants timeout variants_toml files =
     bindA (liftA (version_lower (parse_arg version) (parse_arg other))) (\<lambda>lower.
     bindA (mapA files (\<lambda>f. liftA (check_config tests_dir f))) (\<lambda>configs.
     seqA (print_lines (gen_header timeout variants_toml))
          (forA (sort_key fst configs) (gen_test sel default_variants lower))))"

section \<open>Comparing versions\<close>

text \<open>What follows a wildcard does not matter.\<close>

fun trunc :: "elem list \<Rightarrow> elem list" where
  "trunc [] = []"
| "trunc (x # xs) = (if x = Star then [Star] else x # trunc xs)"

lemma Star_greatest: "x \<noteq> Star \<Longrightarrow> x < Star" and Star_not_less: "\<not> Star < x"
  by (cases x; simp add: less_elem_def)+

lemma is_lower_lex:
  "is_lower v m = Inr b \<Longrightarrow> b \<longleftrightarrow> trunc v < trunc m"
proof (induction v m arbitrary: b rule: is_lower.induct)
  case (3 v vs m ms)
  show ?case
  proof (cases "v = Star \<or> m = Star")
    case True
    then show ?thesis
      using "3.prems" by (auto simp: Star_greatest Star_not_less split: if_splits)
  next
    case False
    then have "elem_less v m = Inr (v < m) \<and> elem_less m v = Inr (m < v)"
      using "3.prems" by (auto simp: elem_less_def split: if_splits)
    with False "3.prems" "3.IH" show ?thesis
      by (cases "v < m"; cases "m < v") auto
  qed
qed auto

text \<open>
  C27: When \<open>is_lower\<close> returns, it is the lexicographic order of the versions cut off after their
  first wildcard, with the wildcard above every number and every name. So it is a strict
  order: no version is lower than itself, and the comparison is transitive.
\<close>
theorem is_lower_lexicographic:
  "is_lower v m = Inr b \<Longrightarrow> b \<longleftrightarrow> trunc v < trunc m"
  by (rule is_lower_lex)

theorem is_lower_lexicographic_witness:
  "is_lower (parse_version ''9.1.*'') (parse_version ''9.2.0'') = Inr True \<and>
   trunc (parse_version ''9.1.*'') < trunc (parse_version ''9.2.0'')"
proof -
  have "is_lower (parse_version ''9.1.*'') (parse_version ''9.2.0'') = Inr True" by code_simp
  with is_lower_lexicographic show ?thesis by blast
qed

lemma parse_elem_str_nat [simp]: "parse_elem (str_nat n) = Num (int n)"
  using str_nat_digits [of n] by (simp add: parse_elem_def)

text \<open>Parsing a version of dot-separated numbers followed by one more element.\<close>

lemma parse_version_numbers:
  "parse_version (join ''.'' (map str_nat ns @ [s])) =
     (let es = map (Num \<circ> int) ns @ [parse_elem s] in
      if 4 \<le> length es \<and> es ! 2 = Num 0 \<and> (es ! 3 = Name ''latest'' \<or> is_commit_sha (es ! 3))
      then [es ! 0, es ! 1, Inf] else es)"
  if "CHR ''.'' \<notin> set s"
proof -
  have "CHR ''.'' \<notin> set (str_nat n)" for n by (rule str_nat_no_char) (simp add: is_digit_def)
  with that have "split_on (CHR ''.'') (join ''.'' (map str_nat ns @ [s])) = map str_nat ns @ [s]"
    by (intro split_on_join) auto
  then have "map parse_elem (split_on (CHR ''.'') (join ''.'' (map str_nat ns @ [s]))) =
      map (Num \<circ> int) ns @ [parse_elem s]" by simp
  then show ?thesis unfolding parse_version_def by (simp only:)
qed

text \<open>
  An unreleased build \<open>a.b.0.latest\<close> or \<open>a.b.0.<commit>\<close> is above every release of its series
  and below the next one: \<open>a.b.k\<close> is lower than it for every \<open>k\<close>, and it is lower than \<open>a.c.k\<close> for
  every \<open>c\<close> above \<open>b\<close>.
\<close>
theorem parse_version_development:
  assumes "d = ''latest'' \<or> is_commit_sha (parse_elem d)" and "CHR ''.'' \<notin> set d" and "b < c"
  shows "is_lower (parse_version (join ''.'' [str_nat a, str_nat b, str_nat k]))
           (parse_version (join ''.'' [str_nat a, str_nat b, str_nat 0, d])) = Inr True \<and>
         is_lower (parse_version (join ''.'' [str_nat a, str_nat b, str_nat 0, d]))
           (parse_version (join ''.'' [str_nat a, str_nat c, str_nat k])) = Inr True"
proof -
  have lat: "parse_elem ''latest'' = Name ''latest''"
    by (simp add: parse_elem_def is_digit_def)
  have dot: "CHR ''.'' \<notin> set (str_nat n)" for n by (rule str_nat_no_char) (simp add: is_digit_def)
  have dev: "parse_version (join ''.'' [str_nat a, str_nat b, str_nat 0, d]) = [Num (int a), Num (int b), Inf]"
    using parse_version_numbers [OF assms(2), of "[a, b, 0]"] assms(1) lat by (auto simp: Let_def)
  have rel: "parse_version (join ''.'' [str_nat a, str_nat e, str_nat k]) =
      [Num (int a), Num (int e), Num (int k)]" for e
    using parse_version_numbers [OF dot, of "[a, e]" k] by simp
  show ?thesis
    unfolding dev rel using assms(3) by (simp_all add: elem_less_def numeric_def less_elem_def)
qed

theorem parse_version_development_witness:
  "is_lower (parse_version ''9.2.7'') (parse_version ''9.2.0.latest'') = Inr True \<and>
   is_lower (parse_version ''9.2.0.latest'') (parse_version ''9.3.7'') = Inr True"
proof -
  have "str_nat 9 = ''9''" "str_nat 2 = ''2''" "str_nat 7 = ''7''" "str_nat 3 = ''3''" "str_nat 0 = ''0''"
    by code_simp+
  then show ?thesis
    using parse_version_development [of "''latest''" 2 3 9 7] by simp
qed

section \<open>Selecting tests\<close>

text \<open>
  A test is generated only with numbers of VMs its own configuration lists for the
  selection, never for more than two when the lower DRBD version is below 9, and never when
  the lower version is lower than the test's minimum.
\<close>
theorem test_vms_selected:
  assumes "test_vms sel lower c = Inr vms" and "n \<in> set vms"
  shows "(\<exists>all. vms_of sel c = Some all \<and> n \<in> set all) \<and>
    (\<forall>v. lower = Some v \<longrightarrow> below_9 v = Inr True \<longrightarrow> n \<le> 2) \<and>
    (\<forall>v m. lower = Some v \<longrightarrow> cfg_version_min c = Some m \<longrightarrow> is_lower v (parse_version m) = Inr False)"
proof -
  obtain all b where all: "vms_of sel c = Some all"
    and b: "(case lower of None \<Rightarrow> Inr False | Some v \<Rightarrow> below_9 v) = Inr b"
    using assms by (auto simp: test_vms_def split: option.splits sum.splits)
  define vms' where "vms' = (if b then filter (\<lambda>x. x \<le> 2) all else all)"
  have eq: "test_vms sel lower c = (if vms' = [] then Inr []
     else (case (lower, cfg_version_min c) of
             (Some v, Some m) \<Rightarrow> map_sum id (\<lambda>low. if low then [] else vms') (is_lower v (parse_version m))
           | _ \<Rightarrow> Inr vms'))"
    unfolding test_vms_def all option.case b sum.case Let_def vms'_def by (rule refl)
  have sub: "n \<in> set vms'" and low: "\<forall>v m. lower = Some v \<longrightarrow> cfg_version_min c = Some m \<longrightarrow>
      is_lower v (parse_version m) = Inr False"
  proof -
    have "n \<in> set vms' \<and> (\<forall>v m. lower = Some v \<longrightarrow> cfg_version_min c = Some m \<longrightarrow>
        is_lower v (parse_version m) = Inr False)"
    proof (cases lower)
      case None
      with assms eq show ?thesis by (auto split: if_splits)
    next
      case (Some v)
      show ?thesis
      proof (cases "cfg_version_min c")
        case None
        with assms eq Some show ?thesis by (auto split: if_splits)
      next
        case (Some m)
        with assms eq \<open>lower = Some v\<close> show ?thesis
          by (cases "is_lower v (parse_version m)") (auto split: if_splits)
      qed
    qed
    then show "n \<in> set vms'" "\<forall>v m. lower = Some v \<longrightarrow> cfg_version_min c = Some m \<longrightarrow>
        is_lower v (parse_version m) = Inr False" by blast+
  qed
  have "n \<in> set all" "\<forall>v. lower = Some v \<longrightarrow> below_9 v = Inr True \<longrightarrow> n \<le> 2"
    using sub b by (auto simp: vms'_def split: if_splits)
  with all low show ?thesis by blast
qed

definition sample_config :: vmshed_config where
  "sample_config = \<lparr>vms_all = Some [2, 3], vms_ci = Some [3], vms_rdma_ci = None,
     cfg_version_min = Some ''9.1'', vm_tags = [], variants_add = [Plain ''lbtcp'', Since ''9.2.0'' ''tls''],
     samevms = True, networks = []\<rparr>"

theorem test_vms_selected_witness:
  "test_vms Ci (Some (parse_version ''9.2.4'')) sample_config = Inr [3] \<and>
   is_lower (parse_version ''9.2.4'') (parse_version ''9.1'') = Inr False"
proof -
  have t: "test_vms Ci (Some (parse_version ''9.2.4'')) sample_config = Inr [3]" by code_simp
  have "cfg_version_min sample_config = Some ''9.1''" by (simp add: sample_config_def)
  with t test_vms_selected [OF t, of 3] show ?thesis by simp
qed

text \<open>The lines of one test.\<close>

definition section_lines ::
  "selection \<Rightarrow> string list \<Rightarrow> elem list option \<Rightarrow> string \<times> vmshed_config \<Rightarrow> string list" where
  "section_lines sel dv lower nc =
     (case test_vms sel lower (snd nc) of
        Inl _ \<Rightarrow> []
      | Inr vms \<Rightarrow> if vms = [] then []
                   else (case test_lines dv lower (fst nc) (snd nc) vms of Inl _ \<Rightarrow> [] | Inr ls \<Rightarrow> ls))"

lemma gen_test_ok:
  "gen_test sel dv lower nc o1 = (Inr (), o2) \<Longrightarrow> o2 = o1 @ section_lines sel dv lower nc"
  by (cases nc)
    (auto simp: gen_test_def section_lines_def print_lines_def bindA_def whenA_def split: sum.splits if_splits)

lemma gen_tests_ok:
  "forA cs (gen_test sel dv lower) o1 = (Inr (), o2) \<Longrightarrow>
   o2 = o1 @ concat (map (section_lines sel dv lower) cs)"
proof (induction cs arbitrary: o1)
  case (Cons c cs)
  then obtain u o3 where "gen_test sel dv lower c o1 = (Inr u, o3)"
    "forA cs (gen_test sel dv lower) o3 = (Inr (), o2)" by (auto elim!: seq_InrE)
  with Cons.IH [of o3] gen_test_ok [of sel dv lower c o1 o3] show ?case by simp
qed simp

lemma check_configs:
  assumes g: "\<And>f o1. g f o1 = (check_config d f, o1)"
  shows "mapA fs g o1 = (Inr cs, o2) \<Longrightarrow> o2 = o1 \<and> fs = map (\<lambda>(n, c). (n, Some c)) cs"
proof (induction fs arbitrary: cs o1)
  case (Cons f fs)
  then obtain c o3 ds where c: "g f o1 = (Inr c, o3)" "cs = c # ds" "mapA fs g o3 = (Inr ds, o2)"
    by (auto elim!: bind_InrE)
  from c(1) have "check_config d f = Inr c" "o3 = o1" unfolding g by simp_all
  with c Cons.IH [of o1 ds] show ?case
    by (cases f) (auto simp: check_config_def Let_def split: option.splits if_splits)
qed simp



text \<open>
  C39: A conditional variant is left out at exactly the version it asks for: the comparison is
  strict, unlike the one for a whole test.
\<close>
theorem variant_since_strict:
  assumes "is_lower (parse_version m) (parse_version m) = Inr b"
  shows "parse_variants_add [Since m s] (Some (parse_version m)) = Inr []"
proof -
  have "is_lower (parse_version m) (parse_version m) = Inr False"
    using assms is_lower_lex [OF assms] by simp
  then show ?thesis by simp
qed

theorem variant_since_strict_witness:
  "parse_variants_add [Since ''9.2.0'' ''tls''] (Some (parse_version ''9.2.0'')) = Inr []"
proof (rule variant_since_strict)
  show "is_lower (parse_version ''9.2.0'') (parse_version ''9.2.0'') = Inr False" by code_simp
qed

end
