(* ===== verification/Test_Runner.thy ===== *)
theory Test_Runner
  imports Ordered_Set Complex_Main
begin

text \<open>
  \<open>src/run.py\<close>: running the tests on a set of VMs and the statistics over earlier runs.
  Processes are the outside world: \<open>runner_env\<close> says how a remote command, a test and a test's
  \<open>--report-and-quit\<close> end, given what happened so far. Times and rates, floating point in the
  program, are rational numbers here. Reading the test sets and the main program are in the
  theories \<open>Runner_Files\<close> and \<open>Runner_Main\<close>.
\<close>

section \<open>Processes and output\<close>

record proc_reply =
  pr_code :: int
  pr_out :: string
  pr_err :: string

record test_result =
  exit_code :: int
  run_time :: rat
  timed_out :: bool
  result_nodes :: nat

text \<open>An entry of the data base of results.\<close>

type_synonym run_results = "(string \<times> test_result) list"

record db_entry =
  db_version :: string
  db_git_hash :: string
  db_kernel :: string
  db_date_time :: string
  db_results :: run_results

datatype proc_event =
    Remote string string  \<comment> \<open>a command on a VM\<close>
  | Test string "string list"  \<comment> \<open>a test and the VMs it got\<close>
  | Report string
  | Save "db_entry list"  \<comment> \<open>writing \<open>result_db.json\<close>\<close>

text \<open>
  The process of a test: when it was started, when each line of its output was read, when it was
  reaped, its return code, and whether the timer had killed it by then.
\<close>

record proc_run =
  started :: rat
  line_times :: "rat list"
  ended :: rat
  returncode :: int
  hit_timeout :: bool

record runner_env =
  remote :: "proc_event list \<Rightarrow> string \<Rightarrow> string \<Rightarrow> exn + proc_reply"
  run_test :: "proc_event list \<Rightarrow> string \<Rightarrow> string list \<Rightarrow> exn + proc_run"
  report :: "string \<Rightarrow> proc_reply"

record runner =
  events :: "proc_event list"
  stdout :: string

type_synonym 'a run = "(runner, 'a) act"

definition put :: "string \<Rightarrow> unit run" where
  "put s = modA (\<lambda>w. w\<lparr>stdout := stdout w @ s\<rparr>)"

definition put_line :: "string \<Rightarrow> unit run" where
  "put_line s = put (s @ NL)"

text \<open>A command through \<open>ssh\<close>, and the same with \<open>check=True\<close>.\<close>

definition ssh :: "runner_env \<Rightarrow> string \<Rightarrow> string \<Rightarrow> proc_reply run" where
  "ssh E vm cmd = bindA (getA (\<lambda>w. remote E (events w) vm cmd)) (\<lambda>r.
     seqA (modA (\<lambda>w. w\<lparr>events := events w @ [Remote vm cmd]\<rparr>)) (liftA r))"

definition ssh_check :: "runner_env \<Rightarrow> string \<Rightarrow> string \<Rightarrow> proc_reply run" where
  "ssh_check E vm cmd = bindA (ssh E vm cmd) (\<lambda>r.
     if pr_code r = 0 then ret r else raise (CalledProcessError (pr_code r) (pr_err r)))"

definition esc :: "string \<Rightarrow> string" where
  "esc s = [CHR 0x1B] @ s"

abbreviation NORMAL :: string where "NORMAL \<equiv> esc ''[0m''"
abbreviation GREEN :: string where "GREEN \<equiv> esc ''[32m''"
abbreviation WHITE :: string where "WHITE \<equiv> esc ''[97m''"
abbreviation RED :: string where "RED \<equiv> esc ''[91m''"
abbreviation CR :: string where "CR \<equiv> [CHR 0x0D]"
abbreviation BS :: char where "BS \<equiv> CHR 0x08"

text \<open>
  Numbers in a fixed format: \<open>half_even\<close> rounds to an integer, ties to the even one, \<open>fixed1\<close> is
  \<open>'%.1f'\<close>, and \<open>lpad\<close> fills up to a width on the left.
\<close>

definition half_even :: "rat \<Rightarrow> nat" where
  "half_even y =
     (let f = nat \<lfloor>y\<rfloor>; d = y - of_nat f
      in if d < 1 / 2 \<or> d = 1 / 2 \<and> even f then f else Suc f)"

definition fixed1 :: "rat \<Rightarrow> string" where
  "fixed1 x =
     (let n = half_even (\<bar>x\<bar> * 10)
      in (if x < 0 then ''-'' else []) @ str_nat (n div 10) @ ''.'' @ str_nat (n mod 10))"

definition lpad :: "nat \<Rightarrow> string \<Rightarrow> string" where
  "lpad n s = replicate (n - length s) (CHR '' '') @ s"

section \<open>Taking a VM down\<close>

definition drbdsetup_down :: "runner_env \<Rightarrow> string \<Rightarrow> unit run" where
  "drbdsetup_down E vm = bindA (ssh_check E vm ''drbdsetup down all'') (\<lambda>_. ret ())"

definition unmount_dev :: "runner_env \<Rightarrow> string \<Rightarrow> string \<Rightarrow> unit run" where
  "unmount_dev E vm dev = bindA (ssh E vm (''umount '' @ dev)) (\<lambda>r.
     if pr_code r = 0 then ret () else raise (RuntimeError (pr_err r)))"

definition is_process_running :: "runner_env \<Rightarrow> string \<Rightarrow> string \<Rightarrow> bool run" where
  "is_process_running E vm pid = bindA (ssh E vm (''test -d /proc/'' @ pid)) (\<lambda>r. ret (pr_code r = 0))"

text \<open>The loop \<open>while attempt < 3\<close> of \<open>kill_process\<close>, with its \<open>else\<close>; \<open>left\<close> counts down from 3.\<close>

primrec kill_loop :: "runner_env \<Rightarrow> string \<Rightarrow> string \<Rightarrow> nat \<Rightarrow> unit run" where
  "kill_loop E vm pid 0 = raise (RuntimeError [])"
| "kill_loop E vm pid (Suc left) =
     bindA (ssh E vm (''kill -9 '' @ pid)) (\<lambda>_.
     bindA (is_process_running E vm pid) (\<lambda>running.
       if \<not> running then ret ()
       else seqA (put_line (''  Process was not killed on attempt '' @ str_nat (3 - left) @ '', retrying''))
              (kill_loop E vm pid left)))"

definition kill_process :: "runner_env \<Rightarrow> string \<Rightarrow> string \<Rightarrow> unit run" where
  "kill_process E vm pid = kill_loop E vm pid 3"

text \<open>
  \<open>re.search(r'^(.*) opened by (.*) \(pid (\d*)\) at .*$', s)\<close>: the groups are greedy, so the
  last place where the rest of the pattern fits counts. \<open>cuts p s\<close> are the ways to split \<open>s\<close>
  around an occurrence of \<open>p\<close>, last one first. The subject has no newline.
\<close>

fun cuts :: "string \<Rightarrow> string \<Rightarrow> (string \<times> string) list" where
  "cuts p [] = (if p = [] then [([], [])] else [])"
| "cuts p (c # cs) =
     map (\<lambda>(a, b). (c # a, b)) (cuts p cs) @
     (if startswith (c # cs) p then [([], drop (length p) (c # cs))] else [])"

definition match_pid :: "string \<Rightarrow> string option" where
  "match_pid s =
     (let ds = takeWhile is_digit s
      in if startswith (dropWhile is_digit s) '') at '' then Some ds else None)"

definition match_holder :: "string \<Rightarrow> (string \<times> string \<times> string) option" where
  "match_holder s =
     (case [(dev, name, pid). (dev, r) \<leftarrow> cuts '' opened by '' s, (name, q) \<leftarrow> cuts '' (pid '' r,
              Some pid \<leftarrow> [match_pid q]] of
        [] \<Rightarrow> None
      | x # _ \<Rightarrow> Some x)"

text \<open>
  \<open>str(e.stderr)\<close>: the captured standard error is a \<open>bytes\<close> object, so its text comes with a
  \<open>b\<close>, quotes around it and escapes inside (here of printable text with newlines).
\<close>

definition repr_byte :: "char \<Rightarrow> string" where
  "repr_byte c = (if c = CHR 0x0A then [CHR 0x5C, CHR ''n''] else if c = CHR 0x5C then [c, c] else [c])"

definition bytes_repr :: "string \<Rightarrow> string" where
  "bytes_repr s =
     (let q = (if QUOTE \<in> set s \<and> DQUOTE \<notin> set s then DQUOTE else QUOTE)
      in ''b'' @ [q] @ concat (map (\<lambda>c. if c = q then [CHR 0x5C, c] else repr_byte c) s) @ [q])"

definition handle_down_error :: "runner_env \<Rightarrow> string \<Rightarrow> int \<Rightarrow> string \<Rightarrow> unit run" where
  "handle_down_error E vm code err =
     seqA (if code = 11 then
             (case match_holder (bytes_repr err) of
                None \<Rightarrow> raise AttributeError
              | Some (dev, procname, pid) \<Rightarrow>
                  if procname = ''mount''
                  then seqA (put_line (''  Device is mounted, unmounting '' @ dev)) (unmount_dev E vm dev)
                  else seqA (put_line (''  Device is being held open, killing '' @ procname @
                               '' (pid '' @ pid @ '')''))
                         (kill_process E vm pid))
           else raise (RuntimeError ''Unknown drbdsetup down exception''))
          (drbdsetup_down E vm)"

definition try_down_all :: "runner_env \<Rightarrow> string \<Rightarrow> unit run" where
  "try_down_all E vm = tryA (drbdsetup_down E vm) (\<lambda>e.
     case e of CalledProcessError k err \<Rightarrow> handle_down_error E vm k err | _ \<Rightarrow> raise e)"

definition prepare_script :: string where
  "prepare_script = NL @ join NL
     [''rmmod drbd_transport_tcp 2>/dev/null || true'',
      ''rmmod drbd 2>/dev/null || true'',
      ''modprobe crc32c 2>/dev/null || true'',
      ''UNR=$(uname -r)'',
      ''if test -e /lib/modules/$UNR/updates/drbd.ko; then'',
      ''    insmod /lib/modules/$UNR/updates/drbd.ko'',
      ''    insmod /lib/modules/$UNR/updates/drbd_transport_tcp.ko'',
      ''elif test -e /lib/modules/$UNR/weak-updates/drbd/drbd.ko; then'',
      ''    insmod /lib/modules/$UNR/weak-updates/drbd/drbd.ko'',
      ''    insmod /lib/modules/$UNR/weak-updates/drbd/drbd_transport_tcp.ko'',
      ''elif test -e /lib/modules/$UNR/extra/drbd/drbd.ko; then'',
      ''    insmod /lib/modules/$UNR/extra/drbd/drbd.ko'',
      ''    insmod /lib/modules/$UNR/extra/drbd/drbd_transport_tcp.ko'',
      ''else'',
      ''    echo '' @ [DQUOTE] @ ''drbd.ko is in an unknown location, cannot load'' @ [DQUOTE],
      ''    exit 1'',
      ''fi''] @ NL"

definition check_code :: "proc_reply \<Rightarrow> unit run" where
  "check_code r =
     (if pr_code r = 0 then ret () else raise (CalledProcessError (pr_code r) ''ssh''))"

definition start_prepare :: "runner_env \<Rightarrow> string \<Rightarrow> proc_reply run" where
  "start_prepare E vm = seqA (try_down_all E vm) (ssh E vm prepare_script)"

definition cleanup_and_prepare_vm :: "runner_env \<Rightarrow> string \<Rightarrow> unit run" where
  "cleanup_and_prepare_vm E vm = bindA (start_prepare E vm) check_code"

text \<open>All VMs are started before the first one is waited for.\<close>

definition cleanup_and_prepare_vms :: "runner_env \<Rightarrow> string list \<Rightarrow> unit run" where
  "cleanup_and_prepare_vms E vm_names =
     seqA (put ''Preparing'')
    (bindA (mapA vm_names (\<lambda>vm. seqA (put ('' '' @ vm)) (start_prepare E vm))) (\<lambda>ps.
     forA ps check_code))"

definition list_LVs :: "runner_env \<Rightarrow> string \<Rightarrow> string list run" where
  "list_LVs E vm = bindA (ssh_check E vm ''lvs --noheadings -o lv_path'') (\<lambda>r.
     ret (map strip (splitlines (pr_out r))))"

definition remove_excess_LVs :: "runner_env \<Rightarrow> string list \<Rightarrow> string \<Rightarrow> unit run" where
  "remove_excess_LVs E orig_lvs vm = bindA (list_LVs E vm) (\<lambda>lvs.
     forA lvs (\<lambda>lv. whenA (lv \<notin> set orig_lvs)
       (seqA (cleanup_and_prepare_vm E vm)
             (bindA (ssh_check E vm (''lvremove -f '' @ lv)) (\<lambda>_. ret ())))))"

definition cleanup :: "runner_env \<Rightarrow> (string \<times> string list) list \<Rightarrow> string list \<Rightarrow> unit run" where
  "cleanup E original_lvs all_vm_names = forA all_vm_names (\<lambda>vm.
     bindA (liftA (case dict_get (=) original_lvs vm of None \<Rightarrow> Inl KeyError | Some l \<Rightarrow> Inr l))
       (\<lambda>orig. remove_excess_LVs E orig vm))"

section \<open>Which tests run on how many VMs\<close>

record test_set =
  ts_vms :: nat
  ts_tests :: "string list"

text \<open>\<open>int(re.findall(pat + '([0-9]+)', s)[0])\<close>\<close>

fun find_num :: "string \<Rightarrow> string \<Rightarrow> exn + nat" where
  "find_num pat [] = Inl IndexError"
| "find_num pat (c # cs) =
     (let r = drop (length pat) (c # cs); ds = takeWhile is_digit r
      in if startswith (c # cs) pat \<and> ds \<noteq> [] then Inr (nat_of_digits ds) else find_num pat cs)"

definition node_limits :: "proc_reply \<Rightarrow> exn + nat \<times> nat" where
  "node_limits r =
     (if pr_code r \<noteq> 0 then Inl (CalledProcessError (pr_code r) (pr_err r))
      else (case splitlines (pr_out r) of
              [a, b] \<Rightarrow>
                (case find_num ''min_nodes='' a of
                   Inl e \<Rightarrow> Inl e
                 | Inr m \<Rightarrow> (case find_num ''max_nodes='' b of Inl e \<Rightarrow> Inl e | Inr k \<Rightarrow> Inr (m, k)))
            | _ \<Rightarrow> Inl ValueError))"

definition sets_append :: "(nat \<times> string list) list \<Rightarrow> nat \<Rightarrow> string \<Rightarrow> (nat \<times> string list) list" where
  "sets_append d k t =
     dict_put (=) d k (case dict_get (=) d k of None \<Rightarrow> [t] | Some ts \<Rightarrow> ts @ [t])"

definition place_test ::
  "runner_env \<Rightarrow> nat \<Rightarrow> (nat \<times> string list) list \<Rightarrow> string \<Rightarrow> (nat \<times> string list) list run" where
  "place_test E n_vms d test =
     seqA (modA (\<lambda>w. w\<lparr>events := events w @ [Report test]\<rparr>))
    (bindA (liftA (node_limits (report E test))) (\<lambda>(min_nodes, max_nodes).
       if min_nodes \<le> n_vms then ret (sets_append d (min n_vms max_nodes) test)
       else seqA (put_line (''Can not run '' @ WHITE @ test @ NORMAL @ '' with '' @ str_nat n_vms @
                    '' VMs, need '' @ str_nat min_nodes @ '' at minimum'')) (ret d)))"

definition generate_test_set :: "runner_env \<Rightarrow> string list \<Rightarrow> nat \<Rightarrow> test_set list run" where
  "generate_test_set E tests n_vms = bindA (foldA tests (place_test E n_vms) []) (\<lambda>d.
     ret (map (\<lambda>(n, ts). \<lparr>ts_vms = n, ts_tests = ts\<rparr>) d))"

section \<open>Running them\<close>

text \<open>What is known of a test from earlier runs; a key that is not in the dictionary is \<open>None\<close>.\<close>

record statistic =
  average_runtime :: "rat option"
  success_rate :: "rat option"
  stat_count :: "nat option"

text \<open>
  \<open>run_with_progress\<close>: the time shown while the test runs, followed by as many backspaces, each time
  more than a tenth of a second passed since the last line.
\<close>

definition progress_text :: "statistic option \<Rightarrow> rat \<Rightarrow> exn + string \<times> nat" where
  "progress_text st d =
     (case Option.bind st average_runtime of
        None \<Rightarrow> Inr (lpad 5 (fixed1 d) @ '' secs'', length ''123.1 secs'')
      | Some a \<Rightarrow>
          if a = 0 then Inl ZeroDivisionError
          else Inr (lpad 5 (fixed1 d) @ '' secs ('' @ lpad 5 (fixed1 (min (d / a * 100) 100)) @ ''%)'',
                    length ''123.1 secs (100.0%)''))"

primrec progress_loop :: "statistic option \<Rightarrow> rat \<Rightarrow> rat list \<Rightarrow> rat \<Rightarrow> nat \<Rightarrow> nat run" where
  "progress_loop st start [] before n_chars = ret n_chars"
| "progress_loop st start (now # reads) before n_chars =
     (if 1 / 10 < now - before
      then bindA (liftA (progress_text st (now - start))) (\<lambda>(secs, n).
           seqA (put (secs @ replicate n BS)) (progress_loop st start reads now n))
      else progress_loop st start reads now n_chars)"

definition run_with_progress ::
  "runner_env \<Rightarrow> string \<Rightarrow> string list \<Rightarrow> statistic option \<Rightarrow> test_result run" where
  "run_with_progress E test vm_names st =
     bindA (getA (\<lambda>w. run_test E (events w) test vm_names)) (\<lambda>r.
     seqA (modA (\<lambda>w. w\<lparr>events := events w @ [Test test vm_names]\<rparr>))
    (bindA (liftA r) (\<lambda>p.
     bindA (progress_loop st (started p) (line_times p) (started p) 10) (\<lambda>n.
     seqA (put (replicate n (CHR '' '') @ replicate n BS))
          (ret \<lparr>exit_code = returncode p, run_time = ended p - started p, timed_out = hit_timeout p,
             result_nodes = 0\<rparr>)))))"

record tally =
  results :: "(string \<times> test_result) list"
  global_exit_code :: int
  num_successful :: nat
  num_total :: nat
  num_skipped :: nat

text \<open>The loop goes on, or the function returns with an exit code.\<close>

datatype flow = Continue tally | Return int tally

fun flow_tally :: "flow \<Rightarrow> tally" where
  "flow_tally (Continue t) = t"
| "flow_tally (Return _ t) = t"

text \<open>After a failed test: clean up, and go on only with \<open>keep_going\<close>.\<close>

definition failed ::
  "runner_env \<Rightarrow> (string \<times> string list) list \<Rightarrow> string list \<Rightarrow> bool \<Rightarrow> int \<Rightarrow> tally \<Rightarrow> flow run" where
  "failed E original_lvs all_vm_names keep_going code t =
     seqA (cleanup E original_lvs all_vm_names)
       (ret (if keep_going then Continue (t\<lparr>global_exit_code := 1\<rparr>) else Return code t))"

text \<open>The success rate of a test with statistics, which all have one, as text.\<close>

definition rate_text :: "statistic option \<Rightarrow> string" where
  "rate_text st =
     (case Option.bind st success_rate of
        None \<Rightarrow> []
      | Some x \<Rightarrow> '' ('' @ fixed1 (x * 100) @ ''% success rate)'')"

text \<open>The verdict on a test; \<open>rate\<close> is the text of its success rate.\<close>

definition verdict ::
  "runner_env \<Rightarrow> string \<Rightarrow> (string \<times> string list) list \<Rightarrow> string list \<Rightarrow> bool \<Rightarrow> tally \<Rightarrow>
   test_result \<Rightarrow> flow run" where
  "verdict E rate original_lvs all_vm_names keep_going t r =
     (if timed_out r then
        seqA (put_line (RED @ ''TIMEOUT'' @ NORMAL @ rate))
             (failed E original_lvs all_vm_names keep_going (exit_code r) t)
      else if exit_code r = 0 then
        seqA (put_line (GREEN @ ''OKAY'' @ NORMAL @ rate))
             (ret (Continue (t\<lparr>num_successful := Suc (num_successful t)\<rparr>)))
      else
        seqA (put_line (RED @ ''FAILED'' @ NORMAL @ rate))
             (failed E original_lvs all_vm_names keep_going (exit_code r) t))"

definition run_one ::
  "runner_env \<Rightarrow> (string \<times> statistic) list \<Rightarrow> (string \<times> string list) list \<Rightarrow> string list \<Rightarrow> string list \<Rightarrow> bool \<Rightarrow>
   nat \<Rightarrow> string list \<Rightarrow> tally \<Rightarrow> string \<Rightarrow> flow run" where
  "run_one E statistics original_lvs all_vm_names exclude keep_going num_skip vm_names t test =
     (if test \<in> set exclude then ret (Continue t)
      else if num_total t + num_skipped t < num_skip then
        seqA (put_line (CR @ lpad 2 (str_nat (num_total t + num_skipped t)) @ '' skipping '' @ WHITE @ test @ NORMAL))
             (ret (Continue (t\<lparr>num_skipped := Suc (num_skipped t)\<rparr>)))
      else
        seqA (cleanup_and_prepare_vms E vm_names)
       (seqA (put (CR @ lpad 2 (str_nat (num_total t + num_skipped t)) @ '' running '' @ WHITE @ test @ NORMAL @
                '' on '' @ join '', '' vm_names @ '': ''))
       (bindA (run_with_progress E test vm_names (dict_get (=) statistics test)) (\<lambda>r0.
        let r = r0\<lparr>result_nodes := length vm_names\<rparr> in
        verdict E (rate_text (dict_get (=) statistics test)) original_lvs all_vm_names keep_going
          (t\<lparr>num_total := Suc (num_total t), results := dict_put (=) (results t) test r\<rparr>) r))))"

text \<open>A \<open>for\<close> loop whose body may return.\<close>

primrec loop_flow :: "(tally \<Rightarrow> 'a \<Rightarrow> flow run) \<Rightarrow> 'a list \<Rightarrow> tally \<Rightarrow> flow run" where
  "loop_flow f [] t = ret (Continue t)"
| "loop_flow f (x # xs) t = bindA (f t x) (\<lambda>r.
     case r of Continue t' \<Rightarrow> loop_flow f xs t' | Return c t' \<Rightarrow> ret (Return c t'))"

text \<open>
  The test sets come from a generator: \<open>next\<close> runs it up to its first value, after the logical volumes
  were listed, and then gives its values one by one, up to an exception if it ends with one.
\<close>

definition run_tests ::
  "runner_env \<Rightarrow> (exn + test_set) list run \<Rightarrow> string list \<Rightarrow> string list \<Rightarrow> bool \<Rightarrow> nat \<Rightarrow>
   (string \<times> statistic) list \<Rightarrow> (int \<times> tally) run" where
  "run_tests E test_set_iter all_vm_names exclude keep_going num_skip statistics =
     bindA (mapA all_vm_names (\<lambda>vm. bindA (list_LVs E vm) (\<lambda>l. ret (vm, l)))) (\<lambda>lvs.
     let original_lvs = foldl (\<lambda>d (vm, l). dict_put (=) d vm l) [] lvs in
     bindA test_set_iter (\<lambda>sets.
     bindA (loop_flow (\<lambda>t item. bindA (liftA item) (\<lambda>s.
              if length all_vm_names < ts_vms s then ret (Continue t)
              else loop_flow (run_one E statistics original_lvs all_vm_names exclude keep_going num_skip
                     (take (ts_vms s) all_vm_names)) (ts_tests s) t)) sets
            \<lparr>results = [], global_exit_code = 0, num_successful = 0, num_total = 0, num_skipped = 0\<rparr>) (\<lambda>f.
     ret (case f of Continue t \<Rightarrow> (global_exit_code t, t) | Return c t \<Rightarrow> (c, t)))))"

section \<open>Statistics\<close>

definition count_success :: "(string \<times> nat \<times> nat) list \<Rightarrow> string \<Rightarrow> bool \<Rightarrow> (string \<times> nat \<times> nat) list" where
  "count_success d name ok =
     dict_put (=) d name
       (case dict_get (=) d name of
          None \<Rightarrow> (if ok then 1 else 0, 1)
        | Some (s, c) \<Rightarrow> (if ok then Suc s else s, Suc c))"

definition count_time :: "(string \<times> rat \<times> nat) list \<Rightarrow> string \<Rightarrow> rat \<Rightarrow> (string \<times> rat \<times> nat) list" where
  "count_time d name x =
     dict_put (=) d name
       (case dict_get (=) d name of None \<Rightarrow> (x, 1) | Some (s, c) \<Rightarrow> (s + x, Suc c))"

definition stat_step ::
  "(string \<times> rat \<times> nat) list \<times> (string \<times> nat \<times> nat) list \<Rightarrow> string \<times> test_result \<Rightarrow>
   (string \<times> rat \<times> nat) list \<times> (string \<times> nat \<times> nat) list" where
  "stat_step = (\<lambda>(times, succ) (name, r).
     (if exit_code r = 0 then count_time times name (run_time r) else times,
      count_success succ name (exit_code r = 0)))"

definition empty_stat :: statistic where
  "empty_stat = \<lparr>average_runtime = None, success_rate = None, stat_count = None\<rparr>"

definition stat_update ::
  "(string \<times> statistic) list \<Rightarrow> string \<Rightarrow> (statistic \<Rightarrow> statistic) \<Rightarrow> (string \<times> statistic) list" where
  "stat_update d name f =
     dict_put (=) d name (f (case dict_get (=) d name of None \<Rightarrow> empty_stat | Some x \<Rightarrow> x))"

definition find_statistics ::
  "run_results list \<Rightarrow> (string \<times> statistic) list \<Rightarrow> (string \<times> statistic) list" where
  "find_statistics result_db statistics =
     (let (times, succ) = foldl stat_step ([], []) (concat result_db);
          s1 = foldl (\<lambda>d (name, t, c). stat_update d name
                 (\<lambda>x. x\<lparr>average_runtime := Some (t / of_nat c)\<rparr>)) statistics times
      in foldl (\<lambda>d (name, k, c). stat_update d name
           (\<lambda>x. x\<lparr>success_rate := Some (of_nat k / of_nat c), stat_count := Some c\<rparr>)) s1 succ)"

text \<open>\<open>sorted(statistics.items(), key=lambda x: (success_rate, average_runtime), reverse=True)\<close>:
  comparing two keys fails when the rates are equal and one of the averages is missing.\<close>

definition stat_comparable :: "statistic \<Rightarrow> statistic \<Rightarrow> bool" where
  "stat_comparable x y \<longleftrightarrow> success_rate x \<noteq> success_rate y \<or>
     (average_runtime x = None \<longleftrightarrow> average_runtime y = None)"

section \<open>What the statistics say\<close>

text \<open>The results of one test over all runs.\<close>

definition runs_of :: "string \<Rightarrow> (string \<times> test_result) list \<Rightarrow> test_result list" where
  "runs_of name rs = map snd (filter (\<lambda>x. fst x = name) rs)"

definition ok_runs :: "string \<Rightarrow> (string \<times> test_result) list \<Rightarrow> test_result list" where
  "ok_runs name rs = filter (\<lambda>r. exit_code r = 0) (runs_of name rs)"

lemma runs_snoc [simp]:
  "runs_of name (rs @ [(m, r)]) = runs_of name rs @ (if m = name then [r] else [])"
  "ok_runs name (rs @ [(m, r)]) = ok_runs name rs @ (if m = name \<and> exit_code r = 0 then [r] else [])"
  by (simp_all add: runs_of_def ok_runs_def)

lemma ok_runs_Nil: "runs_of name rs = [] \<Longrightarrow> ok_runs name rs = []"
  by (simp add: ok_runs_def)

lemma stat_step_eq:
  "stat_step (T, S) (m, r) = (if exit_code r = 0 then count_time T m (run_time r) else T,
     count_success S m (exit_code r = 0))"
  by (simp add: stat_step_def)

lemma stat_fold:
  "dict_get (=) (fst (foldl stat_step ([], []) rs)) name =
     (if ok_runs name rs = [] then None
      else Some (sum_list (map run_time (ok_runs name rs)), length (ok_runs name rs))) \<and>
   dict_get (=) (snd (foldl stat_step ([], []) rs)) name =
     (if runs_of name rs = [] then None
      else Some (length (ok_runs name rs), length (runs_of name rs)))"
proof (induction rs arbitrary: name rule: rev_induct)
  case Nil
  then show ?case by (simp add: ok_runs_def runs_of_def)
next
  case (snoc x rs)
  obtain m r where x: "x = (m, r)" by (cases x)
  obtain T S where TS: "foldl stat_step ([], []) rs = (T, S)" by (cases "foldl stat_step ([], []) rs")
  note ih = snoc [unfolded TS fst_conv snd_conv]
  show ?case
    using ok_runs_Nil [of m rs]
    by (auto simp: x TS stat_step_eq count_time_def count_success_def dict_get_put
        conjunct1 [OF ih] conjunct2 [OF ih])
qed

lemma stat_fold_distinct:
  "distinct (map fst (fst (foldl stat_step ([], []) rs))) \<and> distinct (map fst (snd (foldl stat_step ([], []) rs)))"
  by (induction rs rule: rev_induct)
    (auto simp: stat_step_def split_beta count_time_def count_success_def intro: fst_dict_put)

lemma stat_update_fold:
  assumes "distinct (map fst vs)"
  shows "dict_get (=) (foldl (\<lambda>d (name, v). stat_update d name (f v)) d vs) name =
    (case dict_get (=) vs name of
       None \<Rightarrow> dict_get (=) d name
     | Some v \<Rightarrow> Some (f v (case dict_get (=) d name of None \<Rightarrow> empty_stat | Some x \<Rightarrow> x)))"
  using assms
proof (induction vs arbitrary: d)
  case (Cons x vs)
  obtain m v where x: "x = (m, v)" by (cases x)
  have "m = name \<Longrightarrow> dict_get (=) vs name = None" using Cons.prems x by (auto simp: dict_get_eq_None)
  with Cons show ?case by (auto simp: x stat_update_def dict_get_put split: option.splits)
qed simp

lemma find_statistics_get:
  "dict_get (=) (find_statistics db []) name =
     (let all = runs_of name (concat db); ok = ok_runs name (concat db) in
      if all = [] then None
      else Some \<lparr>average_runtime =
                   (if ok = [] then None else Some (sum_list (map run_time ok) / of_nat (length ok))),
                 success_rate = Some (of_nat (length ok) / of_nat (length all)),
                 stat_count = Some (length all)\<rparr>)"
proof -
  define T where "T = fst (foldl stat_step ([], []) (concat db))"
  define S where "S = snd (foldl stat_step ([], []) (concat db))"
  have d: "distinct (map fst T)" "distinct (map fst S)"
    using stat_fold_distinct [of "concat db"] by (simp_all add: T_def S_def)
  have split: "(\<lambda>d (name, t, c). stat_update d name (\<lambda>x. x\<lparr>average_runtime := Some (t / of_nat c)\<rparr>)) =
      (\<lambda>d (name, v). stat_update d name (\<lambda>x. x\<lparr>average_runtime := Some (fst v / of_nat (snd v))\<rparr>))"
    "(\<lambda>d (name, k, c). stat_update d name
           (\<lambda>x. x\<lparr>success_rate := Some (of_nat k / of_nat c), stat_count := Some c\<rparr>)) =
      (\<lambda>d (name, v). stat_update d name
           (\<lambda>x. x\<lparr>success_rate := Some (of_nat (fst v) / of_nat (snd v)), stat_count := Some (snd v)\<rparr>))"
    by (auto simp: fun_eq_iff)
  have "find_statistics db [] =
      foldl (\<lambda>d (name, v). stat_update d name
           (\<lambda>x. x\<lparr>success_rate := Some (of_nat (fst v) / of_nat (snd v)), stat_count := Some (snd v)\<rparr>))
        (foldl (\<lambda>d (name, v). stat_update d name (\<lambda>x. x\<lparr>average_runtime := Some (fst v / of_nat (snd v))\<rparr>)) [] T) S"
    by (simp add: find_statistics_def T_def S_def split_beta Let_def flip: split)
  moreover note ok_runs_Nil [of name "concat db"]
  moreover note stat_fold [where rs = "concat db" and name = name, folded T_def S_def]
  ultimately show ?thesis
    by (simp add: stat_update_fold [OF d(1)] stat_update_fold [OF d(2)] empty_stat_def Let_def)
qed

text \<open>
  C31: The statistics of a test over all recorded runs: the success rate is the fraction of its
  runs that ended with exit code 0, the count is the number of its runs, and the average
  run time is the mean over the successful ones, which is missing exactly when there were none.
  A test without a recorded run has no entry.
\<close>
theorem find_statistics_spec:
  "dict_get (=) (find_statistics db []) name =
     (let all = runs_of name (concat db); ok = ok_runs name (concat db) in
      if all = [] then None
      else Some \<lparr>average_runtime =
                   (if ok = [] then None else Some (sum_list (map run_time ok) / of_nat (length ok))),
                 success_rate = Some (of_nat (length ok) / of_nat (length all)),
                 stat_count = Some (length all)\<rparr>)"
  by (rule find_statistics_get)

text \<open>
  The sort key of \<open>analyze\<close>, success rate and then average run time, compares two tests of equal rate
  only where both have an average or neither has one.
\<close>

lemma statistics_comparable:
  assumes "dict_get (=) (find_statistics db []) a = Some x"
    and "dict_get (=) (find_statistics db []) b = Some y"
  shows "stat_comparable x y"
proof -
  have "average_runtime z = None \<longleftrightarrow> success_rate z = Some 0"
    if "dict_get (=) (find_statistics db []) n = Some z" for n z
    using that by (auto simp: find_statistics_get Let_def ok_runs_Nil split: if_splits)
  from this [OF assms(1)] this [OF assms(2)] show ?thesis by (auto simp: stat_comparable_def)
qed

section \<open>What a run reports\<close>

text \<open>
  Between two tests: the exit code is 0 or 1, and 0 exactly when every test so far succeeded.
  When the function returns early, some test did not succeed.
\<close>

fun tally_ok :: "flow \<Rightarrow> bool" where
  "tally_ok (Continue t) \<longleftrightarrow> num_successful t \<le> num_total t \<and>
     (global_exit_code t = 0 \<longleftrightarrow> num_successful t = num_total t)"
| "tally_ok (Return c t) \<longleftrightarrow> num_successful t < num_total t \<and> c \<noteq> 0"

lemma loop_flow_inv:
  assumes "\<And>t x w r w'. P (Continue t) \<Longrightarrow> f t x w = (Inr r, w') \<Longrightarrow> P r"
  shows "P (Continue t) \<Longrightarrow> loop_flow f xs t w = (Inr r, w') \<Longrightarrow> P r"
proof (induction xs arbitrary: t w)
  case (Cons x xs)
  then obtain r1 w1 where 1: "f t x w = (Inr r1, w1)"
    and 2: "(case r1 of Continue t' \<Rightarrow> loop_flow f xs t' | Return c t' \<Rightarrow> ret (Return c t')) w1 = (Inr r, w')"
    by (auto elim!: bind_InrE)
  have "P r1" using assms [OF Cons.prems(1) 1] .
  then show ?case using 2 Cons.IH by (cases r1) auto
qed auto

text \<open>A property of the tally that every test keeps holds at the end of a run.\<close>

lemma run_tests_inv:
  assumes step: "\<And>lvs names t test w r w'. P (Continue t) \<Longrightarrow>
      run_one E statistics lvs vms ex kg sk names t test w = (Inr r, w') \<Longrightarrow> P r"
    and start: "P (Continue \<lparr>results = [], global_exit_code = 0, num_successful = 0, num_total = 0, num_skipped = 0\<rparr>)"
    and run: "run_tests E sets vms ex kg sk statistics w = (Inr (code, t), w')"
  shows "P (Continue t) \<and> code = global_exit_code t \<or> P (Return code t)"
proof -
  let ?t0 = "\<lparr>results = [], global_exit_code = 0, num_successful = 0, num_total = 0, num_skipped = 0\<rparr>"
  let ?body = "\<lambda>lvs t item. bindA (liftA item) (\<lambda>s :: test_set. if length vms < ts_vms s then ret (Continue t)
        else loop_flow (run_one E statistics lvs vms ex kg sk (take (ts_vms s) vms)) (ts_tests s) t)"
  obtain lvs w1 where "bindA sets (\<lambda>items. bindA (loop_flow (?body lvs) items ?t0) (\<lambda>f. ret (case f of
      Continue t \<Rightarrow> (global_exit_code t, t) | Return c t \<Rightarrow> (c, t)))) w1 = (Inr (code, t), w')"
    using run unfolding run_tests_def Let_def by (rule bind_InrE)
  then obtain items f w2 w3 where l: "loop_flow (?body lvs) items ?t0 w2 = (Inr f, w3)"
    and f: "(case f of Continue t \<Rightarrow> (global_exit_code t, t) | Return c t \<Rightarrow> (c, t)) = (code, t)"
    by (elim bind_InrE) auto
  have "P r" if "P (Continue t)" and "?body lvs t item w = (Inr r, w')" for t item w r w'
    using that(2) loop_flow_inv [where P = P, OF step that(1)] that(1)
    by (auto elim!: bind_InrE split: if_splits)
  then have "P f" using loop_flow_inv [where P = P, OF _ start l] by blast
  with f show ?thesis by (cases f) auto
qed

definition killed_fails :: "runner_env \<Rightarrow> bool" where
  "killed_fails E \<longleftrightarrow> (\<forall>es t vms p. run_test E es t vms = Inr p \<longrightarrow> hit_timeout p \<longrightarrow> returncode p \<noteq> 0)"

lemma run_with_progress_result:
  assumes "run_with_progress E test names st w = (Inr r, w')"
  obtains p where "run_test E (events w) test names = Inr p" "exit_code r = returncode p" "timed_out r = hit_timeout p"
    "run_time r = ended p - started p"
  using assms unfolding run_with_progress_def
  by (auto elim!: bind_InrE seq_InrE)

lemma verdict_ok:
  assumes "timed_out r \<Longrightarrow> exit_code r \<noteq> 0" and "num_total t = Suc k" and "num_successful t \<le> k"
    and "global_exit_code t = 0 \<longleftrightarrow> num_successful t = k"
    and "verdict E rate lvs vms kg t r w = (Inr f, w')"
  shows "tally_ok f"
  using assms
  by (auto simp: verdict_def failed_def put_line_def put_def elim!: seq_InrE split: if_splits)

lemma run_one_cases [consumes 1, case_names passed ran]:
  assumes "run_one E sts lvs vms ex kg sk names t test w = (Inr r, w')"
  obtains k where "r = Continue (t\<lparr>num_skipped := k\<rparr>)"
  | r0 w1 w2 where "run_with_progress E test names (dict_get (=) sts test) w1 = (Inr r0, w2)"
    "verdict E (rate_text (dict_get (=) sts test)) lvs vms kg (t\<lparr>num_total := Suc (num_total t),
       results := dict_put (=) (results t) test (r0\<lparr>result_nodes := length names\<rparr>)\<rparr>)
       (r0\<lparr>result_nodes := length names\<rparr>) w2 = (Inr r, w')"
proof (cases "test \<in> set ex \<or> num_total t + num_skipped t < sk")
  case True
  then have "\<exists>k. r = Continue (t\<lparr>num_skipped := k\<rparr>)"
    using assms by (auto simp: run_one_def put_line_def put_def split: if_splits intro: exI [of _ "num_skipped t"])
  with that(1) show ?thesis by blast
next
  case False
  with assms that(2) show ?thesis
    by (auto simp: run_one_def Let_def elim!: seq_InrE bind_InrE split: if_splits)
qed

lemma killed_result:
  assumes "killed_fails E" and "run_with_progress E test names st w = (Inr r, w')" and "timed_out r"
  shows "exit_code r \<noteq> 0"
  using assms(2) by (rule run_with_progress_result) (use assms(1,3) in \<open>auto simp: killed_fails_def\<close>)

lemma run_one_ok:
  assumes "killed_fails E" and "tally_ok (Continue t)"
    and "run_one E sts lvs vms ex kg sk names t test w = (Inr r, w')"
  shows "tally_ok r"
  using assms(3)
proof (cases rule: run_one_cases)
  case (ran r0 w1 w2)
  then show ?thesis
    using assms(2) killed_result [OF assms(1) ran(1)] by (elim verdict_ok [rotated 4]) auto
qed (use assms(2) in auto)


definition sample_runner :: runner_env where
  "sample_runner = \<lparr>remote = (\<lambda>_ _ _. Inr \<lparr>pr_code = 0, pr_out = [], pr_err = []\<rparr>),
     run_test = (\<lambda>_ t _. Inr \<lparr>started = 0, line_times = [], ended = 1,
       returncode = (if t = ''bad'' then 1 else 0), hit_timeout = False\<rparr>),
     report = (\<lambda>_. \<lparr>pr_code = 0, pr_out = ''min_nodes=2'' @ NL @ ''max_nodes=3'' @ NL, pr_err = []\<rparr>)\<rparr>"


section \<open>Placing tests\<close>

text \<open>The number of VMs a test gets, if it can run at all.\<close>

definition placed :: "runner_env \<Rightarrow> nat \<Rightarrow> string \<Rightarrow> nat option" where
  "placed E n test =
     (case node_limits (report E test) of
        Inl _ \<Rightarrow> None
      | Inr (lo, hi) \<Rightarrow> if lo \<le> n then Some (min n hi) else None)"

definition sets_inv :: "runner_env \<Rightarrow> nat \<Rightarrow> string list \<Rightarrow> (nat \<times> string list) list \<Rightarrow> bool" where
  "sets_inv E n ts d \<longleftrightarrow> distinct (map fst d) \<and>
     (\<forall>k. dict_get (=) d k =
        (let us = filter (\<lambda>t. placed E n t = Some k) ts in if us = [] then None else Some us))"

lemma place_test_inv:
  assumes "sets_inv E n ts d" and "place_test E n d test w = (Inr d', w')"
  shows "sets_inv E n (ts @ [test]) d'"
proof -
  obtain lo hi where l: "node_limits (report E test) = Inr (lo, hi)"
    using assms(2) by (auto simp: place_test_def elim!: bind_InrE)
  then have "d' = (if lo \<le> n then sets_append d (min n hi) test else d)"
    using assms(2) by (auto simp: place_test_def put_line_def put_def lift_Inr split: if_splits)
  with assms(1) l show ?thesis
    by (auto simp: sets_inv_def placed_def sets_append_def dict_get_put Let_def intro: fst_dict_put)
qed

lemma place_tests_inv:
  "sets_inv E n ts d \<Longrightarrow> foldA us (place_test E n) d w = (Inr d', w') \<Longrightarrow> sets_inv E n (ts @ us) d'"
proof (induction us arbitrary: ts d w)
  case (Cons u us)
  then obtain d1 w1 where "place_test E n d u w = (Inr d1, w1)"
    "foldA us (place_test E n) d1 w1 = (Inr d', w')" by (auto elim!: bind_InrE)
  with Cons.IH [OF place_test_inv [OF Cons.prems(1)], of u w d1 w1 w1] show ?case by simp
qed simp

text \<open>
  C28: The generated test sets have different numbers of VMs, and the set for \<open>k\<close> VMs holds, in the
  order given and none twice unless given twice, exactly the tests that can run with the VMs
  available and use \<open>k\<close> of them: the smaller of what there is and the test's maximum.
\<close>
theorem generate_test_set_spec:
  assumes "generate_test_set E tests n w = (Inr sets, w')"
  shows "distinct (map ts_vms sets) \<and>
    (\<forall>s \<in> set sets. ts_tests s = filter (\<lambda>t. placed E n t = Some (ts_vms s)) tests) \<and>
    (\<forall>t \<in> set tests. \<forall>k. placed E n t = Some k \<longrightarrow> (\<exists>s \<in> set sets. ts_vms s = k \<and> t \<in> set (ts_tests s)))"
proof -
  obtain d w1 where d: "foldA tests (place_test E n) [] w = (Inr d, w1)"
    and sets: "sets = map (\<lambda>(n, ts). \<lparr>ts_vms = n, ts_tests = ts\<rparr>) d"
    using assms by (auto simp: generate_test_set_def elim!: bind_InrE)
  have inv: "sets_inv E n tests d"
    using place_tests_inv [OF _ d, of "[]"] by (simp add: sets_inv_def)
  have mem: "(k, ts) \<in> set d \<longleftrightarrow> ts \<noteq> [] \<and> ts = filter (\<lambda>t. placed E n t = Some k) tests" for k ts
    using inv dict_get_mem [of d k ts] by (auto simp: sets_inv_def Let_def)
  have "map ts_vms sets = map fst d" by (auto simp: sets)
  with inv have "distinct (map ts_vms sets)" by (simp add: sets_inv_def)
  moreover have "ts_tests s = filter (\<lambda>t. placed E n t = Some (ts_vms s)) tests" if "s \<in> set sets" for s
    using that mem by (auto simp: sets)
  moreover have "\<exists>s \<in> set sets. ts_vms s = k \<and> t \<in> set (ts_tests s)"
    if "t \<in> set tests" and "placed E n t = Some k" for t k
  proof -
    have "(k, filter (\<lambda>t. placed E n t = Some k) tests) \<in> set d"
      using that by (subst mem) (auto simp: filter_empty_conv)
    then show ?thesis using that by (auto simp: sets intro!: bexI [rotated])
  qed
  ultimately show ?thesis by blast
qed

lemma sample_limits: "node_limits (report sample_runner t) = Inr (2, 3)"
proof -
  have "node_limits \<lparr>pr_code = 0, pr_out = ''min_nodes=2'' @ NL @ ''max_nodes=3'' @ NL, pr_err = []\<rparr> = Inr (2, 3)"
    by code_simp
  then show ?thesis by (simp add: sample_runner_def)
qed

theorem generate_test_set_spec_witness:
  "\<exists>sets w'. generate_test_set sample_runner [''a'', ''b''] 4 \<lparr>events = [], stdout = []\<rparr> = (Inr sets, w') \<and>
     (\<exists>s \<in> set sets. ts_vms s = 3 \<and> ''b'' \<in> set (ts_tests s))"
proof -
  obtain sets w' where g: "generate_test_set sample_runner [''a'', ''b''] 4 \<lparr>events = [], stdout = []\<rparr> = (Inr sets, w')"
    by (simp add: generate_test_set_def place_test_def sample_limits lift_Inr bindA_def seqA_def)
  have "placed sample_runner 4 ''b'' = Some 3" by (simp add: placed_def sample_limits)
  with generate_test_set_spec [OF g] g show ?thesis by fastforce
qed

section \<open>Taking processes down\<close>

definition kill_attempt :: "string \<Rightarrow> string \<Rightarrow> proc_event list" where
  "kill_attempt vm pid = [Remote vm (''kill -9 '' @ pid), Remote vm (''test -d /proc/'' @ pid)]"

lemma kill_loop_step:
  assumes "\<And>es c. \<exists>r. remote E es vm c = Inr r"
  shows "\<exists>r w1 w2. remote E (butlast (events w1)) vm (''test -d /proc/'' @ pid) = Inr r \<and>
      events w1 = events w @ kill_attempt vm pid \<and> events w2 = events w1 \<and>
      kill_loop E vm pid (Suc n) w = (if pr_code r \<noteq> 0 then (Inr (), w1) else kill_loop E vm pid n w2)"
proof -
  obtain r1 where r1: "remote E (events w) vm (''kill -9 '' @ pid) = Inr r1" using assms by blast
  obtain r2 where r2: "remote E (events w @ [Remote vm (''kill -9 '' @ pid)]) vm (''test -d /proc/'' @ pid) = Inr r2"
    using assms by blast
  let ?w1 = "w\<lparr>events := events w @ kill_attempt vm pid\<rparr>"
  let ?msg = "''  Process was not killed on attempt '' @ str_nat (3 - n) @ '', retrying'' @ NL"
  show ?thesis
    by (rule exI [of _ r2], rule exI [of _ ?w1], rule exI [of _ "?w1\<lparr>stdout := stdout w @ ?msg\<rparr>"])
      (use r1 r2 in \<open>simp add: ssh_def is_process_running_def bindA_def seqA_def put_line_def put_def butlast_append
        kill_attempt_def\<close>)
qed

lemma kill_loop_attempts:
  assumes "\<And>es c. \<exists>r. remote E es vm c = Inr r"
  shows "\<exists>res w' k. kill_loop E vm pid (Suc n) w = (res, w') \<and> 0 < k \<and> k \<le> Suc n \<and>
      events w' = events w @ concat (replicate k (kill_attempt vm pid)) \<and> (res = Inr () \<or> k = Suc n) \<and>
      (\<exists>r. remote E (butlast (events w')) vm (''test -d /proc/'' @ pid) = Inr r \<and> (res = Inr () \<longleftrightarrow> pr_code r \<noteq> 0))"
proof (induction n arbitrary: w)
  case 0
  obtain r w1 w2 where "remote E (butlast (events w1)) vm (''test -d /proc/'' @ pid) = Inr r"
    "events w1 = events w @ kill_attempt vm pid" "events w2 = events w1"
    "kill_loop E vm pid (Suc 0) w = (if pr_code r \<noteq> 0 then (Inr (), w1) else kill_loop E vm pid 0 w2)"
    using kill_loop_step [OF assms, where w = w and pid = pid and n = 0] by blast
  then show ?case by (auto intro!: exI [of _ 1])
next
  case (Suc n)
  obtain r w1 w2 where st: "remote E (butlast (events w1)) vm (''test -d /proc/'' @ pid) = Inr r"
    "events w1 = events w @ kill_attempt vm pid" "events w2 = events w1"
    "kill_loop E vm pid (Suc (Suc n)) w = (if pr_code r \<noteq> 0 then (Inr (), w1) else kill_loop E vm pid (Suc n) w2)"
    using kill_loop_step [OF assms, where w = w and pid = pid and n = "Suc n"] by blast
  show ?case
  proof (cases "pr_code r = 0")
    case False
    with st show ?thesis by (intro exI [of _ "Inr ()"] exI [of _ w1] exI [of _ 1]) auto
  next
    case True
    obtain res w' k where ih: "kill_loop E vm pid (Suc n) w2 = (res, w')" "0 < k" "k \<le> Suc n"
      "events w' = events w2 @ concat (replicate k (kill_attempt vm pid))" "res = Inr () \<or> k = Suc n"
      "\<exists>r. remote E (butlast (events w')) vm (''test -d /proc/'' @ pid) = Inr r \<and> (res = Inr () \<longleftrightarrow> pr_code r \<noteq> 0)"
      using Suc [where w = w2] by blast
    with True st show ?thesis
      by (intro exI [of _ res] exI [of _ w'] exI [of _ "Suc k"]) auto
  qed
qed

text \<open>
  \<open>kill_process\<close> always ends. When every command can be sent, it sends at most three kill
  signals, each followed by a look at the process; it returns only after a look that found the
  process gone, and fails only after three that did not.
\<close>
theorem kill_process_attempts:
  assumes "\<And>es c. \<exists>r. remote E es vm c = Inr r"
  shows "\<exists>res w' k. kill_process E vm pid w = (res, w') \<and> 0 < k \<and> k \<le> 3 \<and>
    events w' = events w @ concat (replicate k [Remote vm (''kill -9 '' @ pid), Remote vm (''test -d /proc/'' @ pid)]) \<and>
    (res = Inr () \<or> k = 3) \<and>
    (\<exists>r. remote E (butlast (events w')) vm (''test -d /proc/'' @ pid) = Inr r \<and> (res = Inr () \<longleftrightarrow> pr_code r \<noteq> 0))"
  using kill_loop_attempts [OF assms, where pid = pid and n = 2 and w = w]
  by (simp add: kill_process_def kill_attempt_def numeral_3_eq_3 numeral_2_eq_2)

theorem kill_process_attempts_witness:
  "\<exists>w'. kill_process (sample_runner\<lparr>remote := (\<lambda>es _ _. Inr \<lparr>pr_code = (if length es < 3 then 0 else 1),
     pr_out = [], pr_err = []\<rparr>)\<rparr>) ''vm'' ''17'' \<lparr>events = [], stdout = []\<rparr> = (Inr (), w') \<and> length (events w') \<le> 6"
proof -
  let ?E = "sample_runner\<lparr>remote := (\<lambda>es _ _. Inr \<lparr>pr_code = (if length es < 3 then 0 else 1),
     pr_out = [], pr_err = []\<rparr>)\<rparr>"
  have "\<exists>r. remote ?E es ''vm'' c = Inr r" for es c by simp
  from kill_process_attempts [OF this, of "''17''" "\<lparr>events = [], stdout = []\<rparr>"]
  obtain res w' k where a: "kill_process ?E ''vm'' ''17'' \<lparr>events = [], stdout = []\<rparr> = (res, w')" "k \<le> 3"
    "events w' = events (\<lparr>events = [], stdout = []\<rparr> :: runner) @ concat (replicate k
       [Remote ''vm'' (''kill -9 '' @ ''17''), Remote ''vm'' (''test -d /proc/'' @ ''17'')])"
    "res = Inr () \<or> k = 3"
    "\<exists>r. remote ?E (butlast (events w')) ''vm'' (''test -d /proc/'' @ ''17'') = Inr r \<and> (res = Inr () \<longleftrightarrow> pr_code r \<noteq> 0)"
    by blast
  have len: "length (events w') = 2 * k" unfolding a(3) by (induction k) auto
  have "res = Inr ()" using a(4,5) len by auto
  with a(1,2) len show ?thesis by auto
qed

lemma cuts_sound: "(a, b) \<in> set (cuts p s) \<Longrightarrow> s = a @ p @ b"
proof (induction s arbitrary: a)
  case (Cons c s)
  show ?case
  proof (cases "\<exists>a'. a = c # a' \<and> (a', b) \<in> set (cuts p s)")
    case True
    with Cons.IH show ?thesis by auto
  next
    case False
    with Cons.prems have "startswith (c # s) p" "a = []" "b = drop (length p) (c # s)"
      by (auto split: if_splits)
    then show ?thesis by (metis append_Nil append_take_drop_id startswith_def)
  qed
qed (simp split: if_splits)

text \<open>
  C40: Whatever \<open>drbdsetup down\<close> printed, the device name that \<open>handle_down_error\<close> extracts starts
  with the letter \<open>b\<close> and a quote: it comes from the textual form of a \<open>bytes\<close> object, so the
  \<open>umount\<close> it leads to does not name the device.
\<close>
theorem holder_device_has_bytes_prefix:
  assumes "match_holder (bytes_repr err) = Some (dev, procname, pid)"
  shows "\<exists>rest. dev = ''b'' @ [QUOTE] @ rest \<or> dev = ''b'' @ [DQUOTE] @ rest"
proof -
  obtain r where r: "(dev, r) \<in> set (cuts '' opened by '' (bytes_repr err))"
  proof -
    let ?l = "[(dev, name, pid). (dev, r) \<leftarrow> cuts '' opened by '' (bytes_repr err),
        (name, q) \<leftarrow> cuts '' (pid '' r, Some pid \<leftarrow> [match_pid q]]"
    have "(dev, procname, pid) \<in> set ?l"
      using assms unfolding match_holder_def by (cases ?l) (simp_all only: list.case option.inject option.distinct list.set_intros)
    with that show ?thesis by auto
  qed
  obtain q body where q: "bytes_repr err = CHR ''b'' # q # body" "q = QUOTE \<or> q = DQUOTE"
    by (auto simp: bytes_repr_def Let_def)
  have "CHR ''b'' # q # body = dev @ '' opened by '' @ r" using cuts_sound [OF r] q(1) by simp
  with q(2) show ?thesis by (cases dev; cases "tl dev") auto
qed

theorem holder_device_has_bytes_prefix_witness:
  "\<exists>dev. match_holder (bytes_repr ''/dev/drbd1 opened by mount (pid 12) at 08:15'') = Some (dev, ''mount'', ''12'') \<and>
     take 1 dev = ''b''"
proof -
  have "map_option snd (match_holder (bytes_repr ''/dev/drbd1 opened by mount (pid 12) at 08:15'')) = Some (''mount'', ''12'')"
    by code_simp
  then obtain dev where d: "match_holder (bytes_repr ''/dev/drbd1 opened by mount (pid 12) at 08:15'') = Some (dev, ''mount'', ''12'')"
    by auto
  from holder_device_has_bytes_prefix [OF d] d show ?thesis by auto
qed

end
