(* ===== verification/Runner_Files.thy ===== *)
theory Runner_Files
  imports Test_Runner Json
begin

text \<open>
  What the runner reads and the rest of its commands: \<open>stream_read_json\<close>, \<open>kill_node\<close> and
  \<open>collect_software_versions\<close> of \<open>src/run.py\<close>, and \<open>read_vmshed_json\<close> of
  \<open>src/virter/vmshed_tests_generator.py\<close>. The text of a file stands for the file.
\<close>

section \<open>A file of JSON values\<close>

text \<open>
  \<open>json.load\<close> on the rest of the file: the value, or the place where data follows it, or another
  syntax error.
\<close>

datatype load_result = Loaded json | ExtraData nat | SyntaxError

definition json_load :: "string \<Rightarrow> load_result" where
  "json_load s =
     (case read_value (2 * length s + 2) (skip_ws s) of
        None \<Rightarrow> SyntaxError
      | Some (v, r) \<Rightarrow> if skip_ws r = [] then Loaded v else ExtraData (length s - length (skip_ws r)))"

text \<open>
  The generator: the values it yields and the exception it ends with, if any. The position is taken
  out of the message of the error; a message of another form has no groups.
\<close>

fun stream_values :: "nat \<Rightarrow> string \<Rightarrow> json list \<times> exn option" where
  "stream_values 0 s = ([], None)"
| "stream_values (Suc n) s =
     (case json_load s of
        Loaded v \<Rightarrow> ([v], None)
      | SyntaxError \<Rightarrow> ([], Some AttributeError)
      | ExtraData end_pos \<Rightarrow>
          (case json_loads (take end_pos s) of
             Inl e \<Rightarrow> ([], Some e)
           | Inr v \<Rightarrow> (case stream_values n (drop end_pos s) of (vs, e) \<Rightarrow> (v # vs, e))))"

definition stream_read_json :: "string \<Rightarrow> json list \<times> exn option" where
  "stream_read_json s = stream_values (Suc (length s)) s"

definition vmshed_prefix :: string where
  "vmshed_prefix = ''### vmshed: ''"

definition read_vmshed_json :: "string \<Rightarrow> exn + json option" where
  "read_vmshed_json s =
     (case filter (\<lambda>l. startswith l vmshed_prefix) (splitlines s) of
        [] \<Rightarrow> Inr None
      | l # _ \<Rightarrow> map_sum id Some (json_loads (drop (length vmshed_prefix) l)))"

section \<open>Commands\<close>

definition kill_node :: "runner_env \<Rightarrow> string \<Rightarrow> unit run" where
  "kill_node E vm =
     bindA (ssh E vm (''{ sleep 0.5; echo -e '' @ [DQUOTE] @ ''s'' @ NL @ ''b'' @ [DQUOTE] @
       '' > /proc/sysrq-trigger; } > /dev/null &'')) (\<lambda>r.
       if pr_code r \<noteq> 0 then raise (RuntimeError (pr_err r)) else ret ())"

text \<open>
  \<open>re.findall(r'([^\s]+)\nversion: ([\d\.-]+)[^G]*GIT-hash: ([0-9a-f]+)', s)\<close>: no class of the pattern
  can match what comes after it, but for \<open>[^G]\<close>, which stops at the first \<open>G\<close>; so a match at a place is
  found by taking as much as each class can.
\<close>

definition is_hex :: "char \<Rightarrow> bool" where
  "is_hex c \<longleftrightarrow> is_digit c \<or> c \<in> set ''abcdef''"

definition match_versions :: "string \<Rightarrow> ((string \<times> string \<times> string) \<times> string) option" where
  "match_versions s =
     (let kern = takeWhile (\<lambda>c. \<not> is_space c) s; r1 = drop (length kern) s; p1 = NL @ ''version: '';
          r2 = drop (length p1) r1; ver = takeWhile (\<lambda>c. is_digit c \<or> c = CHR ''.'' \<or> c = CHR ''-'') r2;
          r3 = dropWhile (\<lambda>c. c \<noteq> CHR ''G'') (drop (length ver) r2); p3 = ''GIT-hash: '';
          r4 = drop (length p3) r3; git = takeWhile is_hex r4 in
      if kern \<noteq> [] \<and> startswith r1 p1 \<and> ver \<noteq> [] \<and> startswith r3 p3 \<and> git \<noteq> []
      then Some ((kern, ver, git), drop (length git) r4) else None)"

lemma match_versions_shorter: "match_versions s = Some (x, r) \<Longrightarrow> length r < length s"
proof -
  assume a: "match_versions s = Some (x, r)"
  define kern where "kern = takeWhile (\<lambda>c. \<not> is_space c) s"
  define u where "u = drop (length kern) s"
  have k: "kern \<noteq> []" using a by (auto simp: match_versions_def Let_def kern_def split: if_splits)
  obtain i j where "r = drop i (dropWhile (\<lambda>c. c \<noteq> CHR ''G'') (drop j u))"
    using a unfolding match_versions_def Let_def kern_def [symmetric] u_def [symmetric]
    by (auto split: if_splits)
  then have "length r \<le> length u"
    using length_dropWhile_le [of "\<lambda>c. c \<noteq> CHR ''G''" "drop j u"] by simp
  moreover have "length kern + length u = length s"
    by (simp add: u_def kern_def length_takeWhile_le)
  ultimately show "length r < length s" using k by (cases kern) auto
qed

function find_versions :: "string \<Rightarrow> (string \<times> string \<times> string) list" where
  "find_versions s =
     (case match_versions s of
        Some (x, r) \<Rightarrow> x # find_versions r
      | None \<Rightarrow> (case s of [] \<Rightarrow> [] | _ # t \<Rightarrow> find_versions t))"
  by auto
termination
  by (relation "measure length") (auto dest: match_versions_shorter)

definition collect_software_versions :: "runner_env \<Rightarrow> string list \<Rightarrow> (string \<times> string \<times> string) run" where
  "collect_software_versions E all_vm_names =
     bindA (liftA (list_item all_vm_names 0)) (\<lambda>vm.
     seqA (cleanup_and_prepare_vm E vm)
    (bindA (ssh_check E vm ''uname -r; cat /proc/drbd'') (\<lambda>p.
       case find_versions (pr_out p) of [x] \<Rightarrow> ret x | _ \<Rightarrow> raise ValueError)))"

declare find_versions.simps [simp del]

section \<open>Reading back a file of values\<close>

fun is_object :: "json \<Rightarrow> bool" where
  "is_object (JObj ms) = json_plain (JObj ms)"
| "is_object _ = False"

definition stream_text :: "json list \<Rightarrow> string" where
  "stream_text vs = concat (map (\<lambda>v. json_dumps v @ NL) vs)"

lemma read_object_any:
  assumes "is_object v" and "2 * length (json_dumps v) \<le> n"
  shows "read_value n (json_dumps v @ r) = Some (v, r)"
proof -
  obtain ms where v: "v = JObj ms" and pl: "json_plain (JObj ms)" using assms(1) by (cases v) auto
  then have "\<forall>(k, x) \<in> set ms. reads x \<and> json_plain x" "distinct (map fst ms)"
    by (fastforce simp: list_all_iff intro: read_dumps)+
  then show ?thesis using read_object assms(2) v by blast
qed

lemma object_plain: "is_object v \<Longrightarrow> json_plain v"
  by (cases v) auto

lemma skip_stream: "list_all is_object vs \<Longrightarrow> skip_ws (stream_text vs) = stream_text vs"
proof (cases vs)
  case (Cons v us)
  assume "list_all is_object vs"
  then have "starts_value (json_dumps v)" using Cons by (simp add: starts_dumps object_plain)
  then show ?thesis using Cons starts_value_skip [of "json_dumps v" "NL @ stream_text us"] by (simp add: stream_text_def)
qed (simp add: stream_text_def skip_ws_def)

lemma read_first:
  assumes "is_object v" and "2 * length (json_dumps v) \<le> n"
  shows "read_value n (skip_ws (json_dumps v @ r)) = Some (v, r)"
  using assms read_object_any starts_value_skip [OF starts_dumps [OF object_plain]] by simp

lemma loads_line: "is_object v \<Longrightarrow> json_loads (json_dumps v @ NL) = Inr v"
  using read_first [of v "2 * length (json_dumps v @ NL) + 2" NL] by (simp add: json_loads_def skip_ws_def)

lemma json_load_stream:
  assumes "is_object v" and "list_all is_object vs"
  shows "json_load (stream_text (v # vs)) =
    (if vs = [] then Loaded v else ExtraData (length (json_dumps v @ NL)))"
proof -
  let ?s = "json_dumps v @ NL @ stream_text vs"
  have s: "stream_text (v # vs) = ?s" by (simp add: stream_text_def)
  have rd: "read_value (2 * length ?s + 2) (skip_ws ?s) = Some (v, NL @ stream_text vs)"
    using assms(1) by (intro read_first) auto
  have nl: "skip_ws (NL @ stream_text vs) = stream_text vs"
    using skip_stream [OF assms(2)] by (simp add: skip_ws_def)
  have ne: "stream_text vs = [] \<longleftrightarrow> vs = []" by (cases vs) (simp_all add: stream_text_def)
  show ?thesis unfolding s json_load_def rd option.case prod.case nl ne by simp
qed

text \<open>
  C21: A file with one JSON object per line is read back as these objects, in order and without an
  error at the end, however many there are.
\<close>
theorem stream_json_roundtrip:
  assumes "vs \<noteq> []" and "list_all is_object vs"
  shows "stream_read_json (concat (map (\<lambda>v. json_dumps v @ NL) vs)) = (vs, None)"
proof -
  have "stream_values n (stream_text vs) = (vs, None)" if "length vs \<le> n" for n
    using assms that
  proof (induction vs arbitrary: n)
    case (Cons v vs)
    obtain m where n: "n = Suc m" using Cons.prems(3) by (cases n) auto
    let ?k = "length (json_dumps v @ NL)"
    have v: "is_object v" "list_all is_object vs" using Cons.prems(2) by simp_all
    have split: "take ?k (stream_text (v # vs)) = json_dumps v @ NL" "drop ?k (stream_text (v # vs)) = stream_text vs"
      by (simp_all add: stream_text_def)
    show ?case
    proof (cases "vs = []")
      case True
      then show ?thesis using n json_load_stream [OF v] by simp
    next
      case False
      have "stream_values m (stream_text vs) = (vs, None)" using Cons.IH False v(2) Cons.prems(3) n by simp
      then show ?thesis using False n json_load_stream [OF v] split loads_line [OF v(1)] by simp
    qed
  qed simp
  moreover have "length vs \<le> length (stream_text vs)"
    by (induction vs) (simp_all add: stream_text_def)
  ultimately have "stream_values (Suc (length (stream_text vs))) (stream_text vs) = (vs, None)"
    by (simp del: stream_values.simps)
  then show ?thesis unfolding stream_read_json_def stream_text_def .
qed

theorem stream_json_roundtrip_witness:
  "stream_read_json (json_dumps (JObj [(''vms'', JInt 3), (''tests'', JList [JStr ''add''])]) @ NL @
     json_dumps (JObj [(''vms'', JInt 4)]) @ NL) =
   ([JObj [(''vms'', JInt 3), (''tests'', JList [JStr ''add''])], JObj [(''vms'', JInt 4)]], None)"
  using stream_json_roundtrip [of "[JObj [(''vms'', JInt 3), (''tests'', JList [JStr ''add''])], JObj [(''vms'', JInt 4)]]"]
  by simp

end
