(* ===== verification/Runner_Main.thy ===== *)
theory Runner_Main
  imports Runner_Files "HOL-Library.Product_Lexorder" "HOL-Library.Option_ord"
begin

text \<open>
  The main program of \<open>src/run.py\<close>: \<open>analyze\<close>, \<open>main\<close> and the exit status of the script. The command
  line is given as the attributes that \<open>argparse\<close> sets, a file by its content; the file of results
  is given decoded, and writing it is an event. \<open>main\<close> registers \<open>sigint_handler\<close>, which saves the
  results of the iterations so far and exits; the runs of the model are those that are not
  interrupted.
\<close>

section \<open>The table of statistics\<close>

abbreviation YELLOW :: string where "YELLOW \<equiv> esc ''[33m''"
abbreviation GRAY_BACKGROUND :: string where "GRAY_BACKGROUND \<equiv> esc ''[40;1m''"

definition rpad :: "nat \<Rightarrow> string \<Rightarrow> string" where
  "rpad n s = s @ replicate (n - length s) (CHR '' '')"

text \<open>\<open>str(round(x, 2))\<close> of a number that is not negative: at least one digit after the point.\<close>

definition round2 :: "rat \<Rightarrow> string" where
  "round2 x =
     (let n = half_even (x * 100); c = n mod 100
      in str_nat (n div 100) @ ''.'' @
         (if c mod 10 = 0 then str_nat (c div 10) else str_nat (c div 10) @ str_nat (c mod 10)))"

text \<open>
  \<open>sorted\<close> with \<open>reverse=True\<close> keeps the order of equal items. Comparing keys may fail, see
  \<open>stat_comparable\<close>; which comparisons are made does not matter, because none fails on the
  statistics of a data base.
\<close>

definition sorted_stats :: "(string \<times> statistic) list \<Rightarrow> exn + (string \<times> statistic) list" where
  "sorted_stats statistics =
     (if \<forall>x \<in> set statistics. \<forall>y \<in> set statistics. stat_comparable (snd x) (snd y)
      then Inr (rev (sort_key (\<lambda>(_, s). (success_rate s, average_runtime s)) (rev statistics)))
      else Inl TypeError)"

definition stat_row :: "string \<Rightarrow> statistic \<Rightarrow> exn + string" where
  "stat_row name stats =
     (case (success_rate stats, stat_count stats) of
        (Some x, Some k) \<Rightarrow>
          (let n = half_even (x * 100 * 100);
               color = (if n = 0 then RED else if n = 10000 then GREEN else YELLOW);
               secs = (case average_runtime stats of
                         None \<Rightarrow> '' -----''
                       | Some av \<Rightarrow> if av = 0 then '' -----'' else round2 av)
           in Inr (rpad 29 name @ ''  '' @ lpad 5 (str_nat k) @ ''     '' @ color @ lpad 5 (round2 (x * 100)) @
                ''%'' @ NORMAL @ ''        '' @ lpad 6 secs @ ''s''))
      | _ \<Rightarrow> Inl TypeError)"

definition table_head :: string where
  "table_head = GRAY_BACKGROUND @ rpad 29 ''Test Name'' @ ''  '' @ lpad 5 ''Count'' @ ''   '' @ lpad 8 ''Success'' @
     ''   '' @ lpad 6 ''Avg. Runtime'' @ NORMAL"

definition analyze :: "db_entry list option \<Rightarrow> unit run" where
  "analyze result_file =
     (let result_db = (case result_file of None \<Rightarrow> [] | Some db \<Rightarrow> db) in
      bindA (liftA (sorted_stats (find_statistics (map db_results result_db) []))) (\<lambda>rows.
      seqA (put_line table_head)
           (forA rows (\<lambda>(name, stats). bindA (liftA (stat_row name stats)) put_line))))"

section \<open>Running the test suite\<close>

record main_args =
  vm_name :: "string list"
  test_set_file :: string
  arg_exclude :: "string list"
  arg_run :: "string list"
  arg_keep_going :: bool
  arg_analyze :: bool
  iterations :: int
  arg_skip :: int

text \<open>The defaults of the options.\<close>

definition default_args :: main_args where
  "default_args = \<lparr>vm_name = [], test_set_file = ''tests.drbd9.json'', arg_exclude = [], arg_run = [],
     arg_keep_going = False, arg_analyze = False, iterations = 1, arg_skip = 0\<rparr>"

text \<open>What the program finds outside: the two kinds of files, the wall clock as text, its usage text.\<close>

record main_env =
  result_file :: "db_entry list option"
  file_text :: "string \<Rightarrow> string option"
  date_time :: "proc_event list \<Rightarrow> string"
  usage_text :: string

text \<open>
  A value of the test set file as a test set. The file has objects with a number of VMs and a list of
  names; a value of another form counts as an error here as soon as the loop gets to it.
\<close>

fun json_names :: "json list \<Rightarrow> exn + string list" where
  "json_names [] = Inr []"
| "json_names (JStr s # js) = map_sum id (Cons s) (json_names js)"
| "json_names (_ # js) = Inl TypeError"

definition json_test_set :: "json \<Rightarrow> exn + test_set" where
  "json_test_set v =
     (case (json_get v ''vms'', json_get v ''tests'') of
        (Inr (JInt n), Inr (JList js)) \<Rightarrow>
          if n < 0 then Inl ValueError
          else map_sum id (\<lambda>ts. \<lparr>ts_vms = nat n, ts_tests = ts\<rparr>) (json_names js)
      | (Inl e, _) \<Rightarrow> Inl e
      | (_, Inl e) \<Rightarrow> Inl e
      | _ \<Rightarrow> Inl TypeError)"

definition file_test_sets :: "main_env \<Rightarrow> string \<Rightarrow> (exn + test_set) list run" where
  "file_test_sets M path =
     (case file_text M path of
        None \<Rightarrow> raise (OSError path)
      | Some s \<Rightarrow> (case stream_read_json s of (vs, e) \<Rightarrow>
          ret (map json_test_set vs @ (case e of None \<Rightarrow> [] | Some x \<Rightarrow> [Inl x]))))"

definition test_sets :: "runner_env \<Rightarrow> main_env \<Rightarrow> main_args \<Rightarrow> (exn + test_set) list run" where
  "test_sets E M args =
     (if arg_run args \<noteq> []
      then bindA (generate_test_set E (arg_run args) (length (vm_name args))) (\<lambda>sets. ret (map Inr sets))
      else file_test_sets M (test_set_file args))"

text \<open>
  The variables of the loop over the iterations; \<open>exit_code\<close> is not bound before the first one. A
  number of tests to skip below zero skips none.
\<close>

record main_state =
  last_exit_code :: "int option"
  total_successful :: nat
  total_ran :: nat
  result_db :: "db_entry list"

definition summary :: "nat \<Rightarrow> nat \<Rightarrow> string" where
  "summary n_total n_ok = WHITE @ str_nat n_total @ NORMAL @ '' tests ran, '' @ GREEN @ str_nat n_ok @
     '' successful'' @ NORMAL @ '', '' @ RED @ str_int (int n_total - int n_ok) @ '' failed'' @ NORMAL"

definition iteration ::
  "runner_env \<Rightarrow> main_env \<Rightarrow> main_args \<Rightarrow> string \<times> string \<times> string \<Rightarrow> nat \<Rightarrow> main_state \<Rightarrow> main_state run" where
  "iteration E M args versions i st =
     (case versions of (kern_ver, drbd_ver, drbd_git) \<Rightarrow>
      seqA (whenA (1 < iterations args) (put_line (''Starting iteration '' @ WHITE @ str_nat (i + 1) @ NORMAL @
              '' of '' @ WHITE @ str_int (iterations args) @ NORMAL)))
     (bindA (run_tests E (test_sets E M args) (vm_name args) (arg_exclude args) (arg_keep_going args)
              (nat (arg_skip args)) (find_statistics (map db_results (result_db st)) [])) (\<lambda>(code, t).
      seqA (whenA (1 < iterations args) (put_line (''Iteration '' @ WHITE @ str_nat (i + 1) @ NORMAL @ '': '' @
              summary (num_total t) (num_successful t))))
     (bindA (getA (\<lambda>w. date_time M (events w))) (\<lambda>now.
      ret (st\<lparr>last_exit_code := Some code, total_successful := total_successful st + num_successful t,
              total_ran := total_ran st + num_total t,
              result_db := result_db st @ [\<lparr>db_version = drbd_ver, db_git_hash = drbd_git, db_kernel = kern_ver,
                db_date_time = now, db_results = results t\<rparr>]\<rparr>))))))"

text \<open>The handler of the interrupt signal; \<open>db\<close> is what the variable holds at that moment.\<close>

definition sigint_handler :: "db_entry list \<Rightarrow> unit run" where
  "sigint_handler db = seqA (modA (\<lambda>w. w\<lparr>events := events w @ [Save db]\<rparr>)) (raise (SystemExit 0))"

text \<open>The result of \<open>main\<close> is an exit code, or \<open>None\<close> after \<open>analyze\<close>.\<close>

definition main :: "runner_env \<Rightarrow> main_env \<Rightarrow> main_args \<Rightarrow> int option run" where
  "main E M args =
     (if arg_analyze args then seqA (analyze (result_file M)) (ret None)
      else if vm_name args = [] then
        seqA (put (usage_text M))
       (seqA (put_line ''error: the following arguments are required: vm_name'') (raise (SystemExit 1)))
      else
        bindA (collect_software_versions E (vm_name args)) (\<lambda>versions.
        bindA (foldA [0..<nat (iterations args)] (\<lambda>st i. iteration E M args versions i st)
                 \<lparr>last_exit_code = None, total_successful = 0, total_ran = 0,
                  result_db = (case result_file M of None \<Rightarrow> [] | Some db \<Rightarrow> db)\<rparr>) (\<lambda>st.
        seqA (put_line (summary (total_ran st) (total_successful st)))
       (seqA (modA (\<lambda>w. w\<lparr>events := events w @ [Save (result_db st)]\<rparr>))
             (case last_exit_code st of None \<Rightarrow> raise UnboundLocalError | Some c \<Rightarrow> ret (Some c))))))"

text \<open>
  The exit status of the process: the last line of the script calls \<open>main()\<close> and does not use its
  result; an exception that is not caught gives 1.
\<close>

fun exit_status :: "exn + 'a \<Rightarrow> int" where
  "exit_status (Inr _) = 0"
| "exit_status (Inl (SystemExit n)) = n"
| "exit_status (Inl _) = 1"

definition run_script :: "runner_env \<Rightarrow> main_env \<Rightarrow> main_args \<Rightarrow> runner \<Rightarrow> int" where
  "run_script E M args w = exit_status (fst (main E M args w))"

section \<open>What the table shows\<close>

lemma find_statistics_distinct: "distinct (map fst (find_statistics db []))"
proof -
  have upd: "distinct (map fst d) \<Longrightarrow> distinct (map fst (foldl (\<lambda>d x. stat_update d (k x) (f x)) d xs))"
    for d :: "(string \<times> statistic) list" and xs :: "'x list" and k f
    by (induction xs arbitrary: d) (auto simp: stat_update_def intro: fst_dict_put)
  show ?thesis
    unfolding find_statistics_def Let_def split_beta by (intro upd) simp
qed

lemma find_statistics_mem:
  "(name, s) \<in> set (find_statistics db []) \<longleftrightarrow> dict_get (=) (find_statistics db []) name = Some s"
  using dict_get_mem [OF find_statistics_distinct] by metis

lemma stat_row_ok:
  assumes "(name, s) \<in> set (find_statistics db [])"
  obtains line where "stat_row name s = Inr line"
  using assms unfolding find_statistics_mem find_statistics_get
  by (auto simp: stat_row_def Let_def split: if_splits)

lemma sorted_stats_ok:
  fixes db :: "run_results list"
  defines "key \<equiv> \<lambda>(_ :: string, s). (success_rate s, average_runtime s)"
  obtains rows where "sorted_stats (find_statistics db []) = Inr rows"
    "set rows = set (find_statistics db [])" "distinct (map fst rows)" "sorted_wrt (\<lambda>a b. key b \<le> key a) rows"
proof
  let ?st = "find_statistics db []"
  have "stat_comparable (snd x) (snd y)" if "x \<in> set ?st" "y \<in> set ?st" for x y
    using statistics_comparable that find_statistics_mem by (metis prod.collapse)
  then show "sorted_stats ?st = Inr (rev (sort_key key (rev ?st)))"
    by (simp add: sorted_stats_def key_def)
  show "distinct (map fst (rev (sort_key key (rev ?st))))"
    using find_statistics_distinct [of db] by (simp add: distinct_map flip: rev_map)
  show "sorted_wrt (\<lambda>a b. key b \<le> key a) (rev (sort_key key (rev ?st)))"
    using sorted_sort_key [of key "rev ?st"] by (simp add: sorted_wrt_rev sorted_map)
qed simp

lemma put_line_run: "put_line s w = (Inr (), w\<lparr>stdout := stdout w @ s @ NL\<rparr>)"
  by (simp add: put_line_def put_def modA_def)

lemma print_rows:
  assumes "\<forall>x \<in> set rows. stat_row (fst x) (snd x) = Inr (line x)"
  shows "forA rows (\<lambda>(name, stats). bindA (liftA (stat_row name stats)) put_line) w =
    (Inr (), w\<lparr>stdout := stdout w @ concat (map (\<lambda>x. line x @ NL) rows)\<rparr>)"
  using assms by (induction rows arbitrary: w) (auto simp: split_beta bindA_def seqA_def lift_Inr ret_def put_line_run)


definition sample_results :: "db_entry list" where
  "sample_results =
     [\<lparr>db_version = ''9.2.1'', db_git_hash = ''ab'', db_kernel = ''6.1'', db_date_time = ''20240101-120000'', db_results =
        [(''a'', \<lparr>exit_code = 0, run_time = 3, timed_out = False, result_nodes = 2\<rparr>),
         (''b'', \<lparr>exit_code = 1, run_time = 5, timed_out = False, result_nodes = 3\<rparr>)]\<rparr>]"


section \<open>What a run of the program records\<close>

text \<open>While the exit code is still 0, every recorded result is a success.\<close>

fun results_ok :: "flow \<Rightarrow> bool" where
  "results_ok (Continue t) \<longleftrightarrow> (global_exit_code t = 0 \<longrightarrow> (\<forall>(n, r) \<in> set (results t). exit_code r = 0 \<and> \<not> timed_out r))"
| "results_ok (Return c t) \<longleftrightarrow> c \<noteq> 0"

lemma set_dict_put: "set (dict_put (=) d k v) \<subseteq> insert (k, v) (set d)"
  by (induction d) (auto split: if_splits)

lemma run_one_results:
  assumes "killed_fails E" and "results_ok (Continue t)"
    and "run_one E sts lvs vms ex kg sk names t test w = (Inr r, w')"
  shows "results_ok r"
  using assms(3)
proof (cases rule: run_one_cases)
  case (ran r0 w1 w2)
  have "timed_out r0 \<Longrightarrow> exit_code r0 \<noteq> 0" by (rule killed_result [OF assms(1) ran(1)])
  moreover have "\<forall>(n, r) \<in> set (dict_put (=) (results t) test (r0\<lparr>result_nodes := length names\<rparr>)).
      exit_code r = 0 \<and> \<not> timed_out r"
    if "\<forall>(n, r) \<in> set (results t). exit_code r = 0 \<and> \<not> timed_out r" "exit_code r0 = 0" "\<not> timed_out r0"
    using that set_dict_put [of "results t" test "r0\<lparr>result_nodes := length names\<rparr>"] by fastforce
  ultimately show ?thesis
    using assms(2) ran(2) by (auto simp: verdict_def failed_def put_line_def put_def elim!: seq_InrE split: if_splits)
qed (use assms(2) in auto)

abbreviation all_ok :: "run_results \<Rightarrow> bool" where
  "all_ok rs \<equiv> \<forall>(n, r) \<in> set rs. exit_code r = 0 \<and> \<not> timed_out r"

lemma iteration_result:
  assumes "killed_fails E" and "iteration E M args (kern, ver, git) i st w = (Inr st', w')"
  obtains c e where "last_exit_code st' = Some c" "result_db st' = result_db st @ [e]"
    "db_kernel e = kern" "db_version e = ver" "db_git_hash e = git" "c = 0 \<longrightarrow> all_ok (db_results e)"
proof -
  obtain c t w1 w2 now where run: "run_tests E (test_sets E M args) (vm_name args) (arg_exclude args) (arg_keep_going args)
      (nat (arg_skip args)) (find_statistics (map db_results (result_db st)) []) w1 = (Inr (c, t), w2)"
    and st': "last_exit_code st' = Some c" "result_db st' = result_db st @ [\<lparr>db_version = ver, db_git_hash = git, db_kernel = kern,
                db_date_time = now, db_results = results t\<rparr>]"
    using assms(2) unfolding iteration_def prod.case by (auto elim!: seq_InrE bind_InrE)
  have "results_ok (Continue t) \<and> c = global_exit_code t \<or> results_ok (Return c t)"
    by (rule run_tests_inv [OF run_one_results [OF assms(1)] _ run]) auto
  then have "c = 0 \<longrightarrow> all_ok (results t)" by auto
  with st' that show ?thesis by simp
qed

lemma iterations_result:
  assumes "killed_fails E"
    and "foldA is (\<lambda>st i. iteration E M args (kern, ver, git) i st) st w = (Inr st', w')"
  shows "\<exists>new. result_db st' = result_db st @ new \<and> length new = length is \<and>
    (\<forall>e \<in> set new. db_kernel e = kern \<and> db_version e = ver \<and> db_git_hash e = git) \<and>
    (if is = [] then st' = st
     else \<exists>c. last_exit_code st' = Some c \<and> (c = 0 \<longrightarrow> all_ok (db_results (last new))))"
  using assms(2)
proof (induction "is" arbitrary: st w)
  case (Cons i "is")
  obtain st1 w1 where 1: "iteration E M args (kern, ver, git) i st w = (Inr st1, w1)"
    and 2: "foldA is (\<lambda>st i. iteration E M args (kern, ver, git) i st) st1 w1 = (Inr st', w')"
    using Cons.prems unfolding foldA.simps by (rule bind_InrE)
  obtain c e where e: "last_exit_code st1 = Some c" "result_db st1 = result_db st @ [e]"
    "db_kernel e = kern" "db_version e = ver" "db_git_hash e = git" "c = 0 \<longrightarrow> all_ok (db_results e)"
    using iteration_result [OF assms(1) 1] .
  obtain new where new: "result_db st' = result_db st1 @ new" "length new = length is"
    "\<forall>e \<in> set new. db_kernel e = kern \<and> db_version e = ver \<and> db_git_hash e = git"
    "if is = [] then st' = st1 else \<exists>c. last_exit_code st' = Some c \<and> (c = 0 \<longrightarrow> all_ok (db_results (last new)))"
    using Cons.IH [OF 2] by blast
  show ?case
    by (rule exI [of _ "e # new"]) (use e new in \<open>auto split: if_splits\<close>)
qed simp


definition version_text :: string where
  "version_text = ''6.1.0'' @ NL @ ''version: 9.2.1 (api:2)'' @ NL @ ''GIT-hash: ab12 build'' @ NL"

lemma version_text_found: "find_versions version_text = [(''6.1.0'', ''9.2.1'', ''ab12'')]"
  by code_simp

definition talking_runner :: runner_env where
  "talking_runner = sample_runner\<lparr>remote := (\<lambda>_ _ _. Inr \<lparr>pr_code = 0, pr_out = version_text, pr_err = []\<rparr>)\<rparr>"

definition two_runs :: main_args where
  "two_runs = default_args\<lparr>vm_name := [''a'', ''b''], arg_run := [''good''], arg_keep_going := True, iterations := 2\<rparr>"

definition sample_files :: main_env where
  "sample_files = \<lparr>result_file = Some sample_results, file_text = (\<lambda>_. Some ''{}''), date_time = (\<lambda>_. ''20240102-120000''),
     usage_text = ''usage''\<rparr>"

lemma talking_env [simp]:
  "remote talking_runner es vm c = Inr \<lparr>pr_code = 0, pr_out = version_text, pr_err = []\<rparr>"
  "run_test talking_runner = run_test sample_runner" "report talking_runner = report sample_runner"
  by (simp_all add: talking_runner_def)

lemma talking_ssh [simp]:
  "ssh talking_runner vm c w =
     (Inr \<lparr>pr_code = 0, pr_out = version_text, pr_err = []\<rparr>, w\<lparr>events := events w @ [Remote vm c]\<rparr>)"
  by (simp add: ssh_def bindA_def seqA_def)

lemma talking_prepare [simp]:
  "try_down_all talking_runner vm w = (Inr (), w\<lparr>events := events w @ [Remote vm ''drbdsetup down all'']\<rparr>)"
  "\<exists>w'. cleanup_and_prepare_vm talking_runner vm w = (Inr (), w')"
  by (simp_all add: cleanup_and_prepare_vm_def start_prepare_def try_down_all_def drbdsetup_down_def ssh_check_def
      check_code_def bindA_def seqA_def tryA_def)

lemma talking_LVs [simp]:
  "list_LVs talking_runner vm w =
     (Inr (map strip (splitlines version_text)), w\<lparr>events := events w @ [Remote vm ''lvs --noheadings -o lv_path'']\<rparr>)"
  by (simp add: list_LVs_def ssh_check_def bindA_def)

lemma talking_sets:
  "\<exists>w'. test_sets talking_runner sample_files two_runs w = (Inr [Inr \<lparr>ts_vms = 2, ts_tests = [''good'']\<rparr>], w')"
  by (simp add: test_sets_def two_runs_def default_args_def generate_test_set_def place_test_def sample_limits sets_append_def
      lift_Inr bindA_def seqA_def)

lemma talking_one:
  "\<exists>t w'. run_one talking_runner sts lvs vms [] True 0 [''a'', ''b'']
       \<lparr>results = [], global_exit_code = 0, num_successful = 0, num_total = 0, num_skipped = 0\<rparr> ''good'' w =
     (Inr (Continue t), w') \<and> global_exit_code t = 0"
  by (simp add: run_one_def cleanup_and_prepare_vms_def start_prepare_def run_with_progress_def verdict_def
      sample_runner_def put_def put_line_def Let_def check_code_def bindA_def seqA_def)

lemma talking_run_tests:
  "\<exists>t w'. run_tests talking_runner (test_sets talking_runner sample_files two_runs) [''a'', ''b''] [] True 0 sts w =
     (Inr (0, t), w')"
proof -
  let ?lvs = "map strip (splitlines version_text)"
  let ?orig = "dict_put (=) (dict_put (=) [] ''a'' ?lvs) ''b'' ?lvs"
  let ?w = "w\<lparr>events := events w @ [Remote ''a'' ''lvs --noheadings -o lv_path'', Remote ''b'' ''lvs --noheadings -o lv_path'']\<rparr>"
  obtain w1 where sets: "test_sets talking_runner sample_files two_runs ?w = (Inr [Inr \<lparr>ts_vms = 2, ts_tests = [''good'']\<rparr>], w1)"
    using talking_sets by blast
  obtain t w2 where one: "run_one talking_runner sts ?orig [''a'', ''b''] [] True 0 [''a'', ''b'']
       \<lparr>results = [], global_exit_code = 0, num_successful = 0, num_total = 0, num_skipped = 0\<rparr> ''good'' w1 =
     (Inr (Continue t), w2)" "global_exit_code t = 0"
    using talking_one by blast
  show ?thesis
    using sets one by (simp add: run_tests_def bindA_def ret_def lift_Inr Let_def)
qed

lemma talking_iteration:
  "\<exists>st' w'. iteration talking_runner sample_files two_runs v i st w = (Inr st', w') \<and> last_exit_code st' = Some 0"
proof -
  obtain kern ver git where v: "v = (kern, ver, git)" by (cases v)
  let ?w = "w\<lparr>stdout := stdout w @ ''Starting iteration '' @ WHITE @ str_nat (i + 1) @ NORMAL @ '' of '' @ WHITE @
    str_int (iterations two_runs) @ NORMAL @ NL\<rparr>"
  obtain t w1 where "run_tests talking_runner (test_sets talking_runner sample_files two_runs) [''a'', ''b''] [] True 0
      (find_statistics (map db_results (result_db st)) []) ?w = (Inr (0, t), w1)"
    using talking_run_tests by blast
  moreover have "vm_name two_runs = [''a'', ''b'']" "arg_exclude two_runs = []" "arg_keep_going two_runs" "arg_skip two_runs = 0"
    "1 < iterations two_runs" by (simp_all add: two_runs_def default_args_def)
  ultimately show ?thesis by (simp add: iteration_def v seqA_def bindA_def getA_def ret_def whenA_def put_line_run)
qed


end
