(* ===== verification/Ci_Trigger.thy ===== *)
theory Ci_Trigger
  imports Ordered_Set
begin

text \<open>
  \<open>src/.gitlab/trigger_for_artifact.py\<close>: starting a pipeline of another project in the continuous
  integration and fetching the file that its build job leaves. The package \<open>trigger\<close> and the HTTP
  library are parameters; they get the requests made so far, and a job is the part of its
  description that the program reads.
\<close>

record trigger_args =
  project_id :: string
  api_token :: string
  verifyssl :: bool
  arg_verbose :: bool
  http :: bool
  arg_host :: string
  url_path :: string

record ci_job =
  job_title :: string
  job_number :: int

record response =
  status_code :: int
  body_text :: string
  content :: string

datatype ci_event =
    Triggered "string list"
  | ProjectQuery string string  \<comment> \<open>URL and name\<close>
  | JobsQuery string int  \<comment> \<open>URL and pipeline\<close>
  | Get string string bool  \<comment> \<open>URL, token, whether the certificate is checked\<close>
  | WriteFile string string

record ci_env =
  run_trigger :: "ci_event list \<Rightarrow> string list \<Rightarrow> exn + int"
  parse_args :: "string list \<Rightarrow> exn + trigger_args"
  isint :: "string \<Rightarrow> bool"
  get_project_id :: "ci_event list \<Rightarrow> string \<Rightarrow> string \<Rightarrow> string \<Rightarrow> bool \<Rightarrow> bool \<Rightarrow> exn + string"
  get_pipeline_jobs :: "ci_event list \<Rightarrow> string \<Rightarrow> string \<Rightarrow> int \<Rightarrow> bool \<Rightarrow> bool \<Rightarrow> exn + ci_job list"
  requests_get :: "ci_event list \<Rightarrow> string \<Rightarrow> string \<Rightarrow> bool \<Rightarrow> exn + response"

record ci =
  ci_events :: "ci_event list"
  ci_stdout :: string

type_synonym 'a ci_prog = "(ci, 'a) act"

text \<open>A call of a parameter: its answer may depend on what happened before, and the call is recorded.\<close>

definition outside :: "ci_event \<Rightarrow> (ci_event list \<Rightarrow> exn + 'a) \<Rightarrow> 'a ci_prog" where
  "outside ev f = bindA (getA (\<lambda>w. f (ci_events w))) (\<lambda>r.
     seqA (modA (\<lambda>w. w\<lparr>ci_events := ci_events w @ [ev]\<rparr>)) (liftA r))"

definition build_job :: string where
  "build_job = ''build:for-tests''"

definition downstream_artifact_path :: string where
  "downstream_artifact_path = ''build.env''"

definition artifact_output_path :: string where
  "artifact_output_path = ''downstream.env''"

definition artifact_url :: "string \<Rightarrow> int \<Rightarrow> string \<Rightarrow> string" where
  "artifact_url project_url job_id path = project_url @ ''/jobs/'' @ str_int job_id @ ''/artifacts/'' @ path"

definition get_job_artifact ::
  "ci_env \<Rightarrow> string \<Rightarrow> string \<Rightarrow> int \<Rightarrow> bool \<Rightarrow> string \<Rightarrow> bool \<Rightarrow> string ci_prog" where
  "get_job_artifact E project_url token job_id verify path verbose =
     (let url = artifact_url project_url job_id path in
      bindA (outside (Get url token verify) (\<lambda>es. requests_get E es url token verify)) (\<lambda>r.
      seqA (whenA verbose (modA (\<lambda>w. w\<lparr>ci_stdout := ci_stdout w @ ''Response get_job_artifact: '' @ body_text r @ NL\<rparr>)))
     (seqA (assertA (status_code r = 200)) (ret (content r)))))"

definition ci_base_url :: "trigger_args \<Rightarrow> string" where
  "ci_base_url args =
     (if startswith (arg_host args) ''http://'' \<or> startswith (arg_host args) ''https://'' then arg_host args
      else (if http args then ''http://'' else ''https://'') @ arg_host args)"

definition trigger_for_artifact :: "ci_env \<Rightarrow> string list \<Rightarrow> int ci_prog" where
  "trigger_for_artifact E arg_list =
     bindA (outside (Triggered arg_list) (\<lambda>es. run_trigger E es arg_list)) (\<lambda>pid.
     bindA (liftA (parse_args E arg_list)) (\<lambda>args.
     let projects = ci_base_url args @ url_path args in
     bindA (if \<not> isint E (project_id args)
            then outside (ProjectQuery projects (project_id args)) (\<lambda>es. get_project_id E es projects (api_token args)
                   (project_id args) (verifyssl args) (arg_verbose args))
            else ret (project_id args)) (\<lambda>proj_id.
     let project_url = projects @ ''/'' @ proj_id in
     bindA (outside (JobsQuery project_url pid) (\<lambda>es. get_pipeline_jobs E es project_url (api_token args) pid
              (verifyssl args) (arg_verbose args))) (\<lambda>pipeline_jobs.
     let matching_jobs = filter (\<lambda>j. job_title j = build_job) pipeline_jobs in
     seqA (assertA (length matching_jobs = 1))
    (bindA (liftA (list_item matching_jobs 0)) (\<lambda>job.
     bindA (get_job_artifact E project_url (api_token args) (job_number job) (verifyssl args) downstream_artifact_path
              (arg_verbose args)) (\<lambda>artifact_content.
     seqA (modA (\<lambda>w. w\<lparr>ci_events := ci_events w @ [WriteFile artifact_output_path artifact_content]\<rparr>))
          (ret pid))))))))"

text \<open>The script: the exit status tells a failed pipeline by its code; another exception gives 1.\<close>

fun ci_exit_status :: "exn + 'a \<Rightarrow> int" where
  "ci_exit_status (Inr _) = 0"
| "ci_exit_status (Inl (PipelineFailure n)) = n"
| "ci_exit_status (Inl (SystemExit n)) = n"
| "ci_exit_status (Inl _) = 1"

section \<open>What the script leaves behind\<close>

lemma outsideE:
  assumes "outside ev f w = (Inr x, w')"
  obtains "f (ci_events w) = Inr x" "ci_events w' = ci_events w @ [ev]" "ci_stdout w' = ci_stdout w"
  using assms by (auto simp: outside_def elim!: bind_InrE seq_InrE)

lemma get_job_artifact_ok:
  assumes "get_job_artifact E url tok j v path vb w = (Inr c, w')"
  obtains r where "requests_get E (ci_events w) (artifact_url url j path) tok v = Inr r" "status_code r = 200"
    "c = content r" "ci_events w' = ci_events w @ [Get (artifact_url url j path) tok v]"
  using assms unfolding get_job_artifact_def Let_def
  by (auto simp: whenA_def assertA_def elim!: bind_InrE seq_InrE outsideE split: if_splits)

text \<open>
  A run that returns has written the output file once, as its last effect, with the artifact of the
  one job of the started pipeline that has the name of the build job, which the server sent with status 200.
\<close>

lemma trigger_for_artifact_writes:
  assumes "trigger_for_artifact E arg_list w = (Inr pid, w')"
  shows "\<exists>jobs j es es' url tok v vb r. get_pipeline_jobs E es url tok pid v vb = Inr jobs \<and>
    filter (\<lambda>j. job_title j = build_job) jobs = [j] \<and>
    requests_get E es' (artifact_url url (job_number j) downstream_artifact_path) tok v = Inr r \<and> status_code r = 200 \<and>
    ci_events w' = es' @ [Get (artifact_url url (job_number j) downstream_artifact_path) tok v,
      WriteFile artifact_output_path (content r)]"
proof -
  obtain args proj w1 w2 jobs w3 job c where
    q: "outside (JobsQuery (ci_base_url args @ url_path args @ ''/'' @ proj) pid)
        (\<lambda>es. get_pipeline_jobs E es (ci_base_url args @ url_path args @ ''/'' @ proj) (api_token args) pid
           (verifyssl args) (arg_verbose args)) w1 = (Inr jobs, w2)"
    and one: "length (filter (\<lambda>j. job_title j = build_job) jobs) = 1"
    and job: "list_item (filter (\<lambda>j. job_title j = build_job) jobs) 0 = Inr job"
    and art: "get_job_artifact E (ci_base_url args @ url_path args @ ''/'' @ proj) (api_token args) (job_number job)
        (verifyssl args) downstream_artifact_path (arg_verbose args) w2 = (Inr c, w3)"
    and w': "w' = w3\<lparr>ci_events := ci_events w3 @ [WriteFile artifact_output_path c]\<rparr>"
    using assms unfolding trigger_for_artifact_def Let_def append_assoc
    by (elim bind_InrE seq_InrE) (auto simp: assertA_def lift_Inr elim!: bind_InrE seq_InrE split: if_splits)
  have "filter (\<lambda>j. job_title j = build_job) jobs = [job]"
    using one job by (auto simp: list_item_def length_Suc_conv)
  moreover from q obtain "get_pipeline_jobs E (ci_events w1) (ci_base_url args @ url_path args @ ''/'' @ proj) (api_token args) pid
      (verifyssl args) (arg_verbose args) = Inr jobs" by (rule outsideE)
  moreover obtain r where "requests_get E (ci_events w2) (artifact_url (ci_base_url args @ url_path args @ ''/'' @ proj)
        (job_number job) downstream_artifact_path) (api_token args) (verifyssl args) = Inr r" "status_code r = 200" "c = content r"
    "ci_events w3 = ci_events w2 @ [Get (artifact_url (ci_base_url args @ url_path args @ ''/'' @ proj)
        (job_number job) downstream_artifact_path) (api_token args) (verifyssl args)]"
    using get_job_artifact_ok [OF art] .
  ultimately show ?thesis using w' by fastforce
qed

end
