(* ===== verification/Target_Tools.thy ===== *)
theory Target_Tools
  imports Prelude
begin

text \<open>
  The programs that run on the hosts under test: \<open>src/target/misaligned_bio.py\<close>,
  \<open>data_generator.py\<close>, \<open>stress-al.py\<close>, \<open>mem_alloc.py\<close> and \<open>unusual_bios.py\<close>.

  \<open>misaligned_bio\<close> works on a buffer in memory (here a function from addresses to bytes, with
  \<open>memset\<close> storing its value modulo 256) and on an open block device. The device is behind
  system calls and is a parameter: a state with operations to write, read and rewind, and
  \<open>device_doc\<close> says what is documented of them.
\<close>

section \<open>A block device\<close>

record 'd device =
  dev_write :: "nat list \<Rightarrow> 'd \<Rightarrow> int \<times> 'd"
  dev_read :: "nat \<Rightarrow> 'd \<Rightarrow> int \<times> nat list \<times> 'd"
  dev_rewind :: "'d \<Rightarrow> int \<times> 'd"

text \<open>
  \<open>device_doc D contents position cap\<close>: inside a capacity of \<open>cap\<close> bytes a write replaces the bytes at
  the current position and advances it, a read returns them and advances it, a read that
  would pass the end is short, and seeking to the start works.
\<close>

definition device_doc ::
  "'d device \<Rightarrow> ('d \<Rightarrow> nat list) \<Rightarrow> ('d \<Rightarrow> nat) \<Rightarrow> nat \<Rightarrow> bool" where
  "device_doc D contents position cap \<longleftrightarrow>
     (\<forall>d. length (contents d) = cap) \<and>
     (\<forall>d bs. position d + length bs \<le> cap \<longrightarrow>
        fst (dev_write D bs d) = int (length bs) \<and>
        position (snd (dev_write D bs d)) = position d + length bs \<and>
        contents (snd (dev_write D bs d)) =
          take (position d) (contents d) @ bs @ drop (position d + length bs) (contents d)) \<and>
     (\<forall>d n. position d + n \<le> cap \<longrightarrow>
        (case dev_read D n d of (k, bs, d') \<Rightarrow> k = int n \<and> bs = take n (drop (position d) (contents d)) \<and>
           position d' = position d + n \<and> contents d' = contents d)) \<and>
     (\<forall>d n. cap < position d + n \<longrightarrow> fst (dev_read D n d) \<noteq> int n) \<and>
     (\<forall>d. fst (dev_rewind D d) = 0 \<and> position (snd (dev_rewind D d)) = 0 \<and>
        contents (snd (dev_rewind D d)) = contents d)"

section \<open>misaligned\_bio\<close>

abbreviation sect_size :: nat where
  "sect_size \<equiv> 512"

record 'd bio =
  mem :: "nat \<Rightarrow> nat"
  current_byte :: nat
  fd :: 'd

type_synonym ('d, 'a) bios = "('d bio, 'a) act"

definition memset :: "nat \<Rightarrow> nat \<Rightarrow> nat \<Rightarrow> ('d, unit) bios" where
  "memset address byte n = modA (\<lambda>s. s\<lparr>mem := (\<lambda>a. if address \<le> a \<and> a < address + n then byte mod 256 else mem s a)\<rparr>)"

definition mem_range :: "(nat \<Rightarrow> nat) \<Rightarrow> nat \<Rightarrow> nat \<Rightarrow> nat list" where
  "mem_range m address n = map m [address..<address + n]"

definition bio_write :: "'d device \<Rightarrow> nat \<Rightarrow> nat \<Rightarrow> ('d, unit) bios" where
  "bio_write D address n = bindA (getA (\<lambda>s. dev_write D (mem_range (mem s) address n) (fd s))) (\<lambda>(k, d').
     seqA (modA (\<lambda>s. s\<lparr>fd := d'\<rparr>))
       (if k = -1 then raise (OSError ''libc.write'')
        else if k \<noteq> int n then raise (OSError ''Short write?'') else ret ()))"

definition bio_read :: "'d device \<Rightarrow> nat \<Rightarrow> nat \<Rightarrow> ('d, unit) bios" where
  "bio_read D address n = bindA (getA (\<lambda>s. dev_read D n (fd s))) (\<lambda>(k, bs, d').
     seqA (modA (\<lambda>s. s\<lparr>fd := d',
             mem := (\<lambda>a. if address \<le> a \<and> a < address + length bs then bs ! (a - address) else mem s a)\<rparr>))
       (if k = -1 then raise (OSError ''libc.read'')
        else if k \<noteq> int n then raise (OSError ''Short read?'') else ret ()))"

definition prepare_buffer :: "nat \<Rightarrow> nat \<Rightarrow> ('d, unit) bios" where
  "prepare_buffer start n = forA [0..<n div sect_size] (\<lambda>j.
     bindA (getA current_byte) (\<lambda>b.
     seqA (memset (start + j * sect_size) b sect_size)
          (modA (\<lambda>s. s\<lparr>current_byte := Suc (current_byte s)\<rparr>))))"

definition prepare_and_write :: "'d device \<Rightarrow> nat \<Rightarrow> nat \<Rightarrow> ('d, unit) bios" where
  "prepare_and_write D address n = seqA (prepare_buffer address n) (bio_write D address n)"

text \<open>\<open>libc.writev\<close> of four pieces is one write of their concatenation.\<close>

definition writev :: "'d device \<Rightarrow> nat list \<Rightarrow> ('d, unit) bios" where
  "writev D addresses =
     bindA (getA (\<lambda>s. dev_write D (concat (map (\<lambda>a. mem_range (mem s) a sect_size) addresses)) (fd s))) (\<lambda>(k, d').
     seqA (modA (\<lambda>s. s\<lparr>fd := d'\<rparr>))
       (if k = -1 then raise (OSError ''libc.writev'')
        else if k \<noteq> int (length addresses * sect_size) then raise (OSError ''incomplete'') else ret ()))"

definition write_pattern :: "'d device \<Rightarrow> nat \<Rightarrow> nat \<Rightarrow> ('d, unit) bios" where
  "write_pattern D page_size b =
     seqA (forA [1..<page_size div sect_size] (\<lambda>i. prepare_and_write D (b + i * sect_size) page_size))
    (seqA (prepare_and_write D (b + page_size div 2) (page_size + page_size div 2))
    (seqA (prepare_and_write D (b + sect_size) (page_size * 2 + sect_size))
    (seqA (forA [0..<4] (\<lambda>j. prepare_buffer (b + j * page_size) sect_size))
    (seqA (writev D [b, b + page_size, b + page_size * 2, b + page_size * 3])
    (seqA (memset b 255 sect_size)
          (bio_write D b sect_size))))))"

definition memcmp_eq :: "nat \<Rightarrow> nat \<Rightarrow> nat \<Rightarrow> ('d, bool) bios" where
  "memcmp_eq a b n = getA (\<lambda>s. mem_range (mem s) a n = mem_range (mem s) b n)"

text \<open>The loop \<open>while True\<close> of \<open>verify_pattern\<close>; \<open>None\<close> when the fuel runs out before it ends.\<close>

primrec verify_loop ::
  "'d device \<Rightarrow> nat \<Rightarrow> nat \<Rightarrow> nat \<Rightarrow> nat \<Rightarrow> nat \<Rightarrow> ('d, unit option) bios" where
  "verify_loop D page_size b expected_end 0 sector = ret None"
| "verify_loop D page_size b expected_end (Suc fuel) sector =
     seqA (bio_read D b sect_size)
    (bindA (getA current_byte) (\<lambda>c.
     seqA (memset (b + page_size) c sect_size)
    (bindA (memcmp_eq b (b + page_size) sect_size) (\<lambda>same.
       if \<not> same then
         bindA (if expected_end = 0 \<or> sector = expected_end
                then seqA (memset (b + page_size) 255 sect_size) (memcmp_eq b (b + page_size) sect_size)
                else ret False) (\<lambda>end_marker.
         if end_marker then ret (Some ()) else raise (RuntimeError ''Does not verify''))
       else
         seqA (modA (\<lambda>s. s\<lparr>current_byte := Suc (current_byte s)\<rparr>))
           (verify_loop D page_size b expected_end fuel (Suc sector))))))"

definition verify_pattern :: "'d device \<Rightarrow> nat \<Rightarrow> nat \<Rightarrow> nat \<Rightarrow> ('d, unit option) bios" where
  "verify_pattern D page_size b fuel =
     bindA (getA current_byte) (\<lambda>expected_end.
     bindA (getA (\<lambda>s. dev_rewind D (fd s))) (\<lambda>(k, d').
     seqA (modA (\<lambda>s. s\<lparr>fd := d'\<rparr>))
    (if k \<noteq> 0 then raise (OSError ''os.lseek'')
     else seqA (modA (\<lambda>s. s\<lparr>current_byte := 0\<rparr>))
            (verify_loop D page_size b expected_end fuel 0))))"

definition misaligned_bio_main :: "'d device \<Rightarrow> nat \<Rightarrow> nat \<Rightarrow> bool \<Rightarrow> nat \<Rightarrow> ('d, unit option) bios" where
  "misaligned_bio_main D page_size b only_verify fuel =
     (if only_verify then verify_pattern D page_size b fuel
      else seqA (write_pattern D page_size b) (verify_pattern D page_size b fuel))"

section \<open>The other tools\<close>

text \<open>\<open>data_generator.py\<close>: \<open>(label * 8)[:8]\<close> and the counter in 8 bytes, most significant first.\<close>

definition label_bytes :: "nat list \<Rightarrow> nat list" where
  "label_bytes label = take 8 (concat (replicate 8 label))"

definition be_bytes :: "nat \<Rightarrow> nat list" where
  "be_bytes i = map (\<lambda>k. i div 256 ^ (7 - k) mod 256) [0..<8]"

definition to_bytes8 :: "nat \<Rightarrow> exn + nat list" where
  "to_bytes8 i = (if i < 2 ^ 64 then Inr (be_bytes i) else Inl OverflowError)"

definition data_generator :: "nat list \<Rightarrow> nat \<Rightarrow> (nat list, unit) act" where
  "data_generator label n = forA [0..<n div 16] (\<lambda>i.
     seqA (modA (\<lambda>o'. o' @ label_bytes label))
       (bindA (liftA (to_bytes8 i)) (\<lambda>bs. modA (\<lambda>o'. o' @ bs))))"

text \<open>
  \<open>stress-al.py\<close>: the offsets written. The \<open>i\<close>-th \<open>os.write\<close> reports \<open>w_len i\<close> bytes (it may be
  short) and the seek relative to the new position makes up for it.
\<close>

abbreviation al_extent_len :: int where
  "al_extent_len \<equiv> 4 * 1024 * 1024"

fun stress_offsets :: "(nat \<Rightarrow> int) \<Rightarrow> int \<Rightarrow> nat list \<Rightarrow> int list" where
  "stress_offsets w_len pos [] = []"
| "stress_offsets w_len pos (i # is) =
     pos # stress_offsets w_len (pos + w_len i + (al_extent_len - w_len i)) is"

definition stress_al :: "(nat \<Rightarrow> int) \<Rightarrow> nat \<Rightarrow> int list" where
  "stress_al w_len nr_writes = stress_offsets w_len 0 [1..<nr_writes]"

text \<open>\<open>mem_alloc.py\<close>: the chunks allocated; their lengths are summed up at the end.\<close>

definition mem_alloc :: "int \<Rightarrow> nat" where
  "mem_alloc alloc_kib =
     (let chunk_kib = 64; chunk_size = 64 * 1024; chunk_count = alloc_kib div chunk_kib
      in sum_list (chunk_size # replicate (nat (chunk_count - 1)) chunk_size))"

text \<open>
  \<open>unusual_bios.py\<close>: the \<open>ioctl\<close> requests it sends with their argument pair; \<open>io\<close> is the result of
  the system call and the state the requests sent so far.
\<close>

definition send_ioctl :: "(nat \<Rightarrow> nat \<times> nat \<Rightarrow> int) \<Rightarrow> nat \<Rightarrow> nat \<times> nat \<Rightarrow> ((nat \<times> nat \<times> nat) list, unit) act" where
  "send_ioctl io request r = seqA (modA (\<lambda>sent. sent @ [(request, r)]))
     (if io request r \<noteq> 0 then raise (OSError ''libc.ioctl'') else ret ())"

definition unusual_bios :: "(nat \<Rightarrow> nat \<times> nat \<Rightarrow> int) \<Rightarrow> nat \<Rightarrow> ((nat \<times> nat \<times> nat) list, unit) act" where
  "unusual_bios io n =
     seqA (send_ioctl io (0x12 * 2 ^ 8 + 127) (0 * n, 1 * n))
          (send_ioctl io (0x12 * 2 ^ 8 + 119) (1 * n, 2 * n))"

section \<open>The pattern on the device\<close>

text \<open>\<open>k\<close> sectors, each filled with its number, from number \<open>c\<close> on.\<close>

definition sectors :: "nat \<Rightarrow> nat \<Rightarrow> nat list" where
  "sectors c k = concat (map (\<lambda>j. replicate sect_size ((c + j) mod 256)) [0..<k])"

lemma length_sectors [simp]: "length (sectors c k) = k * sect_size"
  by (induction k) (simp_all add: sectors_def)

lemma sectors_0 [simp]: "sectors c 0 = []"
  by (simp add: sectors_def)

lemma sectors_Suc: "sectors c (Suc k) = sectors c k @ replicate sect_size ((c + k) mod 256)"
  by (simp add: sectors_def)

lemma sectors_add: "sectors c (j + k) = sectors c j @ sectors (c + j) k"
  by (induction k) (simp_all add: sectors_Suc add.assoc)

text \<open>The pattern of \<open>n\<close> numbered sectors and the end marker at the start of the contents.\<close>

definition pattern_on :: "nat \<Rightarrow> nat list \<Rightarrow> bool" where
  "pattern_on n cs \<longleftrightarrow> take (n * sect_size) cs = sectors 0 n \<and>
     take sect_size (drop (n * sect_size) cs) = replicate sect_size 255"

lemma mem_range_append: "mem_range m a (j + k) = mem_range m a j @ mem_range m (a + j) k"
  unfolding mem_range_def using upt_add_eq_append [of a "a + j" k] by (simp add: add.assoc)

lemma mem_range_cong: "(\<And>x. a \<le> x \<Longrightarrow> x < a + n \<Longrightarrow> m x = m' x) \<Longrightarrow> mem_range m a n = mem_range m' a n"
  by (simp add: mem_range_def)

lemma mem_range_const: "(\<And>x. a \<le> x \<Longrightarrow> x < a + n \<Longrightarrow> m x = c) \<Longrightarrow> mem_range m a n = replicate n c"
  by (rule nth_equalityI) (simp_all add: mem_range_def)

lemma length_mem_range [simp]: "length (mem_range m a n) = n"
  by (simp add: mem_range_def)

text \<open>Filling a buffer of \<open>k\<close> sectors.\<close>

lemma prepare_sectors:
  "\<exists>m'. prepare_buffer start (k * sect_size) s = (Inr (), s\<lparr>mem := m', current_byte := current_byte s + k\<rparr>) \<and>
     mem_range m' start (k * sect_size) = sectors (current_byte s) k \<and>
     (\<forall>x. x < start \<or> start + k * sect_size \<le> x \<longrightarrow> m' x = mem s x)"
proof (induction k)
  case 0
  show ?case by (rule exI [of _ "mem s"]) (simp add: prepare_buffer_def mem_range_def)
next
  case (Suc k)
  then obtain m' where m': "prepare_buffer start (k * sect_size) s = (Inr (), s\<lparr>mem := m', current_byte := current_byte s + k\<rparr>)"
    "mem_range m' start (k * sect_size) = sectors (current_byte s) k"
    "\<forall>x. x < start \<or> start + k * sect_size \<le> x \<longrightarrow> m' x = mem s x" by blast
  define m2 where "m2 = (\<lambda>a. if start + k * sect_size \<le> a \<and> a < start + k * sect_size + sect_size
      then (current_byte s + k) mod 256 else m' a)"
  have "prepare_buffer start (Suc k * sect_size) s =
      seqA (prepare_buffer start (k * sect_size)) (bindA (getA current_byte) (\<lambda>b.
        seqA (memset (start + k * sect_size) b sect_size)
          (modA (\<lambda>s. s\<lparr>current_byte := Suc (current_byte s)\<rparr>)))) s"
    by (simp add: prepare_buffer_def for_append seqA_def bind_ret_right)
  also have "\<dots> = (Inr (), s\<lparr>mem := m2, current_byte := current_byte s + Suc k\<rparr>)"
    by (simp add: seqA_def bindA_def m'(1) memset_def modA_def getA_def m2_def cong: if_cong)
  finally have run: "prepare_buffer start (Suc k * sect_size) s =
      (Inr (), s\<lparr>mem := m2, current_byte := current_byte s + Suc k\<rparr>)" .
  have "mem_range m2 start (k * sect_size) = sectors (current_byte s) k"
    using m'(2) mem_range_cong [of start "k * sect_size" m2 m'] by (simp add: m2_def)
  moreover have "mem_range m2 (start + k * sect_size) sect_size = replicate sect_size ((current_byte s + k) mod 256)"
    by (rule mem_range_const) (simp add: m2_def)
  ultimately have "mem_range m2 start (k * sect_size + sect_size) = sectors (current_byte s) (Suc k)"
    by (simp add: mem_range_append sectors_Suc)
  moreover have "\<forall>x. x < start \<or> start + Suc k * sect_size \<le> x \<longrightarrow> m2 x = mem s x"
    using m'(3) by (auto simp: m2_def)
  ultimately show ?case using run by (auto simp: add.commute)
qed

text \<open>The device holds the first \<open>c\<close> sectors of the pattern and is positioned after them.\<close>

definition written :: "('d \<Rightarrow> nat list) \<Rightarrow> ('d \<Rightarrow> nat) \<Rightarrow> nat \<Rightarrow> 'd bio \<Rightarrow> bool" where
  "written contents position c s \<longleftrightarrow> current_byte s = c \<and> position (fd s) = c * sect_size \<and>
     take (c * sect_size) (contents (fd s)) = sectors 0 c"

lemma device_write:
  assumes "device_doc D contents position cap" and "position d + length bs \<le> cap"
  shows "dev_write D bs d = (int (length bs), snd (dev_write D bs d))"
    and "position (snd (dev_write D bs d)) = position d + length bs"
    and "contents (snd (dev_write D bs d)) = take (position d) (contents d) @ bs @ drop (position d + length bs) (contents d)"
    and "length (contents d) = cap"
  using assms unfolding device_doc_def by (metis prod.collapse)+


lemma device_write_step:
  assumes doc: "device_doc D contents position cap" and w: "written contents position c s"
    and bs: "concat pieces = sectors c k" and cap: "(c + k) * sect_size \<le> cap"
    and s': "s' = s\<lparr>mem := m', current_byte := c + k\<rparr>"
  shows "\<exists>d. dev_write D (concat pieces) (fd s') = (int (k * sect_size), d) \<and>
     written contents position (c + k) (s'\<lparr>fd := d\<rparr>)"
proof -
  have len: "position (fd s) + length (sectors c k) \<le> cap" using w cap by (simp add: written_def algebra_simps)
  have add: "sectors 0 (c + k) = sectors 0 c @ sectors c k" using sectors_add [of 0 c k] by simp
  have "c * sect_size \<le> length (contents (fd s))" using device_write(4) [OF doc len] cap by simp
  then have "written contents position (c + k) (s'\<lparr>fd := snd (dev_write D (sectors c k) (fd s))\<rparr>)"
    using w device_write(2,3) [OF doc len] cap unfolding written_def s'
    by (simp add: add min_absorb2 distrib_right)
  then show ?thesis using device_write(1) [OF doc len] by (auto simp: bs s')
qed

lemma written_step:
  assumes doc: "device_doc D contents position cap" and w: "written contents position c s"
    and cap: "(c + k) * sect_size \<le> cap"
  shows "\<exists>s'. prepare_and_write D a (k * sect_size) s = (Inr (), s') \<and> written contents position (c + k) s'"
proof -
  obtain m' where m': "prepare_buffer a (k * sect_size) s = (Inr (), s\<lparr>mem := m', current_byte := c + k\<rparr>)"
    "mem_range m' a (k * sect_size) = sectors c k"
    using prepare_sectors [of a k s] w by (auto simp: written_def)
  let ?s = "s\<lparr>mem := m', current_byte := c + k\<rparr>"
  obtain d where d: "dev_write D (sectors c k) (fd ?s) = (int (k * sect_size), d)"
    "written contents position (c + k) (?s\<lparr>fd := d\<rparr>)"
    using device_write_step [OF doc w _ cap refl, of "[sectors c k]" m'] by auto
  have "prepare_and_write D a (k * sect_size) s = (Inr (), ?s\<lparr>fd := d\<rparr>)"
    using d(1) by (simp add: prepare_and_write_def seqA_def bindA_def m'(1) bio_write_def getA_def m'(2) modA_def ret_def)
  with d(2) show ?thesis by blast
qed

lemma written_loop:
  assumes doc: "device_doc D contents position cap" and w: "written contents position c s"
    and cap: "(c + n * k) * sect_size \<le> cap"
  shows "\<exists>s'. forA [i..<i + n] (\<lambda>j. prepare_and_write D (a j) (k * sect_size)) s = (Inr (), s') \<and>
     written contents position (c + n * k) s'"
  using cap
proof (induction n)
  case 0
  show ?case using w by simp
next
  case (Suc n)
  then obtain s1 where s1: "forA [i..<i + n] (\<lambda>j. prepare_and_write D (a j) (k * sect_size)) s = (Inr (), s1)"
    "written contents position (c + n * k) s1" by auto
  obtain s2 where "prepare_and_write D (a (i + n)) (k * sect_size) s1 = (Inr (), s2)"
    "written contents position (c + n * k + k) s2"
    using written_step [OF doc s1(2), of k] Suc.prems by (auto simp: algebra_simps)
  with s1(1) show ?case by (auto simp: for_append seqA_def bindA_def ret_def algebra_simps)
qed

text \<open>The four single sectors, a page apart, of the vectored write.\<close>

lemma prepare_spread:
  assumes "sect_size \<le> p"
  shows "\<exists>m'. forA [0..<n] (\<lambda>j. prepare_buffer (b + j * p) sect_size) s =
       (Inr (), s\<lparr>mem := m', current_byte := current_byte s + n\<rparr>) \<and>
     concat (map (\<lambda>j. mem_range m' (b + j * p) sect_size) [0..<n]) = sectors (current_byte s) n"
proof (induction n)
  case 0
  show ?case by (rule exI [of _ "mem s"]) simp
next
  case (Suc n)
  then obtain m1 where m1: "forA [0..<n] (\<lambda>j. prepare_buffer (b + j * p) sect_size) s =
       (Inr (), s\<lparr>mem := m1, current_byte := current_byte s + n\<rparr>)"
    "concat (map (\<lambda>j. mem_range m1 (b + j * p) sect_size) [0..<n]) = sectors (current_byte s) n" by blast
  let ?s = "s\<lparr>mem := m1, current_byte := current_byte s + n\<rparr>"
  obtain m2 where m2: "prepare_buffer (b + n * p) sect_size ?s = (Inr (), s\<lparr>mem := m2, current_byte := current_byte s + n + 1\<rparr>)"
    "mem_range m2 (b + n * p) sect_size = sectors (current_byte s + n) 1"
    "\<forall>x. x < b + n * p \<longrightarrow> m2 x = m1 x"
    using prepare_sectors [of "b + n * p" 1 ?s] by auto
  have keep: "mem_range m2 (b + j * p) sect_size = mem_range m1 (b + j * p) sect_size" if "j < n" for j
  proof (rule mem_range_cong)
    fix x assume "x < b + j * p + sect_size"
    moreover have "j * p + p \<le> n * p" using that mult_le_mono1 [of "Suc j" n p] by simp
    ultimately show "m2 x = m1 x" using m2(3) assms by auto
  qed
  have "map (\<lambda>j. mem_range m2 (b + j * p) sect_size) [0..<n] = map (\<lambda>j. mem_range m1 (b + j * p) sect_size) [0..<n]"
    using keep by (intro map_cong) simp_all
  then have "concat (map (\<lambda>j. mem_range m2 (b + j * p) sect_size) [0..<Suc n]) = sectors (current_byte s) (n + 1)"
    using m1(2) m2(2) unfolding sectors_add by (simp del: map_eq_conv)
  moreover have "forA [0..<Suc n] (\<lambda>j. prepare_buffer (b + j * p) sect_size) s =
      (Inr (), s\<lparr>mem := m2, current_byte := current_byte s + Suc n\<rparr>)"
    using m1(1) m2(1) by (simp add: for_append seqA_def bindA_def ret_def)
  ultimately show ?case by auto
qed

lemma written_vector:
  assumes doc: "device_doc D contents position cap" and w: "written contents position c s"
    and cap: "(c + 4) * sect_size \<le> cap" and p: "sect_size \<le> p"
  shows "\<exists>s'. seqA (forA [0..<4] (\<lambda>j. prepare_buffer (b + j * p) sect_size))
      (writev D [b, b + p, b + p * 2, b + p * 3]) s = (Inr (), s') \<and> written contents position (c + 4) s'"
proof -
  obtain m' where m': "forA [0..<4] (\<lambda>j. prepare_buffer (b + j * p) sect_size) s =
       (Inr (), s\<lparr>mem := m', current_byte := c + 4\<rparr>)"
    "concat (map (\<lambda>j. mem_range m' (b + j * p) sect_size) [0..<4]) = sectors c 4"
    using prepare_spread [OF p, of 4 b s] w by (auto simp: written_def)
  let ?s = "s\<lparr>mem := m', current_byte := c + 4\<rparr>"
  let ?as = "[b, b + p, b + p * 2, b + p * 3]"
  have "map (\<lambda>j. mem_range m' (b + j * p) sect_size) [0..<4] = map (\<lambda>a. mem_range m' a sect_size) ?as"
    by (simp add: upt_rec mult_2_right numeral_3_eq_3 add.assoc)
  then have bs: "concat (map (\<lambda>a. mem_range m' a sect_size) ?as) = sectors c 4" using m'(2) by metis
  obtain d where d: "dev_write D (concat (map (\<lambda>a. mem_range m' a sect_size) ?as)) (fd ?s) = (int (4 * sect_size), d)"
    "written contents position (c + 4) (?s\<lparr>fd := d\<rparr>)"
    using device_write_step [OF doc w bs cap refl] by blast
  have "writev D ?as ?s = (Inr (), ?s\<lparr>fd := d\<rparr>)"
    using d(1) unfolding writev_def bindA_def getA_def seqA_def modA_def ret_def by simp
  then show ?thesis using d(2) m'(1) by (auto simp: seqA_def bindA_def)
qed

lemma written_marker:
  assumes doc: "device_doc D contents position cap" and w: "written contents position c s"
    and cap: "(c + 1) * sect_size \<le> cap"
  shows "\<exists>s'. seqA (memset b 255 sect_size) (bio_write D b sect_size) s = (Inr (), s') \<and>
     current_byte s' = c \<and> pattern_on c (contents (fd s'))"
proof -
  define m where "m = (\<lambda>a. if b \<le> a \<and> a < b + sect_size then 255 mod 256 else mem s a)"
  let ?bs = "replicate sect_size (255 :: nat)"
  have bs: "mem_range m b sect_size = ?bs" by (rule mem_range_const) (simp add: m_def)
  have len: "position (fd s) + length ?bs \<le> cap" using w cap by (simp add: written_def)
  note dw = device_write [OF doc len]
  obtain d where d: "dev_write D ?bs (fd s) = (int sect_size, d)" using dw(1) by simp
  have "memset b 255 sect_size s = (Inr (), s\<lparr>mem := m\<rparr>)" by (simp add: memset_def m_def)
  moreover have "bio_write D b sect_size (s\<lparr>mem := m\<rparr>) = (Inr (), s\<lparr>mem := m, fd := d\<rparr>)"
    by (simp add: bio_write_def bindA_def getA_def seqA_def modA_def ret_def bs d)
  moreover have "pattern_on c (contents d)"
    using w dw(3,4) cap by (simp add: d pattern_on_def written_def min_absorb2)
  ultimately show ?thesis using w by (simp add: written_def seqA_def bindA_def)
qed

text \<open>The number of sectors before the end marker, for pages of \<open>m\<close> sectors.\<close>

definition pattern_sectors :: "nat \<Rightarrow> nat" where
  "pattern_sectors m = (m - 1) * m + (m + m div 2) + (2 * m + 1) + 4"

lemma write_pattern_run:
  assumes doc: "device_doc D contents position cap" and w: "written contents position 0 s"
    and m: "even m" "2 \<le> m" and cap: "(pattern_sectors m + 1) * sect_size \<le> cap"
  shows "\<exists>s'. write_pattern D (m * sect_size) b s = (Inr (), s') \<and>
     current_byte s' = pattern_sectors m \<and> pattern_on (pattern_sectors m) (contents (fd s'))"
proof -
  let ?p = "m * sect_size" and ?n1 = "(m - 1) * m" and ?k2 = "m + m div 2" and ?k3 = "2 * m + 1"
  have N: "pattern_sectors m = ?n1 + ?k2 + ?k3 + 4" by (simp add: pattern_sectors_def)
  have sizes: "?p + ?p div 2 = ?k2 * sect_size" "?p * 2 + sect_size = ?k3 * sect_size" "?p div sect_size = 1 + (m - 1)"
    using m by (auto elim!: evenE simp: algebra_simps)
  have le: "sect_size \<le> ?p" using m(2) by simp
  obtain s1 where s1: "forA [1..<1 + (m - 1)] (\<lambda>i. prepare_and_write D (b + i * sect_size) ?p) s = (Inr (), s1)"
      "written contents position ?n1 s1"
    using written_loop [OF doc w, where n = "m - 1" and k = m] cap unfolding N by fastforce
  obtain s2 where s2: "prepare_and_write D (b + ?p div 2) (?k2 * sect_size) s1 = (Inr (), s2)"
      "written contents position (?n1 + ?k2) s2"
    using written_step [OF doc s1(2), of ?k2] cap unfolding N by fastforce
  obtain s3 where s3: "prepare_and_write D (b + sect_size) (?k3 * sect_size) s2 = (Inr (), s3)"
      "written contents position (?n1 + ?k2 + ?k3) s3"
    using written_step [OF doc s2(2), of ?k3] cap unfolding N by fastforce
  obtain s4 where s4: "seqA (forA [0..<4] (\<lambda>j. prepare_buffer (b + j * ?p) sect_size))
      (writev D [b, b + ?p, b + ?p * 2, b + ?p * 3]) s3 = (Inr (), s4)" "written contents position (pattern_sectors m) s4"
    using written_vector [OF doc s3(2) _ le] cap unfolding N by fastforce
  obtain s5 where s5: "seqA (memset b 255 sect_size) (bio_write D b sect_size) s4 = (Inr (), s5)"
      "current_byte s5 = pattern_sectors m" "pattern_on (pattern_sectors m) (contents (fd s5))"
    using written_marker [OF doc s4(2) cap] by blast
  have "write_pattern D ?p b s = (Inr (), s5)"
    using s1(1) s2(1) s3(1) s4(1) s5(1) unfolding write_pattern_def sizes
    by (auto simp: seqA_def bindA_def split: prod.splits sum.splits)
  with s5(2,3) show ?thesis by blast
qed

section \<open>Verification of the pattern\<close>

lemma device_read:
  assumes "device_doc D contents position cap" and "position d + n \<le> cap"
  shows "\<exists>d'. dev_read D n d = (int n, take n (drop (position d) (contents d)), d') \<and>
     position d' = position d + n \<and> contents d' = contents d"
  using assms unfolding device_doc_def by (cases "dev_read D n d") (auto dest!: spec [of _ d] split: prod.splits)

text \<open>One turn of the loop, on the sector under the position.\<close>

lemma verify_turn:
  assumes doc: "device_doc D contents position cap" and p: "sect_size \<le> p"
    and room: "position (fd s) + sect_size \<le> cap"
    and bs: "bs = take sect_size (drop (position (fd s)) (contents (fd s)))"
  shows "\<exists>s1 s2. position (fd s1) = position (fd s) + sect_size \<and> contents (fd s1) = contents (fd s) \<and>
     current_byte s1 = Suc (current_byte s) \<and>
     verify_loop D p b e (Suc f) sector s =
       (if bs = replicate sect_size (current_byte s mod 256) then verify_loop D p b e f (Suc sector) s1
        else if (e = 0 \<or> sector = e) \<and> bs = replicate sect_size 255 then (Inr (Some ()), s2)
        else (Inl (RuntimeError ''Does not verify''), s2))"
proof -
  have len: "length bs = sect_size" using doc room unfolding bs device_doc_def by simp
  obtain d' where d': "dev_read D sect_size (fd s) = (int sect_size, bs, d')"
    "position d' = position (fd s) + sect_size" "contents d' = contents (fd s)"
    using device_read [OF doc room] unfolding bs by blast
  define m1 where "m1 = (\<lambda>a. if b \<le> a \<and> a < b + sect_size then bs ! (a - b) else mem s a)"
  define fill where "fill c m = (\<lambda>a. if b + p \<le> a \<and> a < b + p + sect_size then c mod 256 else (m a :: nat))" for c m
  have rd: "bio_read D b sect_size s = (Inr (), s\<lparr>mem := m1, fd := d'\<rparr>)"
    by (simp add: bio_read_def bindA_def getA_def seqA_def modA_def ret_def d'(1) len m1_def cong: if_cong)
  have m1: "mem_range m1 b sect_size = bs" by (rule nth_equalityI) (simp_all add: mem_range_def m1_def len)
  have low: "mem_range (fill c m) b sect_size = mem_range m b sect_size" for c m
    by (rule mem_range_cong) (use p in \<open>simp add: fill_def\<close>)
  have high: "mem_range (fill c m) (b + p) sect_size = replicate sect_size (c mod 256)" for c m
    by (rule mem_range_const) (simp add: fill_def)
  have set: "memset (b + p) c sect_size t = (Inr (), t\<lparr>mem := fill c (mem t)\<rparr>)" for c and t :: "'a bio"
    by (simp add: memset_def fill_def cong: if_cong)
  let ?c = "current_byte s"
  let ?s1 = "s\<lparr>fd := d', mem := fill ?c m1, current_byte := Suc ?c\<rparr>"
  let ?s2 = "if e = 0 \<or> sector = e then s\<lparr>fd := d', mem := fill 255 (fill ?c m1)\<rparr> else s\<lparr>fd := d', mem := fill ?c m1\<rparr>"
  have "verify_loop D p b e (Suc f) sector s =
       (if bs = replicate sect_size (?c mod 256) then verify_loop D p b e f (Suc sector) ?s1
        else if (e = 0 \<or> sector = e) \<and> bs = replicate sect_size 255 then (Inr (Some ()), ?s2)
        else (Inl (RuntimeError ''Does not verify''), ?s2))"
    by (simp add: seqA_def bindA_def rd getA_def set memcmp_eq_def low high m1 modA_def ret_def raise_def)
  then show ?thesis using d'(2,3) by (intro exI [of _ ?s1] exI [of _ ?s2]) simp
qed

lemma pattern_sector:
  assumes "pattern_on n cs" "i < n"
  shows "take sect_size (drop (i * sect_size) cs) = replicate sect_size (i mod 256)"
proof -
  have "sectors 0 n = sectors 0 i @ sectors i 1 @ sectors (i + 1) (n - i - 1)"
    using sectors_add [of 0 i "1 + (n - i - 1)"] sectors_add [of i 1 "n - i - 1"] assms(2) by simp
  then have "take sect_size (drop (i * sect_size) (sectors 0 n)) = sectors i 1" by simp
  moreover have "take sect_size (drop (i * sect_size) (take (n * sect_size) cs)) = take sect_size (drop (i * sect_size) cs)"
    using assms(2) mult_le_mono1 [of "Suc i" n sect_size] by (simp add: drop_take min_absorb1)
  moreover have "sectors i 1 = replicate sect_size (i mod 256)" by (simp add: sectors_def)
  ultimately show ?thesis using assms(1) unfolding pattern_on_def by metis
qed

lemma verify_loop_complete:
  assumes doc: "device_doc D contents position cap" and p: "sect_size \<le> p"
    and pat: "pattern_on n (contents d)" and cap: "(n + 1) * sect_size \<le> cap" and mark: "n mod 256 \<noteq> 255"
    and e: "e = 0 \<or> e = n"
  shows "contents (fd s) = contents d \<Longrightarrow> position (fd s) = sector * sect_size \<Longrightarrow> current_byte s = sector \<Longrightarrow>
     sector \<le> n \<Longrightarrow> n - sector < fuel \<Longrightarrow> \<exists>s'. verify_loop D p b e fuel sector s = (Inr (Some ()), s')"
proof (induction fuel arbitrary: sector s)
  case 0
  then show ?case by simp
next
  case (Suc f)
  let ?bs = "take sect_size (drop (position (fd s)) (contents (fd s)))"
  have room: "position (fd s) + sect_size \<le> cap"
    using Suc.prems cap mult_le_mono1 [of "sector + 1" "n + 1" sect_size] by simp
  obtain s1 s2 where turn: "position (fd s1) = position (fd s) + sect_size" "contents (fd s1) = contents (fd s)"
     "current_byte s1 = Suc (current_byte s)"
     "verify_loop D p b e (Suc f) sector s =
       (if ?bs = replicate sect_size (current_byte s mod 256) then verify_loop D p b e f (Suc sector) s1
        else if (e = 0 \<or> sector = e) \<and> ?bs = replicate sect_size 255 then (Inr (Some ()), s2)
        else (Inl (RuntimeError ''Does not verify''), s2))"
    using verify_turn [OF doc p room refl] by blast
  show ?case
  proof (cases "sector = n")
    case True
    then have "?bs = replicate sect_size 255" using Suc.prems pat by (simp add: pattern_on_def)
    then show ?thesis using turn(4) e mark True Suc.prems(3) by auto
  next
    case False
    have "?bs = replicate sect_size (sector mod 256)"
      using pattern_sector [OF pat, of sector] False Suc.prems by simp
    then show ?thesis using turn Suc.IH [of s1 "Suc sector"] Suc.prems False by auto
  qed
qed

text \<open>A short read ends the loop with an error.\<close>

lemma verify_short:
  assumes doc: "device_doc D contents position cap" and "verify_loop D p b e (Suc f) sector s = (Inr (Some ()), s')"
  shows "position (fd s) + sect_size \<le> cap"
proof (rule ccontr)
  assume "\<not> ?thesis"
  then have "cap < position (fd s) + sect_size" by simp
  then have "fst (dev_read D sect_size (fd s)) \<noteq> int sect_size" using doc unfolding device_doc_def by blast
  moreover obtain k bs d' where "dev_read D sect_size (fd s) = (k, bs, d')" by (cases "dev_read D sect_size (fd s)")
  ultimately have "isl (fst (bio_read D b sect_size s))"
    by (simp add: bio_read_def bindA_def getA_def seqA_def modA_def raise_def)
  then obtain er t where "bio_read D b sect_size s = (Inl er, t)"
    by (cases "bio_read D b sect_size s") (auto simp: isl_def)
  with assms(2) show False by (simp add: seqA_def bindA_def)
qed

lemma verify_loop_sound:
  assumes doc: "device_doc D contents position cap" and p: "sect_size \<le> p"
  shows "verify_loop D p b e fuel sector s = (Inr (Some ()), s') \<Longrightarrow> position (fd s) = sector * sect_size \<Longrightarrow>
     current_byte s = sector \<Longrightarrow> take (sector * sect_size) (contents (fd s)) = sectors 0 sector \<Longrightarrow>
     \<exists>n. pattern_on n (contents (fd s)) \<and> (e = 0 \<or> n = e)"
proof (induction fuel arbitrary: sector s)
  case 0
  then show ?case by (simp add: ret_def)
next
  case (Suc f)
  let ?bs = "take sect_size (drop (position (fd s)) (contents (fd s)))"
  have room: "position (fd s) + sect_size \<le> cap"
    using verify_short [OF doc Suc.prems(1)] .
  obtain s1 s2 where turn: "position (fd s1) = position (fd s) + sect_size" "contents (fd s1) = contents (fd s)"
     "current_byte s1 = Suc (current_byte s)"
     "verify_loop D p b e (Suc f) sector s =
       (if ?bs = replicate sect_size (current_byte s mod 256) then verify_loop D p b e f (Suc sector) s1
        else if (e = 0 \<or> sector = e) \<and> ?bs = replicate sect_size 255 then (Inr (Some ()), s2)
        else (Inl (RuntimeError ''Does not verify''), s2))"
    using verify_turn [OF doc p room refl] by blast
  show ?case
  proof (cases "?bs = replicate sect_size (current_byte s mod 256)")
    case True
    then have "take (Suc sector * sect_size) (contents (fd s)) = sectors 0 (Suc sector)"
      using Suc.prems(2-4) take_add [of "sector * sect_size" sect_size "contents (fd s)"]
      by (simp add: sectors_Suc add.commute)
    then show ?thesis using Suc.IH [of "Suc sector" s1] Suc.prems turn True by auto
  next
    case False
    then have "(e = 0 \<or> sector = e) \<and> ?bs = replicate sect_size 255"
      using Suc.prems(1) turn(4) by (simp split: if_splits)
    then show ?thesis using Suc.prems(2,4) by (auto simp: pattern_on_def)
  qed
qed

lemma verify_pattern_rewound:
  assumes doc: "device_doc D contents position cap"
  shows "\<exists>s1. verify_pattern D p b fuel s = verify_loop D p b (current_byte s) fuel 0 s1 \<and>
     current_byte s1 = 0 \<and> position (fd s1) = 0 \<and> contents (fd s1) = contents (fd s)"
proof -
  obtain d' where d': "dev_rewind D (fd s) = (0, d')" "position d' = 0" "contents d' = contents (fd s)"
    using doc unfolding device_doc_def by (metis prod.collapse)
  show ?thesis
    by (rule exI [of _ "s\<lparr>fd := d', current_byte := 0\<rparr>"])
      (simp add: verify_pattern_def bindA_def getA_def seqA_def modA_def d')
qed

lemma verify_pattern_complete:
  assumes doc: "device_doc D contents position cap" and p: "sect_size \<le> p"
    and pat: "pattern_on n (contents (fd s))" and cap: "(n + 1) * sect_size \<le> cap" and mark: "n mod 256 \<noteq> 255"
    and e: "current_byte s = 0 \<or> current_byte s = n" and fuel: "n < fuel"
  shows "\<exists>s'. verify_pattern D p b fuel s = (Inr (Some ()), s')"
  using verify_pattern_rewound [OF doc, of p b fuel s] verify_loop_complete [OF doc p pat cap mark e, where fuel = fuel and sector = 0]
    fuel by fastforce

text \<open>A disk in memory, on which the documented behaviour holds.\<close>

definition disk_bytes :: "nat \<Rightarrow> nat list \<times> nat \<Rightarrow> nat list" where
  "disk_bytes cap d = take cap (fst d @ replicate cap 0)"

definition ram_disk :: "nat \<Rightarrow> (nat list \<times> nat) device" where
  "ram_disk cap = \<lparr>
     dev_write = (\<lambda>bs d. if snd d + length bs \<le> cap
        then (int (length bs), take (snd d) (disk_bytes cap d) @ bs @ drop (snd d + length bs) (disk_bytes cap d), snd d + length bs)
        else (-1, d)),
     dev_read = (\<lambda>n d. if snd d + n \<le> cap then (int n, take n (drop (snd d) (disk_bytes cap d)), fst d, snd d + n)
        else (-1, [], d)),
     dev_rewind = (\<lambda>d. (0, fst d, 0))\<rparr>"

lemma ram_disk_doc: "device_doc (ram_disk cap) (disk_bytes cap) snd cap"
  by (auto simp: device_doc_def ram_disk_def disk_bytes_def)

text \<open>
  C6: On a device large enough, starting at its beginning, \<open>misaligned_bio.py\<close> run without
  \<open>verify\<close> (for a page of an even number of sectors) ends and reports success: the unaligned and
  vectored writes leave the sectors numbered 0, 1, 2, ... modulo 256 in order, followed by the
  end marker, and the verification that follows accepts them. A later run with \<open>verify\<close> on a
  device with those contents also ends and succeeds, from whatever the buffer holds then.
\<close>
theorem misaligned_bio_succeeds:
  assumes "device_doc D contents position cap"
    and "even m" and "2 \<le> m" and "(pattern_sectors m + 1) * sect_size \<le> cap"
    and "pattern_sectors m mod 256 \<noteq> 255" and "pattern_sectors m < fuel"
    and "current_byte s = 0" and "position (fd s) = 0"
  shows "\<exists>s1 s2. write_pattern D (m * sect_size) b s = (Inr (), s1) \<and>
     pattern_on (pattern_sectors m) (contents (fd s1)) \<and>
     misaligned_bio_main D (m * sect_size) b False fuel s = (Inr (Some ()), s2) \<and>
     (\<forall>t. current_byte t = 0 \<and> contents (fd t) = contents (fd s1) \<longrightarrow>
        (\<exists>t'. misaligned_bio_main D (m * sect_size) b True fuel t = (Inr (Some ()), t')))"
proof -
  have w: "written contents position 0 s" using assms(7,8) by (simp add: written_def)
  have p: "sect_size \<le> m * sect_size" using assms(3) by simp
  obtain s1 where s1: "write_pattern D (m * sect_size) b s = (Inr (), s1)" "current_byte s1 = pattern_sectors m"
    "pattern_on (pattern_sectors m) (contents (fd s1))"
    using write_pattern_run [OF assms(1) w assms(2-4)] by blast
  obtain s2 where "verify_pattern D (m * sect_size) b fuel s1 = (Inr (Some ()), s2)"
    using verify_pattern_complete [OF assms(1) p s1(3) assms(4,5) _ assms(6)] s1(2) by blast
  moreover have "\<exists>t'. verify_pattern D (m * sect_size) b fuel t = (Inr (Some ()), t')"
    if "current_byte t = 0" "contents (fd t) = contents (fd s1)" for t
    using verify_pattern_complete [OF assms(1) p _ assms(4,5) _ assms(6), where s = t] s1(3) that by auto
  ultimately show ?thesis using s1 by (auto simp: misaligned_bio_main_def seqA_def bindA_def)
qed

theorem misaligned_bio_succeeds_witness:
  "\<exists>s2. misaligned_bio_main (ram_disk 46080) 4096 0 False 90 \<lparr>mem = \<lambda>_. 0, current_byte = 0, fd = ([], 0)\<rparr> = (Inr (Some ()), s2)"
  using misaligned_bio_succeeds [OF ram_disk_doc, of 8 46080 90 "\<lparr>mem = \<lambda>_. 0, current_byte = 0, fd = ([], 0)\<rparr>" 0]
  by (fastforce simp: pattern_sectors_def)

text \<open>
  C10: When the verification accepts, the device holds, from its start, the sectors numbered
  from 0 on and then the end marker; after a write run the number of sectors is the number
  written. Wrong or truncated contents are never accepted.
\<close>
theorem verify_pattern_sound:
  assumes "device_doc D contents position cap" and "sect_size \<le> page_size"
    and "verify_pattern D page_size b fuel s = (Inr (Some ()), s')"
  shows "\<exists>n. pattern_on n (contents (fd s)) \<and> (current_byte s = 0 \<or> n = current_byte s)"
proof -
  obtain s1 where s1: "verify_loop D page_size b (current_byte s) fuel 0 s1 = (Inr (Some ()), s')"
     "current_byte s1 = 0" "position (fd s1) = 0" "contents (fd s1) = contents (fd s)"
    using verify_pattern_rewound [OF assms(1)] assms(3) by metis
  from verify_loop_sound [OF assms(1,2) s1(1)] s1(2-4) show ?thesis by simp
qed

theorem verify_pattern_sound_witness:
  "\<exists>s'. verify_pattern (ram_disk 512) 512 0 1 \<lparr>mem = \<lambda>_. 0, current_byte = 0, fd = (replicate 512 255, 0)\<rparr> = (Inr (Some ()), s') \<and>
     (\<exists>n. pattern_on n (disk_bytes 512 (replicate 512 255, 0)))"
proof -
  let ?s = "\<lparr>mem = \<lambda>_. 0, current_byte = 0, fd = (replicate 512 255, 0 :: nat)\<rparr>"
  have "pattern_on 0 (disk_bytes 512 (replicate 512 255, 0))" by (simp add: pattern_on_def disk_bytes_def)
  then obtain s' where v: "verify_pattern (ram_disk 512) 512 0 1 ?s = (Inr (Some ()), s')"
    using verify_pattern_complete [OF ram_disk_doc, of 512 0 512 ?s 1 0] by auto
  show ?thesis using verify_pattern_sound [OF ram_disk_doc _ v] v by auto
qed

section \<open>Generated data\<close>

text \<open>The number read back from bytes, most significant first.\<close>

definition be_value :: "nat list \<Rightarrow> nat" where
  "be_value bs = foldl (\<lambda>a b. 256 * a + b) 0 bs"

lemma be_roundtrip:
  assumes "i < 2 ^ 64"
  shows "be_value (be_bytes i) = i"
proof -
  have "j \<le> 8 \<Longrightarrow> foldl (\<lambda>a b. 256 * a + b) 0 (map (\<lambda>k. i div 256 ^ (7 - k) mod 256) [0..<j]) =
      i div 256 ^ (8 - j) mod 256 ^ j" for j
  proof (induction j)
    case (Suc j)
    have "8 - j = Suc (7 - j)" using Suc.prems by simp
    then have "(256 :: nat) ^ (8 - j) = 256 ^ (7 - j) * 256" by (simp only: power_Suc2)
    then have "i div 256 ^ (8 - j) = i div 256 ^ (7 - j) div 256" by (simp add: div_mult2_eq)
    with Suc show ?case using mod_mult2_eq [of "i div 256 ^ (7 - j)" 256 "256 ^ j"] by simp
  qed simp
  from this [of 8] assms show ?thesis by (simp add: be_value_def be_bytes_def)
qed

lemma length_label_bytes: "label \<noteq> [] \<Longrightarrow> length (label_bytes label) = 8"
  by (cases label) (auto simp: label_bytes_def length_concat sum_list_replicate)

lemma length_be_bytes [simp]: "length (be_bytes i) = 8"
  by (simp add: be_bytes_def)

lemma data_generator_run:
  assumes "k \<le> 2 ^ 64"
  shows "forA [0..<k] (\<lambda>i. seqA (modA (\<lambda>o'. o' @ label_bytes label))
       (bindA (liftA (to_bytes8 i)) (\<lambda>bs. modA (\<lambda>o'. o' @ bs)))) out =
     (Inr (), out @ concat (map (\<lambda>i. label_bytes label @ be_bytes i) [0..<k]))"
  using assms
proof (induction k)
  case (Suc k)
  then show ?case
    by (simp add: for_append seqA_def bindA_def modA_def to_bytes8_def liftA_def ret_def)
qed simp

lemma nth_block:
  assumes "\<And>i. length (f i) = w" and "i < k"
  shows "take w (drop (w * i) (concat (map f [0..<k]))) = f i"
proof -
  have split: "[0..<k] = [0..<i] @ i # [Suc i..<k]"
    using assms(2) upt_add_eq_append [of 0 i "k - i"] by (simp add: upt_conv_Cons)
  have "length (concat (map f [0..<i])) = w * i" using assms(1) by (induction i) auto
  then show ?thesis using assms(1) unfolding split by simp
qed

text \<open>
  C34: \<open>data_generator.py\<close> with a non-empty label writes the number of bytes rounded down to a
  multiple of 16; the block at each 16-byte boundary starts with the label repeated to 8 bytes,
  and the counter read back from its second half is the number of the block, so no two blocks of
  the output are equal.
\<close>
theorem data_generator_blocks:
  assumes "label \<noteq> []" and "n div 16 \<le> 2 ^ 64"
  shows "\<exists>out. data_generator label n [] = (Inr (), out) \<and> length out = 16 * (n div 16) \<and>
     (\<forall>i. i < n div 16 \<longrightarrow> take 8 (drop (16 * i) out) = label_bytes label \<and>
        be_value (take 8 (drop (16 * i + 8) out)) = i)"
proof -
  define block where "block i = label_bytes label @ be_bytes i" for i
  let ?out = "concat (map block [0..<n div 16])"
  have len: "length (block i) = 16" for i by (simp add: block_def length_label_bytes assms(1))
  have "data_generator label n [] = (Inr (), ?out)"
    unfolding data_generator_def data_generator_run [OF assms(2)] by (simp add: block_def [abs_def])
  moreover have "length (concat (map block [0..<k])) = 16 * k" for k by (induction k) (simp_all add: len)
  moreover have "take 8 (drop (16 * i) ?out) = label_bytes label \<and> be_value (take 8 (drop (16 * i + 8) ?out)) = i"
    if i: "i < n div 16" for i
  proof -
    have b: "take 16 (drop (16 * i) ?out) = block i" using nth_block [of block 16, OF len i] .
    have "take 8 (drop (16 * i) ?out) = take 8 (block i)" unfolding b [symmetric] by (simp add: min_def)
    moreover have "take 8 (drop (16 * i + 8) ?out) = drop 8 (block i)"
      unfolding b [symmetric] by (simp add: drop_take add.commute)
    ultimately show ?thesis using i assms(2) by (simp add: block_def length_label_bytes assms(1) be_roundtrip)
  qed
  ultimately show ?thesis by blast
qed

theorem data_generator_blocks_witness:
  "\<exists>out. data_generator [65] 40 [] = (Inr (), out) \<and> length out = 32"
  using data_generator_blocks [of "[65]" 40] by auto

text \<open>
  \<open>stress-al.py\<close> writes at the starts of consecutive activity-log extents, whatever the
  lengths reported for the writes, and it makes one write fewer than the number of writes asked for.
\<close>
theorem stress_al_extents:
  "stress_al w_len nr_writes = map (\<lambda>i. int i * al_extent_len) [0..<nr_writes - 1]"
proof -
  have "stress_offsets w_len pos is = map (\<lambda>i. pos + int i * al_extent_len) [0..<length is]" for pos "is"
    by (induction "is" arbitrary: pos) (simp_all add: upt_conv_Cons map_Suc_upt [symmetric] algebra_simps del: upt_Suc)
  then show ?thesis by (simp add: stress_al_def)
qed

text \<open>
  \<open>mem_alloc.py\<close> allocates the requested size rounded down to whole chunks of 64 KiB, except
  that a request below one chunk (also zero or a negative one) still allocates a full chunk.
\<close>
theorem mem_alloc_size:
  "mem_alloc alloc_kib = 65536 * nat (max 1 (alloc_kib div 64))"
  by (simp add: mem_alloc_def Let_def sum_list_replicate)

end
