(* ===== verification/Spec2Isabelle.thy ===== *)
theory Spec2Isabelle
  imports Config_Sync Volume_Props Object_Methods Endurance Test_Start Disk_Usage Packets Logging Test_Generator Runner_Main Ci_Trigger Target_Tools
begin

text \<open>
  \<^bold>\<open>A model of the DRBD 9 test suite.\<close>

  The program is the Python library with which the scripts under \<open>src/tests\<close> drive DRBD on a cluster of
  hosts, the programs that select and run these scripts, and the small tools that run on the hosts. A
  script calls \<open>setup\<close>, which makes a \<open>Host\<close> for every machine; it creates a \<open>Resource\<close> with a \<open>Node\<close> on
  each host, \<open>Volume\<close>s of these nodes, and a \<open>Connection\<close> for each ordered pair of nodes; then it
  runs \<open>drbdadm\<close> and other commands on collections of these objects and waits for the events
  DRBD reports. At the end the cluster is taken down and the logs are checked. Everything reaches a
  host as one command line over SSH (\<open>Host.run\<close>).

  \<^bold>\<open>How a statement is modelled.\<close> A statement is a state transformer of type \<open>('s, 'a) act\<close>: it ends with an
  exception of the type \<open>exn\<close> or with a value, and leaves a state in both cases, because Python undoes
  nothing when it raises (theory \<open>Prelude\<close>). For the library the state is \<open>world\<close> (theory \<open>World\<close>): stores of
  hosts, nodes, volumes and resources addressed by references, the cluster, the module variables,
  and the trace of effects. What is outside the program is a parameter: the record \<open>environment\<close> (the
  answer to a command, given everything sent before; the answer of the log scanner; UUIDs; the
  order of a set; helper files), the clock, the OpenSSL binding, the block device under
  \<open>misaligned_bio\<close>, and for the runner the records \<open>runner_env\<close> and \<open>main_env\<close>. The theorems hold for every
  such parameter, up to the hypotheses they name (\<open>killed_fails\<close>, \<open>device_doc\<close>, \<open>clock_doc\<close>), which
  say what is documented of it and are instantiated by concrete ones in the witnesses.
\<close>

text \<open>
  \<^bold>\<open>The theories and the code.\<close>

  \<^item> \<open>Prelude\<close>: exceptions, statements, loops, a Hoare logic for them (\<open>triple\<close>, \<open>pres\<close>, \<open>keeps\<close> and, for total
    correctness, \<open>returns\<close>), and Python's string operations.
  \<^item> \<open>Ordered_Set\<close>: \<open>src/python/ordered_set.py\<close>, the insertion-ordered set under every collection.
  \<^item> \<open>Shell\<close>, \<open>World\<close>: \<open>Host.run\<close> of \<open>src/python/drbdtest.py\<close>, and the reference it is checked against, the word
    splitting of a POSIX shell.
  \<^item> \<open>Storage\<close>, \<open>Disk_Usage\<close>: the storage back ends of \<open>src/python/disktools.py\<close>.
  \<^item> \<open>Config_Block\<close>, \<open>Node_Config\<close>, \<open>Config_Sync\<close>: the configuration file of a node, how it is written and
    brought to the host, and that no command runs against an old one.
  \<^item> \<open>Collections\<close>, \<open>Node_Ops\<close>, \<open>Cluster_Ops\<close>, \<open>Object_Methods\<close>: the classes \<open>Nodes\<close>, \<open>Volumes\<close>, \<open>Connections\<close>,
    \<open>PeerDevices\<close>, \<open>Resource\<close>, \<open>Node\<close>, \<open>Volume\<close>, \<open>Connection\<close>, \<open>PeerDevice\<close>, \<open>Cluster\<close> of \<open>src/python/drbdtest.py\<close>;
    \<open>Cluster_Props\<close> and \<open>Volume_Props\<close> hold what these operations guarantee.
  \<^item> \<open>Command_Output\<close>, \<open>Platform\<close>, \<open>Windows_Platform\<close>: \<open>src/python/linuxplatformhelper.py\<close> and
    \<open>src/python/windowsplatformhelper.py\<close>, the setup of a host, the packet filter.
  \<^item> \<open>Lifecycle\<close>: logs, versions, teardown, cleanup and the command line of a test; \<open>Test_Start\<close>: the setup of a
    test with everything it calls; \<open>Packets\<close>: the tables of
    fault flags and packet types; \<open>Logging\<close>: \<open>src/python/drbdtestlogger.py\<close> and \<open>FirstWriteTrap\<close>.
  \<^item> \<open>Traffic_Control\<close>, \<open>Workloads\<close>, \<open>Busy_Write\<close>, \<open>Endurance\<close>, \<open>Tls\<close>: \<open>src/python/trafficcontrol.py\<close>, the \<open>fio\<close> runs and
    \<open>src/python/datatools.py\<close>, \<open>src/python/busywrite.py\<close>, \<open>src/python/endurance.py\<close>, \<open>src/python/tls.py\<close>.
  \<^item> \<open>Json\<close>: what the programs use of Python's module \<open>json\<close>.
  \<^item> \<open>Test_Generator\<close>: \<open>src/virter/vmshed_tests_generator.py\<close>, which tests run for a DRBD version.
  \<^item> \<open>Test_Runner\<close>, \<open>Runner_Files\<close>, \<open>Runner_Main\<close>: \<open>src/run.py\<close>, from the preparation of a VM to the exit status.
  \<^item> \<open>Ci_Trigger\<close>: \<open>src/.gitlab/trigger_for_artifact.py\<close>, which starts a build in the continuous integration.
  \<^item> \<open>Target_Tools\<close>: the programs under \<open>src/target\<close>.

  A definition has the name of the function or method it models where that name is free; a method whose
  name several classes share gets the class in front (\<open>node_run\<close>, \<open>volume_attach\<close>, \<open>nodes_down\<close>). Records have the
  attributes of the class. Python's integers are \<open>int\<close> or, where the code only counts up, \<open>nat\<close>; bytes on
  a device are \<open>nat\<close> below 256, and where a value is put into 8 bytes the overflow is an
  exception. Times and rates, floating point numbers in Python, are rational numbers.
\<close>

text \<open>
  \<^bold>\<open>Interfaces.\<close>

  \<^item> \<open>step_rel\<close> (theory \<open>Prelude\<close>): a reflexive and transitive relation between the states before and after a
    statement. Its rules lift the relation from single statements through sequences, loops,
    conditions and exception handlers, whatever the outcome. Instances on the model: \<open>eff\<close> (the objects
    stay, the trace grows), \<open>cr\<close> (the core of the objects stays), \<open>fr\<close> (what is outside the new
    volumes stays), \<open>lt\<close> (the progress of a teardown), \<open>dp\<close> (only configurations change), \<open>lw\<close> and \<open>lb\<close> (no effect is
    taken back), \<open>st\<close> and \<open>se\<close> (the hosts of the cluster stay while it is set up).
  \<^item> \<open>py_key\<close> (theory \<open>Ordered_Set\<close>): the contract of Python's \<open>__eq__\<close> for keys of a set; instances for plain
    values, connections and peer devices.
  \<^item> \<open>block_text\<close> (theory \<open>Config_Block\<close>): a property of text that is closed under concatenation and under
    putting text into a block, so that it holds for a whole configuration; instances: balanced
    braces, whole lines.

  \<^bold>\<open>What the lemmas show.\<close> The invariant \<open>all_fresh\<close> says that a node's file on its host is the generated one or is
  marked as outdated; every successful operation keeps it (\<open>cfg_step\<close>), so \<open>drbdadm\<close> always sees the
  current configuration. The exceptions to it, an update that fails, are a theorem as well.
  Creating a resource gives the full mesh of connections; selecting connections, adding
  volumes, going down and waiting for events are specified exactly. Blocking and unblocking
  are inverse on the tables of the packet filter. A setup that returns has the hosts asked for, with
  their logs captured and the expected versions. The ordered set refines duplicate-free lists,
  and its stale indices are a theorem. The command line is an inverse of the shell's word
  splitting. \<open>misaligned_bio\<close> ends, writes the pattern its verification accepts, and the
  verification accepts no other. The runner's exit code, statistics, table, test sets and
  result file are specified, and the generator's choice of tests. A resync endurance test ends. A writer to
  a \<open>Tee\<close> sees a snapshot of the streams in every interleaving; the start of the kernel log capture may
  wait for ever, which is a theorem too. Behaviour that differs from what a comment or a
  neighbouring function promises is stated as it is.

  \<^bold>\<open>Fuel and bounds.\<close> The JSON parser takes fuel \<open>2 * length + 2\<close>, which its round trip shows to be enough for
  everything \<open>json.dumps\<close> writes; \<open>stream_read_json\<close> takes one unit per character and one more, and
  each value takes a character. The loops of \<open>misaligned_bio\<close> take fuel, and \<open>misaligned_bio_succeeds\<close> shows how
  much is enough. The loop of the resync test takes fuel, and 1081 units are enough for any clock
  on which a sleep takes its time. All other loops are structural or have a termination proof.
\<close>

text \<open>
  \<^bold>\<open>Not modelled.\<close>

  \<^item> The scripts under \<open>src/tests\<close> and its sister directories: straight-line scenarios without
    reusable logic.
  \<^item> \<open>argparse\<close> itself (the parsed attributes are inputs) and the virtual consoles, which are input and
    output around library calls.
  \<^item> Provisioning and container recipes under \<open>src/virter\<close> and \<open>src/docker\<close>.
  \<^item> Interrupting a program in the middle of a statement.
\<close>

end
